(* ===== verification/Prelude.thy ===== *)
theory Prelude
  imports Main "HOL-Library.Word" "HOL-Library.AList"
begin

text \<open>
  Shared vocabulary of the development: machine integers, panics as values, the monad of
  handlers that act on the outside world, the arithmetic of both Rust build profiles, and the
  two standard-library dictionaries (\<open>BTreeMap\<close> and \<open>HashMap\<close>) with the interface
  the protocol relies on.
\<close>

named_theorems wp_simps \<open>weakest preconditions of the handler monad\<close>
named_theorems res_simps \<open>evaluation of computations that may panic\<close>
named_theorems dict_simps \<open>lookups after dictionary updates\<close>

section \<open>Machine integers and byte strings\<close>

type_synonym u8 = "8 word"
type_synonym u32 = "32 word"
type_synonym u64 = "64 word"
type_synonym usize = "64 word"
type_synonym bytes = "u8 list"

section \<open>Panics as values\<close>

text \<open>
  Every way in which the source can panic: \<open>unwrap\<close> on \<open>None\<close> or \<open>Err\<close>, \<open>expect\<close>,
  \<open>panic!\<close>, \<open>assert!\<close>, indexing a map with an absent key, indexing a slice out of
  range, and integer arithmetic.
\<close>

datatype panic =
    UnwrapNone
  | Expect string
  | PanicMsg string
  | AssertFailed string
  | KeyNotFound
  | OutOfBounds
  | ArithOverflow
  | DivByZero

type_synonym 'a res = "panic + 'a"

definition res_bind :: "'a res \<Rightarrow> ('a \<Rightarrow> 'b res) \<Rightarrow> 'b res" where
  "res_bind r f = (case r of Inl p \<Rightarrow> Inl p | Inr x \<Rightarrow> f x)"

definition unwrap :: "'a option \<Rightarrow> 'a res" where
  "unwrap x = (case x of None \<Rightarrow> Inl UnwrapNone | Some y \<Rightarrow> Inr y)"

definition expect :: "string \<Rightarrow> 'a option \<Rightarrow> 'a res" where
  "expect msg x = (case x of None \<Rightarrow> Inl (Expect msg) | Some y \<Rightarrow> Inr y)"

text \<open>Indexing with \<open>[]\<close>: an absent key or a position out of range panics.\<close>

definition index_map :: "'a option \<Rightarrow> 'a res" where
  "index_map x = (case x of None \<Rightarrow> Inl KeyNotFound | Some y \<Rightarrow> Inr y)"

definition index_list :: "'a list \<Rightarrow> nat \<Rightarrow> 'a res" where
  "index_list xs i = (if i < length xs then Inr (xs ! i) else Inl OutOfBounds)"

fun res_map :: "('a \<Rightarrow> 'b res) \<Rightarrow> 'a list \<Rightarrow> 'b list res" where
  "res_map f [] = Inr []"
| "res_map f (x # xs) =
     res_bind (f x) (\<lambda>y. res_bind (res_map f xs) (\<lambda>ys. Inr (y # ys)))"

fun res_fold :: "('a \<Rightarrow> 'b \<Rightarrow> 'a res) \<Rightarrow> 'a \<Rightarrow> 'b list \<Rightarrow> 'a res" where
  "res_fold f a [] = Inr a"
| "res_fold f a (x # xs) = res_bind (f a x) (\<lambda>a'. res_fold f a' xs)"

lemma res_bind_simps [simp, res_simps]:
  "res_bind (Inr x) f = f x" "res_bind (Inl p) f = Inl p"
  by (simp_all add: res_bind_def)

lemma res_bind_Inr: "res_bind r f = Inr y \<longleftrightarrow> (\<exists>x. r = Inr x \<and> f x = Inr y)"
  by (auto simp: res_bind_def split: sum.splits)

lemma unwrap_simps [simp, res_simps]: "unwrap (Some x) = Inr x" "unwrap None = Inl UnwrapNone"
  by (simp_all add: unwrap_def)

lemma unwrap_Inr [simp]: "unwrap x = Inr y \<longleftrightarrow> x = Some y"
  by (simp add: unwrap_def split: option.splits)

lemma expect_simps [simp, res_simps]:
  "expect m (Some x) = Inr x" "expect m None = Inl (Expect m)"
  by (simp_all add: expect_def)

lemma index_map_simps [simp, res_simps]:
  "index_map (Some x) = Inr x" "index_map None = Inl KeyNotFound"
  by (simp_all add: index_map_def)

lemma index_map_Inr [simp]: "index_map x = Inr y \<longleftrightarrow> x = Some y"
  by (simp add: index_map_def split: option.splits)

lemma index_list_Inr: "index_list xs i = Inr y \<longleftrightarrow> i < length xs \<and> xs ! i = y"
  by (simp add: index_list_def)

lemma res_map_length: "res_map f xs = Inr ys \<Longrightarrow> length ys = length xs"
  by (induction xs arbitrary: ys) (auto simp: res_bind_Inr)

lemma res_map_all: "(\<And>x. x \<in> set xs \<Longrightarrow> f x = Inr (g x)) \<Longrightarrow> res_map f xs = Inr (map g xs)"
  by (induction xs) simp_all

lemma res_fold_invariant:
  assumes "\<And>a x b. I a \<Longrightarrow> x \<in> set xs \<Longrightarrow> f a x = Inr b \<Longrightarrow> I b" and "I a"
    and "res_fold f a xs = Inr b"
  shows "I b"
  using assms
proof (induction xs arbitrary: a)
  case Nil
  then show ?case by simp
next
  case (Cons x xs)
  from Cons.prems(3) obtain a' where a': "f a x = Inr a'" "res_fold f a' xs = Inr b"
    by (auto simp: res_bind_Inr)
  have "I a'" using Cons.prems(1) [OF Cons.prems(2) _ a'(1)] by simp
  then show ?case by (rule Cons.IH [rotated]) (use Cons.prems(1) a'(2) in \<open>simp_all, blast\<close>)
qed

section \<open>Checked and wrapping arithmetic\<close>

text \<open>
  Rust integer arithmetic panics on overflow when the crate is built with overflow checks (the
  development profile and the tests) and wraps modulo \<open>2 ^ w\<close> without them (the release
  profile). \<open>Cargo.toml\<close> sets no profile, so both builds exist; the flag is an argument.
\<close>

definition add_chk :: "bool \<Rightarrow> 'a::len word \<Rightarrow> 'a word \<Rightarrow> 'a word res" where
  "add_chk ov a b =
     (if ov \<and> 2 ^ LENGTH('a) \<le> unat a + unat b then Inl ArithOverflow else Inr (a + b))"

definition sub_chk :: "bool \<Rightarrow> 'a::len word \<Rightarrow> 'a word \<Rightarrow> 'a word res" where
  "sub_chk ov a b = (if ov \<and> a < b then Inl ArithOverflow else Inr (a - b))"

definition mul_chk :: "bool \<Rightarrow> 'a::len word \<Rightarrow> 'a word \<Rightarrow> 'a word res" where
  "mul_chk ov a b =
     (if ov \<and> 2 ^ LENGTH('a) \<le> unat a * unat b then Inl ArithOverflow else Inr (a * b))"

lemma add_chk_exact:
  "unat a + unat b < 2 ^ LENGTH('a) \<Longrightarrow>
   \<exists>c. add_chk ov a b = Inr c \<and> unat c = unat a + unat (b :: 'a::len word)"
  by (auto simp: add_chk_def unat_word_ariths)

lemma sub_chk_exact:
  "b \<le> a \<Longrightarrow> \<exists>c. sub_chk ov a b = Inr c \<and> unat c = unat a - unat (b :: 'a::len word)"
  by (auto simp: sub_chk_def unat_sub)

lemma mul_chk_exact:
  "unat a * unat b < 2 ^ LENGTH('a) \<Longrightarrow>
   \<exists>c. mul_chk ov a b = Inr c \<and> unat c = unat a * unat (b :: 'a::len word)"
  by (auto simp: mul_chk_def unat_word_ariths)

lemma unat_ucast_small:
  "unat w < 2 ^ LENGTH('b) \<Longrightarrow> unat (ucast w :: 'b::len word) = unat (w :: 'a::len word)"
  by (simp add: unsigned_ucast_eq take_bit_nat_eq_self)

section \<open>The monad of handlers\<close>

text \<open>
  A handler reads and writes the world. The world is the trace of the effects so far, newest
  first: each request to the outside is answered by an environment that may depend on the whole
  trace, and the answer is recorded. A panic ends the handler and keeps the trace, since what
  was already sent stays sent.
\<close>

type_synonym ('e, 'a) io = "'e list \<Rightarrow> 'a res \<times> 'e list"

definition ret :: "'a \<Rightarrow> ('e, 'a) io" where
  "ret x t = (Inr x, t)"

definition bind :: "('e, 'a) io \<Rightarrow> ('a \<Rightarrow> ('e, 'b) io) \<Rightarrow> ('e, 'b) io" where
  "bind m f t = (case m t of (r, t') \<Rightarrow> (case r of Inl p \<Rightarrow> (Inl p, t') | Inr x \<Rightarrow> f x t'))"

definition lift :: "'a res \<Rightarrow> ('e, 'a) io" where
  "lift r t = (r, t)"

definition emit :: "'e \<Rightarrow> ('e, unit) io" where
  "emit e t = (Inr (), e # t)"

fun io_fold :: "('a \<Rightarrow> 'b \<Rightarrow> ('e, 'a) io) \<Rightarrow> 'a \<Rightarrow> 'b list \<Rightarrow> ('e, 'a) io" where
  "io_fold f a [] = ret a"
| "io_fold f a (x # xs) = bind (f a x) (\<lambda>a'. io_fold f a' xs)"

text \<open>Weakest precondition, with a postcondition for the panics.\<close>

definition wp ::
  "('e, 'a) io \<Rightarrow> (panic \<Rightarrow> 'e list \<Rightarrow> bool) \<Rightarrow> ('a \<Rightarrow> 'e list \<Rightarrow> bool) \<Rightarrow> 'e list \<Rightarrow> bool" where
  "wp m R Q t = (case m t of (r, t') \<Rightarrow> (case r of Inl p \<Rightarrow> R p t' | Inr x \<Rightarrow> Q x t'))"

lemma wp_ret [wp_simps]: "wp (ret x) R Q = Q x"
  by (simp add: wp_def ret_def fun_eq_iff)

lemma wp_bind [wp_simps]: "wp (bind m f) R Q = wp m R (\<lambda>x. wp (f x) R Q)"
  by (auto simp: wp_def bind_def fun_eq_iff split: prod.splits sum.splits)

lemma wp_lift [wp_simps]: "wp (lift r) R Q = (\<lambda>t. case r of Inl p \<Rightarrow> R p t | Inr x \<Rightarrow> Q x t)"
  by (simp add: wp_def lift_def fun_eq_iff)

lemma wp_emit [wp_simps]: "wp (emit e) R Q = (\<lambda>t. Q () (e # t))"
  by (simp add: wp_def emit_def fun_eq_iff)

lemma wp_if [wp_simps]: "wp (if b then m else n) R Q = (if b then wp m R Q else wp n R Q)"
  by simp

lemma wp_mono:
  assumes "wp m R Q t" and "\<And>p t'. R p t' \<Longrightarrow> R' p t'" and "\<And>x t'. Q x t' \<Longrightarrow> Q' x t'"
  shows "wp m R' Q' t"
  using assms by (auto simp: wp_def split: prod.splits sum.splits)

lemma wp_True: "wp m (\<lambda>_ _. True) (\<lambda>_ _. True) t"
  by (simp add: wp_def split: prod.splits sum.splits)

lemma wp_conj: "wp m R Q t \<Longrightarrow> wp m R' Q' t \<Longrightarrow>
    wp m (\<lambda>p t. R p t \<and> R' p t) (\<lambda>x t. Q x t \<and> Q' x t) t"
  by (auto simp: wp_def split: prod.splits sum.splits)

lemma wp_Inr: "wp m R Q t \<Longrightarrow> m t = (Inr x, t') \<Longrightarrow> Q x t'"
  by (simp add: wp_def)

lemma wp_Inl: "wp m R Q t \<Longrightarrow> m t = (Inl p, t') \<Longrightarrow> R p t'"
  by (simp add: wp_def)

text \<open>An invariant of the loop body is an invariant of the loop.\<close>

lemma wp_io_fold:
  assumes "\<And>a x t. I a t \<Longrightarrow> x \<in> set xs \<Longrightarrow> wp (f a x) R I t" and "I a t"
  shows "wp (io_fold f a xs) R I t"
  using assms
proof (induction xs arbitrary: a t)
  case Nil
  then show ?case by (simp add: wp_ret)
next
  case (Cons x xs)
  have "wp (f a x) R I t" using Cons.prems by simp
  then show ?case
    by (simp add: wp_bind) (erule wp_mono, assumption, rule Cons.IH, auto intro: Cons.prems(1))
qed

lemma bind_eval [res_simps]:
  "bind m f t = (case m t of (r, t') \<Rightarrow> (case r of Inl p \<Rightarrow> (Inl p, t') | Inr x \<Rightarrow> f x t'))"
  by (rule bind_def)

lemma ret_eval [res_simps]: "ret x t = (Inr x, t)"
  by (rule ret_def)

lemma lift_eval [res_simps]: "lift r t = (r, t)"
  by (rule lift_def)

lemma emit_eval [res_simps]: "emit e t = (Inr (), e # t)"
  by (rule emit_def)

section \<open>BTreeMap: an association list in strictly increasing key order\<close>

type_synonym ('k, 'v) btree = "('k \<times> 'v) list"

fun bt_insert :: "'k::linorder \<Rightarrow> 'v \<Rightarrow> ('k, 'v) btree \<Rightarrow> ('k, 'v) btree" where
  "bt_insert k v [] = [(k, v)]"
| "bt_insert k v ((k', v') # m) =
     (if k < k' then (k, v) # (k', v') # m
      else if k = k' then (k, v) # m
      else (k', v') # bt_insert k v m)"

definition bt_get :: "('k, 'v) btree \<Rightarrow> 'k \<Rightarrow> 'v option" where
  "bt_get m k = map_of m k"

definition bt_keys :: "('k, 'v) btree \<Rightarrow> 'k list" where
  "bt_keys m = map fst m"

definition bt_values :: "('k, 'v) btree \<Rightarrow> 'v list" where
  "bt_values m = map snd m"

definition bt_contains :: "('k, 'v) btree \<Rightarrow> 'k \<Rightarrow> bool" where
  "bt_contains m k = (bt_get m k \<noteq> None)"

definition bt_ok :: "('k::linorder, 'v) btree \<Rightarrow> bool" where
  "bt_ok m = sorted_wrt (<) (map fst m)"

lemma bt_get_insert [simp, dict_simps]: "bt_get (bt_insert k v m) = (bt_get m)(k \<mapsto> v)"
  by (induction k v m rule: bt_insert.induct) (auto simp: bt_get_def fun_eq_iff)

lemma bt_get_empty [simp]: "bt_get [] k = None"
  by (simp add: bt_get_def)

lemma set_bt_keys_insert [simp]: "set (bt_keys (bt_insert k v m)) = insert k (set (bt_keys m))"
  by (induction k v m rule: bt_insert.induct) (auto simp: bt_keys_def)

lemma bt_ok_insert [simp]: "bt_ok m \<Longrightarrow> bt_ok (bt_insert k v m)"
proof (induction k v m rule: bt_insert.induct)
  case (2 k v k' v' m)
  have "set (map fst (bt_insert k v m)) = insert k (set (map fst m))"
    using set_bt_keys_insert [of k v m] by (simp add: bt_keys_def)
  with 2 show ?case by (auto simp: bt_ok_def)
qed (simp add: bt_ok_def)

lemma bt_contains_iff: "bt_contains m k \<longleftrightarrow> k \<in> set (bt_keys m)"
  by (simp add: bt_contains_def bt_keys_def bt_get_def map_of_eq_None_iff)

lemma bt_get_Some_keys: "bt_get m k = Some v \<Longrightarrow> k \<in> set (bt_keys m)"
  using bt_contains_iff [of m k] by (simp add: bt_contains_def)

lemma bt_keys_get: "k \<in> set (bt_keys m) \<Longrightarrow> \<exists>v. bt_get m k = Some v"
  using bt_contains_iff [of m k] by (simp add: bt_contains_def)

lemma bt_ok_distinct: "bt_ok m \<Longrightarrow> distinct (bt_keys m)"
  by (simp add: bt_ok_def bt_keys_def strict_sorted_iff)

lemma length_bt_keys [simp]: "length (bt_keys m) = length m"
  by (simp add: bt_keys_def)

lemma bt_ok_entry: "bt_ok m \<Longrightarrow> (k, v) \<in> set m \<Longrightarrow> bt_get m k = Some v"
  using bt_ok_distinct [of m] by (simp add: bt_get_def bt_keys_def)

section \<open>HashMap: an association list whose order carries no meaning\<close>

text \<open>
  Lookups and updates do not depend on the order of the list. Where the source iterates over a
  \<open>HashMap\<close>, the order is the one a parameter of the environment chooses.
\<close>

type_synonym ('k, 'v) hmap = "('k \<times> 'v) list"

definition hm_insert :: "'k \<Rightarrow> 'v \<Rightarrow> ('k, 'v) hmap \<Rightarrow> ('k, 'v) hmap" where
  "hm_insert k v m = AList.update k v m"

definition hm_remove :: "'k \<Rightarrow> ('k, 'v) hmap \<Rightarrow> ('k, 'v) hmap" where
  "hm_remove k m = AList.delete k m"

definition hm_get :: "('k, 'v) hmap \<Rightarrow> 'k \<Rightarrow> 'v option" where
  "hm_get m k = map_of m k"

definition hm_contains :: "('k, 'v) hmap \<Rightarrow> 'k \<Rightarrow> bool" where
  "hm_contains m k = (hm_get m k \<noteq> None)"

definition hm_keys :: "('k, 'v) hmap \<Rightarrow> 'k list" where
  "hm_keys m = map fst m"

text \<open>\<open>m.entry(a).or_insert_with(HashMap::new).insert(b, v)\<close> on a map of maps.\<close>

definition hm_insert2 ::
  "'a \<Rightarrow> 'b \<Rightarrow> 'v \<Rightarrow> ('a, ('b, 'v) hmap) hmap \<Rightarrow> ('a, ('b, 'v) hmap) hmap" where
  "hm_insert2 a b v m =
     hm_insert a (hm_insert b v (case hm_get m a of None \<Rightarrow> [] | Some i \<Rightarrow> i)) m"

definition hm_get2 :: "('a, ('b, 'v) hmap) hmap \<Rightarrow> 'a \<Rightarrow> 'b \<Rightarrow> 'v option" where
  "hm_get2 m a b = (case hm_get m a of None \<Rightarrow> None | Some i \<Rightarrow> hm_get i b)"

lemma hm_get_insert [simp, dict_simps]: "hm_get (hm_insert k v m) = (hm_get m)(k \<mapsto> v)"
  by (simp add: hm_get_def hm_insert_def fun_eq_iff update_conv')

lemma hm_get_remove [simp, dict_simps]: "hm_get (hm_remove k m) = (hm_get m)(k := None)"
  by (simp add: hm_get_def hm_remove_def fun_eq_iff delete_conv')

lemma hm_get_empty [simp]: "hm_get [] k = None"
  by (simp add: hm_get_def)

lemma hm_insert_not_Nil [simp]: "hm_insert k v m \<noteq> []"
  by (cases m) (auto simp: hm_insert_def)

lemma hm_contains_insert [simp, dict_simps]:
  "hm_contains (hm_insert k v m) k' \<longleftrightarrow> k' = k \<or> hm_contains m k'"
  by (auto simp: hm_contains_def)

lemma hm_contains_keys: "hm_contains m k \<longleftrightarrow> k \<in> set (hm_keys m)"
  by (simp add: hm_contains_def hm_keys_def hm_get_def map_of_eq_None_iff)

lemma hm_get2_insert2 [simp, dict_simps]:
  "hm_get2 (hm_insert2 a b v m) a' b' = (if a' = a \<and> b' = b then Some v else hm_get2 m a' b')"
  by (auto simp: hm_get2_def hm_insert2_def split: option.splits)

lemma hm_get2_empty [simp]: "hm_get2 [] a b = None"
  by (simp add: hm_get2_def)

section \<open>The dictionary interface\<close>

text \<open>
  What the protocol relies on in both dictionaries: a lookup returns the last value inserted
  under the key. The collection rounds of the protocol (wait until every participant has an
  entry) are proved once against this interface.
\<close>

locale dict =
  fixes ins :: "'k \<Rightarrow> 'v \<Rightarrow> 'm \<Rightarrow> 'm"
    and get :: "'m \<Rightarrow> 'k \<Rightarrow> 'v option"
  assumes get_ins: "get (ins k v m) k' = (if k' = k then Some v else get m k')"
begin

lemma ins_keeps_present: "get m k' \<noteq> None \<Longrightarrow> get (ins k v m) k' \<noteq> None"
  by (simp add: get_ins)

text \<open>Once a round is complete, no later insertion makes it incomplete.\<close>

lemma complete_mono:
  "\<forall>k' \<in> set ks. get m k' \<noteq> None \<Longrightarrow> \<forall>k' \<in> set ks. get (ins k v m) k' \<noteq> None"
  by (simp add: get_ins)

text \<open>An insertion completes a round exactly when every other key was already present.\<close>

lemma complete_ins:
  "(\<forall>k' \<in> set ks. get (ins k v m) k' \<noteq> None) \<longleftrightarrow> (\<forall>k' \<in> set ks - {k}. get m k' \<noteq> None)"
  by (auto simp: get_ins)

lemma complete_fold:
  "(\<forall>k' \<in> set ks. get (fold (\<lambda>(k, v). ins k v) kvs m) k' \<noteq> None) \<longleftrightarrow>
   (\<forall>k' \<in> set ks - fst ` set kvs. get m k' \<noteq> None)"
proof (induction kvs arbitrary: m)
  case Nil
  then show ?case by simp
next
  case (Cons kv kvs)
  obtain k v where kv: "kv = (k, v)" by (cases kv)
  have "(\<forall>k' \<in> set ks. get (fold (\<lambda>(k, v). ins k v) (kv # kvs) m) k' \<noteq> None) \<longleftrightarrow>
      (\<forall>k' \<in> set ks - fst ` set kvs. get (ins k v m) k' \<noteq> None)"
    using Cons.IH [of "ins k v m"] by (simp only: kv fold_simps split_conv o_apply)
  also have "\<dots> \<longleftrightarrow> (\<forall>k' \<in> set ks - fst ` set (kv # kvs). get m k' \<noteq> None)"
    by (auto simp: kv get_ins)
  finally show ?case .
qed

lemma last_write_wins: "get (ins k v (ins k v' m)) k = Some v"
  by (simp add: get_ins)

end

interpretation btree: dict bt_insert bt_get
  by unfold_locales simp

interpretation hmap: dict hm_insert hm_get
  by unfold_locales simp

interpretation nested: dict "\<lambda>(a, b). hm_insert2 a b" "\<lambda>m (a, b). hm_get2 m a b"
  by unfold_locales (auto split: prod.splits)

end
