(* ===== verification/Types.thy ===== *)
theory Types
  imports Prelude
begin

text \<open>
  The data model of \<open>src/swap-daemon/src/types.rs\<close> and \<open>config.rs\<close>: wire messages,
  participants, the session record with every field, chain-poll targets, the MuSig runtime, the
  configuration and the daemon. \<open>BTreeMap\<close> fields are \<open>btree\<close>, \<open>HashMap\<close> fields are
  \<open>hmap\<close>, \<open>HashSet\<close> fields are sets.
\<close>

section \<open>Identifiers and opaque values of the cryptographic crates\<close>

type_synonym participant_id = u8
type_synonym session_id = u64
type_synonym address = string
type_synonym hex_string = string

text \<open>
  Values of the crates \<open>secp256k1\<close> and \<open>musig2\<close>. The development never looks inside one:
  each is a distinct type around a token, and every operation on it is a parameter.
\<close>

datatype seckey = SecKey bytes
datatype pubkey = PubKey bytes
datatype scalar = Scalar nat
datatype point = Point nat
datatype sec_nonce = SecNonce bytes
datatype pub_nonce = PubNonce bytes
datatype agg_nonce = AggNonce bytes
datatype partial_sig = PartialSig bytes
datatype adaptor_sig = AdaptorSig bytes
datatype lifted_sig = LiftedSig bytes
datatype key_agg_ctx = KeyAggCtx bytes

section \<open>Wire messages\<close>

datatype tx_role = Refund participant_id | Spend participant_id

fun role_participant_id :: "tx_role \<Rightarrow> participant_id" where
  "role_participant_id (Refund i) = i"
| "role_participant_id (Spend i) = i"

definition is_spend :: "tx_role \<Rightarrow> bool" where
  "is_spend r = (case r of Spend _ \<Rightarrow> True | Refund _ \<Rightarrow> False)"

lemma is_spend_simps [simp]: "is_spend (Spend i)" "\<not> is_spend (Refund i)"
  by (simp_all add: is_spend_def)

datatype wire_message =
    AdaptorPoint string
  | LeaderElectionCommitment bytes
  | LeaderElectionNonce bytes
  | SchnorrNonce tx_role string
  | PartialSignature tx_role string
  | LockTxBroadcast
  | SecretReveal string
  | SpendTxBroadcast

record envelope =
  env_session_id :: session_id
  env_participant_id :: participant_id
  env_msg :: wire_message

definition envelope_new :: "session_id \<Rightarrow> participant_id \<Rightarrow> wire_message \<Rightarrow> envelope" where
  "envelope_new sid pid m = \<lparr>env_session_id = sid, env_participant_id = pid, env_msg = m\<rparr>"

lemma envelope_new_simps [simp]:
  "env_session_id (envelope_new s p m) = s"
  "env_participant_id (envelope_new s p m) = p"
  "env_msg (envelope_new s p m) = m"
  by (simp_all add: envelope_new_def)

section \<open>Participants\<close>

datatype blockchain = Bitcoin | Cardano

record participant =
  p_id :: participant_id
  blockchain :: blockchain
  tcp_address :: address
  target_participant :: participant_id
  amount_locking :: u64
  amount_claiming :: u64
  is_me :: bool
  secp256k1_public_key :: string
  p_wallet_public_key :: bytes
  funding_utxo_txid :: string
  funding_utxo_vout :: u32

type_synonym participants = "(participant_id, participant) btree"

section \<open>Session states\<close>

datatype swap_state =
    Initialized
  | AwaitingAdaptorPoints
  | AwaitingLeaderElectionCommitments
  | AwaitingLeaderElectionNonces
  | RefundAndSpendTxsSigning
  | Funding
  | AwaitingLockConfirmations
  | AwaitingSecrets
  | AwaitingLeaderSpend
  | Claiming
  | Completed
  | Refunded
  | Failed

text \<open>The order of the declaration, which is the order in which an honest run goes through the
  states; the three final states come last.\<close>

fun phase :: "swap_state \<Rightarrow> nat" where
  "phase Initialized = 0"
| "phase AwaitingAdaptorPoints = 1"
| "phase AwaitingLeaderElectionCommitments = 2"
| "phase AwaitingLeaderElectionNonces = 3"
| "phase RefundAndSpendTxsSigning = 4"
| "phase Funding = 5"
| "phase AwaitingLockConfirmations = 6"
| "phase AwaitingSecrets = 7"
| "phase AwaitingLeaderSpend = 8"
| "phase Claiming = 9"
| "phase Completed = 10"
| "phase Refunded = 11"
| "phase Failed = 12"

lemma phase_inj: "phase a = phase b \<Longrightarrow> a = b"
  by (cases a; cases b) simp_all

instantiation swap_state :: linorder
begin

definition less_eq_swap_state :: "swap_state \<Rightarrow> swap_state \<Rightarrow> bool" where
  "less_eq_swap_state a b = (phase a \<le> phase b)"

definition less_swap_state :: "swap_state \<Rightarrow> swap_state \<Rightarrow> bool" where
  "less_swap_state a b = (phase a < phase b)"

instance
  by intro_classes (auto simp: less_eq_swap_state_def less_swap_state_def dest: phase_inj)

end

definition terminal :: "swap_state \<Rightarrow> bool" where
  "terminal st = (st \<in> {Completed, Refunded, Failed})"

lemma terminal_simps [simp]:
  "terminal Completed" "terminal Refunded" "terminal Failed"
  "\<not> terminal Initialized" "\<not> terminal AwaitingAdaptorPoints"
  "\<not> terminal AwaitingLeaderElectionCommitments" "\<not> terminal AwaitingLeaderElectionNonces"
  "\<not> terminal RefundAndSpendTxsSigning" "\<not> terminal Funding"
  "\<not> terminal AwaitingLockConfirmations" "\<not> terminal AwaitingSecrets"
  "\<not> terminal AwaitingLeaderSpend" "\<not> terminal Claiming"
  by (simp_all add: terminal_def)

lemma terminal_iff_late: "terminal st \<longleftrightarrow> Completed \<le> st"
  by (cases st) (simp_all add: less_eq_swap_state_def)

section \<open>MuSig runtime and the session record\<close>

datatype musig_runtime =
    RoundOne (all_pubkeys: "string list") (signer_index: usize) (msg: bytes)
      (taproot_tweak: bool) (sec_nonce: bytes)
  | RoundTwo (all_pubkeys: "string list") (signer_index: usize) (msg: bytes)
      (taproot_tweak: bool)

record cardano_collateral =
  utxo_txid :: string
  utxo_index :: u32

text \<open>The connection pool: the peers with an open stream.\<close>

type_synonym connection_pool = "address set"

record session =
  sess_id :: session_id
  participants :: participants
  start_block :: u32
  start_slot :: u64
  state :: swap_state
  state_history :: "swap_state list"
  bitcoin_fee :: u64
  cardano_fee :: u64
  refund_window_secs :: u64
  leader_nonces :: "(participant_id, bytes) btree"
  leader_commitments :: "(participant_id, bytes) btree"
  leader :: "participant_id option"
  musig_sessions :: "(tx_role, musig_runtime) hmap"
  schnorr_nonces :: "(participant_id, (tx_role, string) hmap) hmap"
  partial_sigs :: "(participant_id, (tx_role, string) hmap) hmap"
  lock_txs :: "(participant_id, hex_string) hmap"
  unsigned_txs :: "(tx_role, hex_string) hmap"
  signed_txs :: "(tx_role, hex_string) hmap"
  adaptor_sigs :: "(tx_role, hex_string) hmap"
  lock_txs_broadcast :: "participant_id set"
  confirmed_lock_txs :: "participant_id set"
  adaptor_secrets :: "(participant_id, hex_string) hmap"
  adaptor_points :: "(participant_id, string) hmap"
  cardano_collaterals :: "(participant_id, cardano_collateral) hmap"
  connection_pool :: connection_pool

text \<open>The struct literal with which \<open>SwapSession::new\<close> ends: everything empty but the
  arguments and the participant's own adaptor secret and point.\<close>

definition session_literal ::
  "session_id \<Rightarrow> participants \<Rightarrow> u32 \<Rightarrow> u64 \<Rightarrow> u64 \<Rightarrow> u64 \<Rightarrow>
   (participant_id, hex_string) hmap \<Rightarrow> (participant_id, string) hmap \<Rightarrow> session" where
  "session_literal sid ps sblock sslot bfee cfee secrets points =
     \<lparr>sess_id = sid, participants = ps, start_block = sblock, start_slot = sslot,
      state = Initialized, state_history = [Initialized], bitcoin_fee = bfee, cardano_fee = cfee,
      refund_window_secs = 604800, leader_nonces = [], leader_commitments = [], leader = None,
      musig_sessions = [], schnorr_nonces = [], partial_sigs = [], lock_txs = [],
      unsigned_txs = [], signed_txs = [], adaptor_sigs = [], lock_txs_broadcast = {},
      confirmed_lock_txs = {}, adaptor_secrets = secrets, adaptor_points = points,
      cardano_collaterals = [], connection_pool = {}\<rparr>"

section \<open>Configuration, keys and the daemon\<close>

datatype bitcoin_network = BtcMainnet | BtcTestnet4 | BtcCustom string

datatype cardano_network =
    CarMainnet
  | CarPreprod
  | CarPreview
  | CarCustom (grpc_url: string) (rest_url: string) (custom_start: u64)

record daemon_config =
  cfg_tcp_address :: string
  bitcoin_network :: bitcoin_network
  cardano_network :: cardano_network
  blockfrost_api_key :: string
  validate_utxos :: bool

record swap_keys =
  secret_key :: seckey
  public_key :: pubkey
  wallet_secret_key :: bytes
  wallet_public_key :: bytes

datatype chain_poll_target =
    LockTx participant_id
  | LeaderSpendTx participant_id
  | RefundWindow participant_id

datatype daemon_event =
    PeerMessage envelope string
  | ChainPoll session_id chain_poll_target

text \<open>The abort handle of a poller is the identity of its task, here the unit value: what matters
  of the map is its keys.\<close>

record daemon =
  sessions :: "(session_id, session) hmap"
  swap_keys :: swap_keys
  active_pollers :: "(session_id \<times> chain_poll_target, unit) hmap"
  config :: daemon_config

section \<open>Network constants of config.rs\<close>

definition config_mainnet :: "string \<Rightarrow> string \<Rightarrow> daemon_config" where
  "config_mainnet addr key =
     \<lparr>cfg_tcp_address = addr, bitcoin_network = BtcMainnet, cardano_network = CarMainnet,
      blockfrost_api_key = key, validate_utxos = True\<rparr>"

text \<open>\<open>BLOCKFROST_API_KEY\<close> is read from the process environment, an argument here; an unset
  variable gives the empty string.\<close>

definition config_testnet :: "string option \<Rightarrow> string \<Rightarrow> daemon_config" where
  "config_testnet api_key_var addr =
     \<lparr>cfg_tcp_address = addr, bitcoin_network = BtcTestnet4, cardano_network = CarPreprod,
      blockfrost_api_key = (case api_key_var of None \<Rightarrow> [] | Some k \<Rightarrow> k),
      validate_utxos = True\<rparr>"

fun mempool_base_url :: "bitcoin_network \<Rightarrow> string" where
  "mempool_base_url BtcMainnet = ''https://mempool.space/api''"
| "mempool_base_url BtcTestnet4 = ''https://mempool.space/testnet4/api''"
| "mempool_base_url (BtcCustom url) = url"

fun blockfrost_base_url :: "cardano_network \<Rightarrow> string res" where
  "blockfrost_base_url CarMainnet = Inr ''https://cardano-mainnet.blockfrost.io''"
| "blockfrost_base_url CarPreprod = Inr ''https://cardano-preprod.blockfrost.io''"
| "blockfrost_base_url CarPreview = Inr ''https://cardano-preview.blockfrost.io''"
| "blockfrost_base_url (CarCustom _ _ _) =
     Inl (PanicMsg ''Custom network uses Dolos, not Blockfrost'')"

fun system_start_secs :: "cardano_network \<Rightarrow> u64" where
  "system_start_secs CarMainnet = 1506203091"
| "system_start_secs CarPreprod = 1654041600"
| "system_start_secs CarPreview = 1666656000"
| "system_start_secs (CarCustom _ _ start) = start"

fun dolos_grpc_url :: "cardano_network \<Rightarrow> string option" where
  "dolos_grpc_url (CarCustom g _ _) = Some g"
| "dolos_grpc_url _ = None"

fun dolos_rest_url :: "cardano_network \<Rightarrow> string option" where
  "dolos_rest_url (CarCustom _ r _) = Some r"
| "dolos_rest_url _ = None"

text \<open>Exactly one of the two indexers serves a network: Blockfrost panics on a custom network,
  and the Dolos addresses exist on a custom network only.\<close>

lemma indexer_exclusive:
  "(\<exists>u. blockfrost_base_url n = Inr u) \<longleftrightarrow> dolos_rest_url n = None"
  "dolos_rest_url n = None \<longleftrightarrow> dolos_grpc_url n = None"
  by (cases n; simp)+

end
