(* ===== verification/Effects.thy ===== *)
theory Effects
  imports Types
begin

text \<open>
  The outside of the program. The crates the daemon calls (\<open>musig2\<close>, \<open>secp256k1\<close>,
  \<open>bitcoin\<close>, \<open>cardano-serialization-lib\<close>, \<open>ed25519-dalek\<close>, \<open>hex\<close>, \<open>serde_json\<close>,
  hash functions) are records of functions, arguments of everything that uses them; the HTTP
  services, the peers' sockets and the random generator answer through functions of the trace
  so far. The record \<open>env\<close> collects them.
\<close>

section \<open>Numbers and text, as the standard library prints and parses them\<close>

definition digit_char :: "nat \<Rightarrow> char" where
  "digit_char d = ''0123456789'' ! d"

fun show_nat :: "nat \<Rightarrow> string" where
  "show_nat n = (if n < 10 then [digit_char n] else show_nat (n div 10) @ [digit_char (n mod 10)])"

declare show_nat.simps [simp del]

definition char_digit :: "char \<Rightarrow> nat option" where
  "char_digit c =
     (if CHR ''0'' = c then Some 0 else if CHR ''1'' = c then Some 1
      else if CHR ''2'' = c then Some 2 else if CHR ''3'' = c then Some 3
      else if CHR ''4'' = c then Some 4 else if CHR ''5'' = c then Some 5
      else if CHR ''6'' = c then Some 6 else if CHR ''7'' = c then Some 7
      else if CHR ''8'' = c then Some 8 else if CHR ''9'' = c then Some 9 else None)"

fun read_digits :: "nat \<Rightarrow> string \<Rightarrow> nat option" where
  "read_digits acc [] = Some acc"
| "read_digits acc (c # cs) =
     (case char_digit c of None \<Rightarrow> None | Some d \<Rightarrow> read_digits (10 * acc + d) cs)"

text \<open>\<open>str::parse::<u64>\<close>: an optional plus sign, at least one decimal digit, no overflow.\<close>

definition parse_u64 :: "string \<Rightarrow> u64 option" where
  "parse_u64 s =
     (let ds = (case s of c # cs \<Rightarrow> if c = CHR ''+'' then cs else s | [] \<Rightarrow> s) in
      if ds = [] then None
      else case read_digits 0 ds of
             None \<Rightarrow> None
           | Some n \<Rightarrow> if n < 2 ^ 64 then Some (of_nat n) else None)"

definition is_space :: "char \<Rightarrow> bool" where
  "is_space c = (c \<in> set [CHR '' '', CHR 0x09, CHR 0x0A, CHR 0x0B, CHR 0x0C, CHR 0x0D])"

definition trim :: "string \<Rightarrow> string" where
  "trim s = rev (dropWhile is_space (rev (dropWhile is_space s)))"

lemma digit_roundtrip: "d < 10 \<Longrightarrow> char_digit (digit_char d) = Some d"
proof -
  assume "d < 10"
  then have "d \<in> {0, 1, 2, 3, 4, 5, 6, 7, 8, 9}" by auto
  then show ?thesis by (auto simp: digit_char_def char_digit_def)
qed

lemma read_digits_append:
  "read_digits acc (xs @ ys) = (case read_digits acc xs of None \<Rightarrow> None | Some n \<Rightarrow> read_digits n ys)"
  by (induction xs arbitrary: acc) (auto split: option.splits)

lemma read_show_nat: "read_digits 0 (show_nat n) = Some n"
proof (induction n rule: show_nat.induct)
  case (1 n)
  show ?case
  proof (cases "n < 10")
    case True
    then show ?thesis by (simp add: show_nat.simps [of n] digit_roundtrip)
  next
    case False
    with 1 show ?thesis by (simp add: show_nat.simps [of n] read_digits_append digit_roundtrip)
  qed
qed

lemma show_nat_not_Nil: "show_nat n \<noteq> []"
  by (simp add: show_nat.simps [of n])

lemma show_nat_hd_digit: "\<exists>c cs. show_nat n = c # cs \<and> c \<noteq> CHR ''+''"
proof (induction n rule: show_nat.induct)
  case (1 n)
  have d: "d < 10 \<Longrightarrow> digit_char d \<noteq> CHR ''+''" for d
    using digit_roundtrip [of d] by (auto simp: char_digit_def)
  show ?case
  proof (cases "n < 10")
    case True
    then show ?thesis by (simp add: show_nat.simps [of n] d)
  next
    case False
    with 1 show ?thesis by (auto simp: show_nat.simps [of n])
  qed
qed

text \<open>A number printed with \<open>to_string\<close> parses back to itself.\<close>

lemma parse_show_u64: "parse_u64 (show_nat (unat (n :: u64))) = Some n"
proof -
  obtain c cs where s: "show_nat (unat n) = c # cs" and c: "c \<noteq> CHR ''+''"
    using show_nat_hd_digit by blast
  have "unat n < 2 ^ 64"
    using unsigned_less [of n, where ?'a = nat] by simp
  then show ?thesis
    using read_show_nat [of "unat n"] c by (simp add: parse_u64_def s)
qed

section \<open>JSON values\<close>

text \<open>The values of \<open>serde_json::Value\<close>; its accessors are parameters.\<close>

datatype json =
    JNull
  | JBool bool
  | JNumber int
  | JString string
  | JArray "json list"
  | JObject "(string \<times> json) list"

record json_lib =
  j_index :: "json \<Rightarrow> string \<Rightarrow> json"
  j_nth :: "json \<Rightarrow> nat \<Rightarrow> json"
  j_get :: "json \<Rightarrow> string \<Rightarrow> json option"
  as_bool :: "json \<Rightarrow> bool option"
  as_u64 :: "json \<Rightarrow> u64 option"
  as_str :: "json \<Rightarrow> string option"
  as_array :: "json \<Rightarrow> json list option"

section \<open>Bitcoin transactions and the bitcoin crate\<close>

record out_point =
  op_txid :: string
  op_vout :: u32

record tx_in =
  previous_output :: out_point
  script_sig :: bytes
  sequence :: u32
  witness :: "bytes list"

record tx_out =
  out_value :: u64
  script_pubkey :: bytes

record btc_tx =
  tx_version :: nat
  lock_time :: u32
  tx_input :: "tx_in list"
  tx_output :: "tx_out list"

datatype btc_net = NetBitcoin | NetTestnet | NetRegtest

record btc_lib =
  btc_deserialize_hex :: "hex_string \<Rightarrow> btc_tx option"
  btc_serialize_hex :: "btc_tx \<Rightarrow> hex_string"
  compute_txid :: "btc_tx \<Rightarrow> string"
  txid_from_str :: "string \<Rightarrow> string option"
  xonly_from_slice :: "bytes \<Rightarrow> bytes option"
  p2tr_script :: "bytes \<Rightarrow> btc_net \<Rightarrow> bytes"
  lock_time_from_height :: "u32 \<Rightarrow> u32 option"
  taproot_sighash :: "btc_tx \<Rightarrow> nat \<Rightarrow> tx_out list \<Rightarrow> bytes option"
  sign_keyspend :: "seckey \<Rightarrow> bytes \<Rightarrow> bytes"
  tap_tweak_hash :: "bytes \<Rightarrow> bytes"
  enable_rbf_no_locktime :: u32

section \<open>Cardano transactions and cardano-serialization-lib\<close>

datatype plutus_data =
    PBytes bytes
  | PInt string
  | PConstr nat "plutus_data list"

record car_output =
  co_address :: bytes
  co_value :: u64
  co_datum :: "plutus_data option"

record car_body =
  cb_inputs :: "(bytes \<times> u32) list"
  cb_outputs :: "car_output list"
  cb_fee :: u64
  cb_collateral :: "(bytes \<times> u32) list option"
  cb_validity_start :: "u64 option"
  cb_script_data_hash :: "bytes option"

record redeemer =
  rd_data :: plutus_data
  rd_mem :: u64
  rd_cpu :: u64

record car_witness =
  cw_vkeys :: "(bytes \<times> bytes) list option"
  cw_scripts :: "bytes list option"
  cw_redeemers :: "redeemer list option"

record car_tx =
  ct_body :: car_body
  ct_witness :: car_witness

text \<open>The integers of a cost model keep their sign apart from their magnitude.\<close>

datatype csl_int = IntPos nat | IntNeg nat
datatype costmdls = PlutusV3Costs "csl_int list"

record csl_lib =
  car_to_bytes :: "car_tx \<Rightarrow> bytes"
  car_from_bytes :: "bytes \<Rightarrow> car_tx option"
  fixed_tx_hash :: "bytes \<Rightarrow> bytes option"
  body_to_bytes :: "car_body \<Rightarrow> bytes"
  tx_hash_from_hex :: "string \<Rightarrow> bytes option"
  script_enterprise_address :: "u8 \<Rightarrow> bytes \<Rightarrow> bytes"
  key_enterprise_address :: "u8 \<Rightarrow> bytes \<Rightarrow> bytes option"
  address_to_bech32 :: "bytes \<Rightarrow> string option"
  output_build :: "bytes \<Rightarrow> plutus_data option \<Rightarrow> u64 \<Rightarrow> car_output option"
  ed25519_sign :: "bytes \<Rightarrow> bytes \<Rightarrow> bytes"
  ed25519_pubkey :: "bytes \<Rightarrow> bytes option"
  hash_script_data :: "redeemer list \<Rightarrow> costmdls \<Rightarrow> bytes"
  big_int_from_str :: "string \<Rightarrow> string option"

section \<open>musig2 and secp256k1\<close>

text \<open>\<open>MaybeScalar\<close> and \<open>MaybePoint\<close> are options: \<open>None\<close> is zero and infinity.\<close>

record musig_lib =
  pk_parse :: "string \<Rightarrow> pubkey option"
  pk_to_string :: "pubkey \<Rightarrow> string"
  pk_serialize :: "pubkey \<Rightarrow> bytes"
  pk_combine :: "pubkey \<Rightarrow> pubkey \<Rightarrow> pubkey option"
  scalar_from_slice :: "bytes \<Rightarrow> scalar option"
  scalar_serialize :: "scalar \<Rightarrow> bytes"
  scalar_add :: "scalar \<Rightarrow> scalar \<Rightarrow> scalar option"
  scalar_sub :: "scalar \<Rightarrow> scalar \<Rightarrow> scalar option"
  scalar_neg :: "scalar \<Rightarrow> scalar"
  base_point_mul :: "scalar option \<Rightarrow> point option"
  point_add :: "point option \<Rightarrow> point option \<Rightarrow> point option"
  point_sub :: "point option \<Rightarrow> point option \<Rightarrow> point option"
  point_to_string :: "point \<Rightarrow> string"
  nonce_parse :: "string \<Rightarrow> pub_nonce option"
  nonce_to_string :: "pub_nonce \<Rightarrow> string"
  nonce_sum :: "pub_nonce list \<Rightarrow> agg_nonce"
  key_agg_new :: "pubkey list \<Rightarrow> key_agg_ctx option"
  key_agg_pubkey :: "key_agg_ctx \<Rightarrow> pubkey"
  key_agg_with_tweak :: "key_agg_ctx \<Rightarrow> scalar \<Rightarrow> key_agg_ctx option"
  sec_nonce_build :: "bytes \<Rightarrow> seckey \<Rightarrow> bytes \<Rightarrow> sec_nonce"
  sec_nonce_public :: "sec_nonce \<Rightarrow> pub_nonce"
  sec_nonce_serialize :: "sec_nonce \<Rightarrow> bytes"
  sec_nonce_from_bytes :: "bytes \<Rightarrow> sec_nonce option"
  sign_partial :: "key_agg_ctx \<Rightarrow> seckey \<Rightarrow> sec_nonce \<Rightarrow> agg_nonce \<Rightarrow> bytes \<Rightarrow> partial_sig option"
  adaptor_sign_partial ::
    "key_agg_ctx \<Rightarrow> seckey \<Rightarrow> sec_nonce \<Rightarrow> agg_nonce \<Rightarrow> pubkey \<Rightarrow> bytes \<Rightarrow> partial_sig option"
  psig_serialize :: "partial_sig \<Rightarrow> bytes"
  psig_from_slice :: "bytes \<Rightarrow> partial_sig option"
  aggregate_sigs ::
    "key_agg_ctx \<Rightarrow> agg_nonce \<Rightarrow> partial_sig list \<Rightarrow> bytes \<Rightarrow> bytes option"
  adaptor_aggregate_sigs ::
    "key_agg_ctx \<Rightarrow> agg_nonce \<Rightarrow> pubkey \<Rightarrow> partial_sig list \<Rightarrow> bytes \<Rightarrow> adaptor_sig option"
  adaptor_serialize :: "adaptor_sig \<Rightarrow> bytes"
  adaptor_from_bytes :: "bytes \<Rightarrow> adaptor_sig option"
  adaptor_unzip :: "adaptor_sig \<Rightarrow> point option \<times> scalar option"
  adaptor_adapt :: "adaptor_sig \<Rightarrow> scalar \<Rightarrow> lifted_sig option"
  lifted_serialize :: "lifted_sig \<Rightarrow> bytes"
  lifted_from_bytes :: "bytes \<Rightarrow> lifted_sig option"
  lifted_unzip :: "lifted_sig \<Rightarrow> point option \<times> scalar option"

section \<open>Effects and the environment\<close>

datatype http_method = GET | POST

datatype http_body = NoBody | TextBody string | BinBody bytes

record http_request =
  rq_method :: http_method
  rq_url :: string
  rq_headers :: "(string \<times> string) list"
  rq_body :: http_body

text \<open>A response: whether its status is a success, its text and its parsed JSON when the body
  can be read. A request that fails has no response.\<close>

record http_response =
  rs_success :: bool
  rs_text :: "string option"
  rs_json :: "json option"

datatype effect =
    Http http_request "http_response option"
  | GrpcSubmit string bytes bool
  | RandomBytes bytes
  | TcpConnect address bool
  | TcpWrite address envelope bytes bool
  | PollerSpawned session_id chain_poll_target
  | PollerAborted session_id chain_poll_target

type_synonym trace = "effect list"
type_synonym 'a act = "(effect, 'a) io"

text \<open>The part of the epoch parameters that the daemon deserializes. Floating-point prices stay as
  the decimal text they are written in.\<close>

record epoch_params =
  ep_plutus_v3 :: "int list"
  ep_min_fee_a :: "u64 option"
  ep_min_fee_b :: "u64 option"
  ep_price_mem :: "string option"
  ep_price_step :: "string option"

record env =
  musig :: musig_lib
  btc :: btc_lib
  csl :: csl_lib
  json :: json_lib
  hex_encode :: "bytes \<Rightarrow> hex_string"
  hex_decode :: "hex_string \<Rightarrow> bytes option"
  sha256 :: "bytes \<Rightarrow> bytes"
  blake2b256 :: "bytes \<Rightarrow> bytes"
  serde_to_vec :: "envelope \<Rightarrow> bytes option"
  serde_from_str :: "string \<Rightarrow> envelope option"
  utf8_valid :: "bytes \<Rightarrow> bool"
  epoch_params_of_json :: "json \<Rightarrow> epoch_params option"
  exec_fee_f64 :: "string \<Rightarrow> string \<Rightarrow> u64 \<Rightarrow> u64 \<Rightarrow> u64"
  parse_f64 :: "string \<Rightarrow> string option"
  hash_order :: "participant_id list \<Rightarrow> participant_id list"
  overflow_checks :: bool
  grpc_uri_ok :: "string \<Rightarrow> bool"
  net_answer :: "trace \<Rightarrow> http_request \<Rightarrow> http_response option"
  grpc_answer :: "trace \<Rightarrow> string \<Rightarrow> bytes \<Rightarrow> bool"
  rng_answer :: "trace \<Rightarrow> nat \<Rightarrow> bytes"
  connect_answer :: "trace \<Rightarrow> address \<Rightarrow> bool"
  write_answer :: "trace \<Rightarrow> address \<Rightarrow> bytes \<Rightarrow> bool"

definition http_send :: "env \<Rightarrow> http_request \<Rightarrow> http_response option act" where
  "http_send E rq t = (let r = net_answer E t rq in (Inr r, Http rq r # t))"

text \<open>\<open>reqwest::get\<close>, and a GET with the project header of Blockfrost.\<close>

definition http_get :: "env \<Rightarrow> string \<Rightarrow> http_response option act" where
  "http_get E url = http_send E \<lparr>rq_method = GET, rq_url = url, rq_headers = [], rq_body = NoBody\<rparr>"

definition http_get_key :: "env \<Rightarrow> string \<Rightarrow> string \<Rightarrow> http_response option act" where
  "http_get_key E url key =
     http_send E \<lparr>rq_method = GET, rq_url = url, rq_headers = [(''project_id'', key)], rq_body = NoBody\<rparr>"

definition http_post ::
  "env \<Rightarrow> string \<Rightarrow> (string \<times> string) list \<Rightarrow> http_body \<Rightarrow> http_response option act" where
  "http_post E url headers body =
     http_send E \<lparr>rq_method = POST, rq_url = url, rq_headers = headers, rq_body = body\<rparr>"

definition grpc_submit :: "env \<Rightarrow> string \<Rightarrow> bytes \<Rightarrow> bool act" where
  "grpc_submit E url b t =
     (let ok = grpc_answer E t url b in (Inr ok, GrpcSubmit url b ok # t))"

definition random_bytes :: "env \<Rightarrow> nat \<Rightarrow> bytes act" where
  "random_bytes E n t = (let b = rng_answer E t n in (Inr b, RandomBytes b # t))"

lemma wp_http_send [wp_simps]:
  "wp (http_send E rq) R Q = (\<lambda>t. Q (net_answer E t rq) (Http rq (net_answer E t rq) # t))"
  by (simp add: wp_def http_send_def Let_def fun_eq_iff)

lemma wp_random_bytes [wp_simps]:
  "wp (random_bytes E n) R Q = (\<lambda>t. Q (rng_answer E t n) (RandomBytes (rng_answer E t n) # t))"
  by (simp add: wp_def random_bytes_def Let_def fun_eq_iff)

lemma wp_grpc_submit [wp_simps]:
  "wp (grpc_submit E url b) R Q =
   (\<lambda>t. Q (grpc_answer E t url b) (GrpcSubmit url b (grpc_answer E t url b) # t))"
  by (simp add: wp_def grpc_submit_def Let_def fun_eq_iff)

text \<open>Values of a hash map in the order the environment iterates it.\<close>

definition hm_values :: "env \<Rightarrow> (participant_id, 'v) hmap \<Rightarrow> 'v list" where
  "hm_values E m = List.map_filter (hm_get m) (hash_order E (hm_keys m))"

text \<open>The \<open>format!\<close> of a URL: its parts joined by slashes.\<close>

fun url_path :: "string \<Rightarrow> string list \<Rightarrow> string" where
  "url_path base [] = base"
| "url_path base (p # ps) = url_path (base @ ''/'' @ p) ps"

declare url_path.simps [simp del]

section \<open>Effects that only observe\<close>

text \<open>Two traces agree on what was sent to the peers or changed on a chain: the filter keeps the
  requests that can change something outside and the messages.\<close>

definition outward :: "effect \<Rightarrow> bool" where
  "outward e = (case e of
       Http rq _ \<Rightarrow> rq_method rq = POST
     | GrpcSubmit _ _ _ \<Rightarrow> True
     | TcpWrite _ _ _ _ \<Rightarrow> True
     | _ \<Rightarrow> False)"

lemma outward_simps [simp]:
  "outward (Http rq r) = (rq_method rq = POST)"
  "outward (GrpcSubmit u b k)" "outward (TcpWrite a v b k)"
  "\<not> outward (RandomBytes b)" "\<not> outward (TcpConnect a k)"
  "\<not> outward (PollerSpawned s p)" "\<not> outward (PollerAborted s p)"
  by (simp_all add: outward_def)

text \<open>A computation that panics or returns without sending anything.\<close>

definition silent :: "'a act \<Rightarrow> bool" where
  "silent m \<longleftrightarrow> (\<forall>t. filter outward (snd (m t)) = filter outward t)"

lemma silent_ret [intro, simp]: "silent (ret x)"
  by (simp add: silent_def ret_def)

lemma silent_lift [intro, simp]: "silent (lift r)"
  by (simp add: silent_def lift_def)

lemma silent_bind [intro]: "silent m \<Longrightarrow> (\<And>x. silent (f x)) \<Longrightarrow> silent (bind m f)"
  by (auto simp: silent_def bind_def split: prod.splits sum.splits) (metis snd_conv)+

lemma silent_if [intro]: "silent m \<Longrightarrow> silent n \<Longrightarrow> silent (if b then m else n)"
  by simp

lemma silent_option [intro]:
  "silent m \<Longrightarrow> (\<And>x. silent (f x)) \<Longrightarrow> silent (case o' of None \<Rightarrow> m | Some x \<Rightarrow> f x)"
  by (cases o') simp_all

lemma silent_http_get [intro, simp]: "silent (http_get E url)"
  by (simp add: silent_def http_get_def http_send_def Let_def)

lemma silent_http_get_key [intro, simp]: "silent (http_get_key E url key)"
  by (simp add: silent_def http_get_key_def http_send_def Let_def)

lemma silent_random [intro, simp]: "silent (random_bytes E n)"
  by (simp add: silent_def random_bytes_def Let_def)

section \<open>Which effects a computation can have\<close>

text \<open>Every new effect satisfies the predicate, whether the computation returns or panics; with the
  predicate that always holds this says that the trace only grows.\<close>

definition emits :: "(effect \<Rightarrow> bool) \<Rightarrow> 'a act \<Rightarrow> bool" where
  "emits P m \<longleftrightarrow> (\<forall>t. \<exists>new. snd (m t) = new @ t \<and> list_all P new)"

lemma emits_ret [intro, simp]: "emits P (ret x)"
  by (simp add: emits_def ret_def)

lemma emits_lift [intro, simp]: "emits P (lift r)"
  by (simp add: emits_def lift_def)

lemma emits_bind [intro]:
  assumes "emits P m" "\<And>x. emits P (f x)"
  shows "emits P (bind m f)"
  unfolding emits_def
proof
  fix t
  obtain r t1 where m: "m t = (r, t1)" by (cases "m t")
  obtain n1 where n1: "t1 = n1 @ t" "list_all P n1"
    using assms(1) m unfolding emits_def by (metis snd_conv)
  show "\<exists>new. snd (bind m f t) = new @ t \<and> list_all P new"
  proof (cases r)
    case (Inl p)
    then show ?thesis using m n1 by (simp add: bind_def)
  next
    case (Inr x)
    obtain n2 where "snd (f x t1) = n2 @ t1" "list_all P n2"
      using assms(2) [of x] unfolding emits_def by blast
    then have "snd (bind m f t) = (n2 @ n1) @ t \<and> list_all P (n2 @ n1)"
      using m n1 Inr by (simp add: bind_def)
    then show ?thesis by blast
  qed
qed

text \<open>As above, for a continuation that only matters on the values the first part returns.\<close>

lemma emits_bind_lift [intro]:
  "(\<And>x. r = Inr x \<Longrightarrow> emits P (f x)) \<Longrightarrow> emits P (bind (lift r) f)"
  by (cases r) (simp_all add: emits_def bind_def lift_def)

lemma emits_if [intro]: "(b \<Longrightarrow> emits P m) \<Longrightarrow> (\<not> b \<Longrightarrow> emits P n) \<Longrightarrow> emits P (if b then m else n)"
  by simp

lemma emits_option [intro]:
  "(x = None \<Longrightarrow> emits P m) \<Longrightarrow> (\<And>y. x = Some y \<Longrightarrow> emits P (f y)) \<Longrightarrow>
   emits P (case x of None \<Rightarrow> m | Some y \<Rightarrow> f y)"
  by (cases x) simp_all

lemma emits_prod [intro]: "(\<And>a b. x = (a, b) \<Longrightarrow> emits P (f a b)) \<Longrightarrow> emits P (case x of (a, b) \<Rightarrow> f a b)"
  by (cases x) simp

lemma emits_chain [intro]:
  "emits P a \<Longrightarrow> emits P b \<Longrightarrow> emits P (case c of Bitcoin \<Rightarrow> a | Cardano \<Rightarrow> b)"
  by (cases c) simp_all

lemma emits_network [intro]:
  "(\<And>g r c. emits P (m g r c)) \<Longrightarrow> emits P a \<Longrightarrow> emits P b \<Longrightarrow> emits P d \<Longrightarrow>
   emits P (case cn of CarCustom g r c \<Rightarrow> m g r c | CarMainnet \<Rightarrow> a | CarPreprod \<Rightarrow> b | CarPreview \<Rightarrow> d)"
  by (cases cn) simp_all

lemma emits_mono: "emits P m \<Longrightarrow> (\<And>e. P e \<Longrightarrow> Q e) \<Longrightarrow> emits Q m"
  unfolding emits_def by (metis (no_types, lifting) list_all_iff)

lemma emits_http_send [intro]: "(\<And>r. P (Http rq r)) \<Longrightarrow> emits P (http_send E rq)"
  by (simp add: emits_def http_send_def Let_def)

lemma emits_http_get [intro]:
  "(\<And>u h r. P (Http \<lparr>rq_method = GET, rq_url = u, rq_headers = h, rq_body = NoBody\<rparr> r)) \<Longrightarrow>
   emits P (http_get E url)"
  "(\<And>u h r. P (Http \<lparr>rq_method = GET, rq_url = u, rq_headers = h, rq_body = NoBody\<rparr> r)) \<Longrightarrow>
   emits P (http_get_key E url key)"
  by (auto simp: http_get_def http_get_key_def)

lemma emits_http_post [intro]: "(\<And>rq r. P (Http rq r)) \<Longrightarrow> emits P (http_post E url h b)"
  by (auto simp: http_post_def)

lemma emits_random [intro]: "(\<And>b. P (RandomBytes b)) \<Longrightarrow> emits P (random_bytes E n)"
  by (simp add: emits_def random_bytes_def Let_def)

lemma emits_grpc [intro]: "(\<And>u b k. P (GrpcSubmit u b k)) \<Longrightarrow> emits P (grpc_submit E u b)"
  by (simp add: emits_def grpc_submit_def Let_def)

lemma emits_emit [intro]: "P e \<Longrightarrow> emits P (emit e)"
  by (simp add: emits_def emit_def)

lemma emits_fold_set: "(\<And>a x. x \<in> set xs \<Longrightarrow> emits P (f a x)) \<Longrightarrow> emits P (io_fold f a xs)"
  by (induction xs arbitrary: a) (auto intro: emits_bind)

lemma emits_fold [intro]: "(\<And>a x. emits P (f a x)) \<Longrightarrow> emits P (io_fold f a xs)"
  by (rule emits_fold_set)

lemmas emits_rules = emits_ret emits_lift emits_bind_lift emits_bind emits_if emits_option
  emits_prod emits_chain emits_network

lemma emits_trace: "emits P m \<Longrightarrow> m t = (r, t') \<Longrightarrow> \<exists>new. t' = new @ t \<and> list_all P new"
  unfolding emits_def by (metis snd_conv)

text \<open>The new effects of a run.\<close>

definition new_effects :: "trace \<Rightarrow> trace \<Rightarrow> trace" where
  "new_effects t t' = take (length t' - length t) t'"

lemma new_effects_append [simp]: "new_effects t (new @ t) = new"
  by (simp add: new_effects_def)

lemma emits_new: "emits P m \<Longrightarrow> m t = (r, t') \<Longrightarrow> list_all P (new_effects t t')"
  by (auto dest: emits_trace)

section \<open>Growth of the trace\<close>

text \<open>The trace has grown by effects that satisfy a predicate.\<close>

definition grown :: "(effect \<Rightarrow> bool) \<Rightarrow> trace \<Rightarrow> trace \<Rightarrow> bool" where
  "grown P t t' \<longleftrightarrow> (\<exists>new. t' = new @ t \<and> list_all P new)"

lemma grown_refl [simp, intro]: "grown P t t"
  by (simp add: grown_def)

lemma grown_Cons [simp]: "P e \<Longrightarrow> grown P t t' \<Longrightarrow> grown P t (e # t')"
  by (auto simp: grown_def intro: exI [of _ "e # new" for new])

lemma grown_trans: "grown P t t' \<Longrightarrow> grown P t' t'' \<Longrightarrow> grown P t t''"
  unfolding grown_def by (elim exE) (rule_tac x = "newa @ new" in exI, simp)

lemma grown_mono: "grown P t t' \<Longrightarrow> (\<And>e. e \<in> set t' \<Longrightarrow> P e \<Longrightarrow> Q e) \<Longrightarrow> grown Q t t'"
  by (auto simp: grown_def list_all_iff)

lemma grown_subset: "grown P t t' \<Longrightarrow> set t \<subseteq> set t'"
  by (auto simp: grown_def)

lemma grown_new: "grown P t t' \<Longrightarrow> list_all P (new_effects t t')"
  by (auto simp: grown_def)

text \<open>What a computation emits can be added to what it returns.\<close>

lemma wp_emits:
  assumes "emits P m" "wp m R Q t"
  shows "wp m (\<lambda>p t'. R p t' \<and> grown P t t') (\<lambda>x t'. Q x t' \<and> grown P t t') t"
proof -
  obtain r t' where m: "m t = (r, t')" by (cases "m t")
  have "grown P t t'" using emits_trace [OF assms(1) m] by (simp add: grown_def)
  then show ?thesis using assms(2) m by (auto simp: wp_def split: sum.splits)
qed

lemma wp_emits_only: "emits P m \<Longrightarrow> wp m (\<lambda>_ t'. grown P t t') (\<lambda>_ t'. grown P t t') t"
  using wp_emits [OF _ wp_True, of P m t] by (auto elim: wp_mono)

text \<open>A continuation that only matters for the results that satisfy a postcondition.\<close>

lemma emits_bind_post:
  assumes "emits P m" and "\<And>t. wp m (\<lambda>_ _. True) (\<lambda>x _. J x) t" and "\<And>x. J x \<Longrightarrow> emits P (f x)"
  shows "emits P (bind m f)"
  unfolding emits_def
proof
  fix t
  obtain r t1 where m: "m t = (r, t1)" by (cases "m t")
  obtain n1 where n1: "t1 = n1 @ t" "list_all P n1" using emits_trace [OF assms(1) m] by blast
  show "\<exists>new. snd (bind m f t) = new @ t \<and> list_all P new"
  proof (cases r)
    case (Inl p)
    then show ?thesis using m n1 by (simp add: bind_def)
  next
    case (Inr x)
    then have "J x" using wp_Inr [OF assms(2)] m by simp
    then obtain n2 where "snd (f x t1) = n2 @ t1" "list_all P n2"
      using assms(3) unfolding emits_def by blast
    then show ?thesis using m n1 Inr by (intro exI [of _ "n2 @ n1"]) (simp add: bind_def)
  qed
qed

end
