(* ===== verification/Networking.thy ===== *)
theory Networking
  imports Effects
begin

text \<open>
  \<open>src/swap-daemon/src/networking.rs\<close>: the pool of open connections, the broadcast of an
  envelope to a list of peers, and the reader of an incoming connection. The tasks of one
  broadcast run in the order of the addresses; a task that cannot connect or write loses its
  message, logs and leaves the others alone.
\<close>

section \<open>Sending\<close>

definition new_connection_pool :: connection_pool where
  "new_connection_pool = {}"

definition tcp_connect :: "env \<Rightarrow> address \<Rightarrow> bool act" where
  "tcp_connect E addr t = (let ok = connect_answer E t addr in (Inr ok, TcpConnect addr ok # t))"

definition tcp_write :: "env \<Rightarrow> address \<Rightarrow> envelope \<Rightarrow> bytes \<Rightarrow> bool act" where
  "tcp_write E addr v b t =
     (let ok = write_answer E t addr b in (Inr ok, TcpWrite addr v b ok # t))"

text \<open>The stream of the pool, or a new one: false when the peer cannot be reached.\<close>

definition open_stream :: "env \<Rightarrow> connection_pool \<Rightarrow> address \<Rightarrow> (bool \<times> connection_pool) act" where
  "open_stream E pool addr =
     (if addr \<in> pool then ret (True, pool)
      else bind (tcp_connect E addr)
        (\<lambda>ok. ret (ok, if ok then insert addr pool else pool)))"

definition send_one ::
  "env \<Rightarrow> envelope \<Rightarrow> bytes \<Rightarrow> connection_pool \<Rightarrow> address \<Rightarrow> connection_pool act" where
  "send_one E v framed pool addr =
     bind (open_stream E pool addr) (\<lambda>(ok, pool').
       if \<not> ok then ret pool'
       else bind (tcp_write E addr v framed)
         (\<lambda>written. ret (if written then pool' else pool' - {addr})))"

text \<open>The result is whether the envelope could be serialized, the only error it returns.\<close>

definition broadcast ::
  "env \<Rightarrow> address list \<Rightarrow> envelope \<Rightarrow> connection_pool \<Rightarrow> (bool \<times> connection_pool) act" where
  "broadcast E addrs v pool =
     (case serde_to_vec E v of
        None \<Rightarrow> ret (False, pool)
      | Some payload \<Rightarrow>
          bind (io_fold (send_one E v (payload @ [10])) pool addrs) (\<lambda>pool'. ret (True, pool')))"

section \<open>Receiving\<close>

definition parse_envelope :: "env \<Rightarrow> string \<Rightarrow> envelope option" where
  "parse_envelope E line = serde_from_str E line"

text \<open>The lines of a byte stream, without the newline and a carriage return before it, and the
  unterminated rest.\<close>

definition drop_cr :: "bytes \<Rightarrow> bytes" where
  "drop_cr l = (if l \<noteq> [] \<and> last l = 13 then butlast l else l)"

fun lines_from :: "bytes \<Rightarrow> bytes \<Rightarrow> bytes list \<times> bytes" where
  "lines_from acc [] = ([], acc)"
| "lines_from acc (b # bs) =
     (if b = 10 then (case lines_from [] bs of (ls, rest) \<Rightarrow> (drop_cr acc # ls, rest))
      else lines_from (acc @ [b]) bs)"

definition text_of :: "bytes \<Rightarrow> string" where
  "text_of l = map (\<lambda>b. char_of (unat b)) l"

text \<open>What \<open>next_line\<close> returns in turn on a connection that delivers these bytes and is then closed, or
  fails: a line that is no UTF-8 text and a failed read are errors; a last line needs no newline.\<close>

definition connection_lines :: "env \<Rightarrow> bytes \<Rightarrow> bool \<Rightarrow> string option list" where
  "connection_lines E bs closed =
     (let (ls, rest) = lines_from [] bs; line = (\<lambda>l. if utf8_valid E l then Some (text_of l) else None) in
      map line ls @ (if \<not> closed then [None] else if rest = [] then [] else [line rest]))"

text \<open>The lines of a connection become events in order, up to the first that cannot be read or does not
  parse, which ends the connection with an error. The channel takes every event: its receiver lives
  as long as the daemon.\<close>

fun handle_lines :: "env \<Rightarrow> string \<Rightarrow> string option list \<Rightarrow> daemon_event list \<times> bool" where
  "handle_lines E sender [] = ([], True)"
| "handle_lines E sender (None # lines) = ([], False)"
| "handle_lines E sender (Some line # lines) =
     (case parse_envelope E line of
        None \<Rightarrow> ([], False)
      | Some v \<Rightarrow> (let (evs, ok) = handle_lines E sender lines in (PeerMessage v sender # evs, ok)))"

definition handle_connection :: "env \<Rightarrow> string \<Rightarrow> bytes \<Rightarrow> bool \<Rightarrow> daemon_event list \<times> bool" where
  "handle_connection E sender bs closed = handle_lines E sender (connection_lines E bs closed)"

section \<open>What a broadcast does\<close>

lemma wp_tcp_connect [wp_simps]:
  "wp (tcp_connect E a) R Q =
   (\<lambda>t. Q (connect_answer E t a) (TcpConnect a (connect_answer E t a) # t))"
  by (simp add: wp_def tcp_connect_def Let_def fun_eq_iff)

lemma wp_tcp_write [wp_simps]:
  "wp (tcp_write E a v b) R Q =
   (\<lambda>t. Q (write_answer E t a b) (TcpWrite a v b (write_answer E t a b) # t))"
  by (simp add: wp_def tcp_write_def Let_def fun_eq_iff)

text \<open>The effects of a broadcast: connections and writes of this very envelope, to the given
  addresses only.\<close>

definition broadcast_effect :: "address list \<Rightarrow> envelope \<Rightarrow> effect \<Rightarrow> bool" where
  "broadcast_effect addrs v e = (case e of
       TcpConnect a _ \<Rightarrow> a \<in> set addrs
     | TcpWrite a v' _ _ \<Rightarrow> a \<in> set addrs \<and> v' = v
     | _ \<Rightarrow> False)"

lemma broadcast_effect_simps [simp]:
  "broadcast_effect addrs v (TcpConnect a k) = (a \<in> set addrs)"
  "broadcast_effect addrs v (TcpWrite a v' b k) = (a \<in> set addrs \<and> v' = v)"
  by (simp_all add: broadcast_effect_def)

lemma wp_send_one:
  assumes "a \<in> set addrs" and "\<exists>new. t' = new @ t \<and> list_all (broadcast_effect addrs v) new"
  shows "wp (send_one E v b pool a) (\<lambda>_ _. False)
    (\<lambda>_ t'. \<exists>new. t' = new @ t \<and> list_all (broadcast_effect addrs v) new) t'"
  using assms by (auto simp: send_one_def open_stream_def wp_simps)

lemma wp_broadcast:
  "wp (broadcast E addrs v pool) (\<lambda>_ _. False)
    (\<lambda>_ t'. \<exists>new. t' = new @ t \<and> list_all (broadcast_effect addrs v) new) t"
proof (cases "serde_to_vec E v")
  case None
  then show ?thesis by (simp add: broadcast_def wp_simps)
next
  case (Some payload)
  have "wp (io_fold (send_one E v (payload @ [10])) pool addrs) (\<lambda>_ _. False)
    (\<lambda>_ t'. \<exists>new. t' = new @ t \<and> list_all (broadcast_effect addrs v) new) t"
    by (rule wp_io_fold) (auto intro: wp_send_one)
  then show ?thesis by (simp add: broadcast_def Some wp_simps)
qed

text \<open>A broadcast never panics.\<close>

lemma broadcast_returns: "\<exists>ok pool' t'. broadcast E addrs v pool t = (Inr (ok, pool'), t')"
  using wp_broadcast [of E addrs v pool t]
  by (auto simp: wp_def split: prod.splits sum.splits)

lemma emits_broadcast:
  "(\<And>a k. P (TcpConnect a k)) \<Longrightarrow> (\<And>a b k. a \<in> set addrs \<Longrightarrow> P (TcpWrite a v b k)) \<Longrightarrow>
   emits P (broadcast E addrs v pool)"
  unfolding emits_def
proof
  fix t assume P: "\<And>a k. P (TcpConnect a k)" "\<And>a b k. a \<in> set addrs \<Longrightarrow> P (TcpWrite a v b k)"
  obtain r t' where m: "broadcast E addrs v pool t = (r, t')" by (cases "broadcast E addrs v pool t")
  have "\<exists>new. t' = new @ t \<and> list_all (broadcast_effect addrs v) new"
    using wp_broadcast [of E addrs v pool t] m by (auto simp: wp_def split: sum.splits)
  moreover have "P e" if "broadcast_effect addrs v e" for e
    using that P by (cases e) (auto simp: broadcast_effect_def)
  ultimately show "\<exists>new. snd (broadcast E addrs v pool t) = new @ t \<and> list_all P new"
    using m by (auto simp: list_all_iff)
qed

text \<open>The peers to which a write of the envelope succeeded between two traces.\<close>

definition delivered :: "envelope \<Rightarrow> trace \<Rightarrow> address set" where
  "delivered v t = {a. \<exists>b. TcpWrite a v b True \<in> set t}"

lemma send_one_delivers:
  assumes "\<And>t a. connect_answer E t a" "\<And>t a b. write_answer E t a b"
  shows "\<exists>new pool'. send_one E v b pool a t = (Inr pool', new @ t) \<and>
    delivered v (new @ t) = insert a (delivered v t) \<and> pool' = insert a pool"
proof (cases "a \<in> pool")
  case True
  then have "send_one E v b pool a t = (Inr (insert a pool), [TcpWrite a v b True] @ t)"
    using assms
    by (auto simp: send_one_def open_stream_def tcp_write_def bind_def ret_def Let_def)
  then show ?thesis by (auto simp: delivered_def)
next
  case False
  then have "send_one E v b pool a t =
      (Inr (insert a pool), [TcpWrite a v b True, TcpConnect a True] @ t)"
    using assms
    by (auto simp: send_one_def open_stream_def tcp_write_def tcp_connect_def bind_def ret_def Let_def)
  then show ?thesis by (auto simp: delivered_def)
qed

lemma io_fold_send_delivers:
  assumes "\<And>t a. connect_answer E t a" "\<And>t a b. write_answer E t a b"
  shows "\<exists>new. io_fold (send_one E v b) pool addrs t = (Inr (set addrs \<union> pool), new @ t) \<and>
    delivered v (new @ t) = set addrs \<union> delivered v t"
proof (induction addrs arbitrary: pool t)
  case Nil
  then show ?case by (simp add: ret_def)
next
  case (Cons a addrs)
  obtain n1 where n1: "send_one E v b pool a t = (Inr (insert a pool), n1 @ t)"
      "delivered v (n1 @ t) = insert a (delivered v t)"
    using send_one_delivers [OF assms] by blast
  obtain n2 where n2: "io_fold (send_one E v b) (insert a pool) addrs (n1 @ t) =
        (Inr (set addrs \<union> insert a pool), n2 @ n1 @ t)"
      "delivered v (n2 @ n1 @ t) = set addrs \<union> delivered v (n1 @ t)"
    using Cons.IH by blast
  have "io_fold (send_one E v b) pool (a # addrs) t =
      (Inr (set (a # addrs) \<union> pool), (n2 @ n1) @ t)"
    using n1 n2 by (simp add: bind_def)
  moreover have "delivered v ((n2 @ n1) @ t) = set (a # addrs) \<union> delivered v t"
    using n1(2) n2(2) by simp
  ultimately show ?case by blast
qed

lemma handle_lines_prefix:
  "handle_lines E sender lines = (evs, ok) \<Longrightarrow>
   \<exists>n \<le> length lines. map (\<lambda>l. Option.bind l (parse_envelope E)) (take n lines) =
       map (\<lambda>e. case e of PeerMessage v _ \<Rightarrow> Some v | _ \<Rightarrow> None) evs \<and>
     (ok \<longleftrightarrow> n = length lines) \<and> (n < length lines \<longrightarrow> Option.bind (lines ! n) (parse_envelope E) = None)"
proof (induction lines arbitrary: evs ok)
  case Nil
  then show ?case by simp
next
  case (Cons line lines)
  show ?case
  proof (cases "Option.bind line (parse_envelope E)")
    case None
    with Cons.prems show ?thesis by (cases line) auto
  next
    case (Some v)
    then obtain l where l: "line = Some l" "parse_envelope E l = Some v" by (cases line) auto
    obtain evs' where hc: "handle_lines E sender lines = (evs', ok)"
      and evs: "evs = PeerMessage v sender # evs'"
      using Cons.prems l by (auto split: prod.splits)
    from Cons.IH [OF hc] obtain n where n: "n \<le> length lines"
      "map (\<lambda>l. Option.bind l (parse_envelope E)) (take n lines) =
         map (\<lambda>e. case e of PeerMessage v _ \<Rightarrow> Some v | _ \<Rightarrow> None) evs'"
      "ok \<longleftrightarrow> n = length lines" "n < length lines \<longrightarrow> Option.bind (lines ! n) (parse_envelope E) = None" by blast
    show ?thesis by (rule exI [of _ "Suc n"]) (use n l evs in auto)
  qed
qed

section \<open>Framing\<close>

text \<open>The bytes a trace has written to an address, in the order they were sent.\<close>

definition written_bytes :: "address \<Rightarrow> effect \<Rightarrow> bytes" where
  "written_bytes a e = (case e of TcpWrite a' _ b ok \<Rightarrow> if a' = a \<and> ok then b else [] | _ \<Rightarrow> [])"

definition written_to :: "address \<Rightarrow> trace \<Rightarrow> bytes" where
  "written_to a t = concat (map (written_bytes a) (rev t))"

lemma written_to_append [simp]: "written_to a (new @ t) = written_to a t @ written_to a new"
  by (simp add: written_to_def)

text \<open>A serialization that a line can carry, as the compact JSON of the crate is documented to be: one
  line of text that parses back.\<close>

definition reads_back :: "env \<Rightarrow> envelope \<Rightarrow> bool" where
  "reads_back E v \<longleftrightarrow> (case serde_to_vec E v of
       None \<Rightarrow> False
     | Some b \<Rightarrow> serde_from_str E (text_of b) = Some v \<and> 10 \<notin> set b \<and> drop_cr b = b \<and> utf8_valid E b)"

lemma lines_from_line: "10 \<notin> set b \<Longrightarrow> lines_from acc (b @ 10 # bs) = (drop_cr (acc @ b) # fst (lines_from [] bs), snd (lines_from [] bs))"
  by (induction b arbitrary: acc) (auto split: prod.splits)

lemma framed_read_back:
  assumes "reads_back E v" and "serde_to_vec E v = Some b"
  shows "handle_connection E sender (b @ [10]) True = ([PeerMessage v sender], True)"
  using assms lines_from_line [of b "[]" "[]"]
  by (simp add: reads_back_def handle_connection_def connection_lines_def parse_envelope_def)

lemma send_one_written:
  assumes "\<And>t a. connect_answer E t a" "\<And>t a b. write_answer E t a b"
  shows "\<exists>new. send_one E v b pool a t = (Inr (insert a pool), new @ t) \<and>
    (\<forall>a'. written_to a' new = (if a' = a then b else []))"
proof (cases "a \<in> pool")
  case True
  then have "send_one E v b pool a t = (Inr (insert a pool), [TcpWrite a v b True] @ t)"
    using assms by (auto simp: send_one_def open_stream_def tcp_write_def bind_def ret_def Let_def)
  then show ?thesis by (intro exI conjI) (auto simp: written_to_def written_bytes_def)
next
  case False
  then have "send_one E v b pool a t = (Inr (insert a pool), [TcpWrite a v b True, TcpConnect a True] @ t)"
    using assms by (auto simp: send_one_def open_stream_def tcp_write_def tcp_connect_def bind_def ret_def Let_def)
  then show ?thesis by (intro exI conjI) (auto simp: written_to_def written_bytes_def)
qed

lemma io_fold_send_written:
  assumes "\<And>t a. connect_answer E t a" "\<And>t a b. write_answer E t a b" and "distinct addrs"
  shows "\<exists>new. io_fold (send_one E v b) pool addrs t = (Inr (set addrs \<union> pool), new @ t) \<and>
    (\<forall>a. written_to a new = (if a \<in> set addrs then b else []))"
  using assms(3)
proof (induction addrs arbitrary: pool t)
  case Nil
  then show ?case by (simp add: ret_def written_to_def)
next
  case (Cons a addrs)
  obtain n1 where n1: "send_one E v b pool a t = (Inr (insert a pool), n1 @ t)"
      "\<forall>a'. written_to a' n1 = (if a' = a then b else [])"
    using send_one_written [OF assms(1,2)] by blast
  obtain n2 where n2: "io_fold (send_one E v b) (insert a pool) addrs (n1 @ t) =
        (Inr (set addrs \<union> insert a pool), n2 @ n1 @ t)"
      "\<forall>a. written_to a n2 = (if a \<in> set addrs then b else [])"
    using Cons.IH Cons.prems by fastforce
  have "io_fold (send_one E v b) pool (a # addrs) t = (Inr (set (a # addrs) \<union> pool), (n2 @ n1) @ t)"
    using n1 n2 by (simp add: bind_def)
  moreover have "\<forall>a'. written_to a' (n2 @ n1) = (if a' \<in> set (a # addrs) then b else [])"
    using n1(2) n2(2) Cons.prems by auto
  ultimately show ?case by blast
qed

end
