(* ===== verification/Session_Utils.thy ===== *)
theory Session_Utils
  imports Networking
begin

text \<open>
  The rest of \<open>src/swap-daemon/src/utils.rs\<close>: who the daemon is, the addresses of the others,
  the predicates that say when a collection round is complete, and the aggregation of the
  adaptor points and secrets. The session methods \<open>new\<close> and \<open>transition_to\<close> are in the
  theories that use them.
\<close>

section \<open>The code\<close>

fun find_me :: "participants \<Rightarrow> (participant_id \<times> participant) option" where
  "find_me [] = None"
| "find_me ((k, p) # rest) = (if is_me p then Some (k, p) else find_me rest)"

definition get_my_id :: "participants \<Rightarrow> participant_id res" where
  "get_my_id ps = expect ''No participant marked as me'' (map_option fst (find_me ps))"

definition get_other_addresses :: "participants \<Rightarrow> address list" where
  "get_other_addresses ps = map tcp_address (filter (\<lambda>p. \<not> is_me p) (bt_values ps))"

definition all_lock_txs_broadcast :: "session \<Rightarrow> bool" where
  "all_lock_txs_broadcast s = list_all (\<lambda>k. k \<in> lock_txs_broadcast s) (bt_keys (participants s))"

definition all_lock_txs_confirmed :: "session \<Rightarrow> bool" where
  "all_lock_txs_confirmed s = list_all (\<lambda>k. k \<in> confirmed_lock_txs s) (bt_keys (participants s))"

definition all_adaptor_points_received :: "session \<Rightarrow> bool" where
  "all_adaptor_points_received s =
     list_all (\<lambda>k. hm_contains (adaptor_points s) k) (bt_keys (participants s))"

definition leader_is_me :: "session \<Rightarrow> bool res" where
  "leader_is_me s = res_bind (get_my_id (participants s)) (\<lambda>me. Inr (leader s = Some me))"

definition all_leader_commitments_received :: "session \<Rightarrow> bool" where
  "all_leader_commitments_received s =
     list_all (\<lambda>k. bt_contains (leader_commitments s) k) (bt_keys (participants s))"

definition all_leader_nonces_received :: "session \<Rightarrow> bool" where
  "all_leader_nonces_received s =
     list_all (\<lambda>k. bt_contains (leader_nonces s) k) (bt_keys (participants s))"

text \<open>The ids of the participants that are not the daemon's own.\<close>

definition other_ids :: "participants \<Rightarrow> participant_id list" where
  "other_ids ps = map fst (filter (\<lambda>(k, p). \<not> is_me p) ps)"

definition all_schnorr_nonces_received_for :: "session \<Rightarrow> tx_role \<Rightarrow> bool" where
  "all_schnorr_nonces_received_for s role =
     list_all (\<lambda>k. case hm_get (schnorr_nonces s) k of
                 None \<Rightarrow> False | Some nonces \<Rightarrow> hm_contains nonces role)
       (other_ids (participants s))"

definition all_partial_sigs_received_for :: "session \<Rightarrow> tx_role \<Rightarrow> bool" where
  "all_partial_sigs_received_for s role =
     list_all (\<lambda>k. case hm_get (partial_sigs s) k of
                 None \<Rightarrow> False | Some sigs \<Rightarrow> hm_contains sigs role)
       (other_ids (participants s))"

definition all_partial_sigs_received_for_all_refund_and_spend_txs :: "session \<Rightarrow> bool" where
  "all_partial_sigs_received_for_all_refund_and_spend_txs s =
     (list_all (\<lambda>k. list_all (\<lambda>sender. case hm_get (partial_sigs s) sender of
                        None \<Rightarrow> False | Some sigs \<Rightarrow> hm_contains sigs (Refund k))
                  (other_ids (participants s)))
        (bt_keys (participants s)) \<and>
      list_all (\<lambda>k. hm_contains (adaptor_sigs s) (Spend k)) (bt_keys (participants s)))"

definition all_adaptor_secrets_received :: "session \<Rightarrow> bool" where
  "all_adaptor_secrets_received s =
     list_all (\<lambda>k. hm_contains (adaptor_secrets s) k) (bt_keys (participants s))"

text \<open>Strings that do not parse are skipped; no parsable one at all, or a sum at infinity or zero,
  panics.\<close>

definition aggregate_adaptor_point :: "env \<Rightarrow> (participant_id, string) hmap \<Rightarrow> pubkey res" where
  "aggregate_adaptor_point E points =
     (case List.map_filter (pk_parse (musig E)) (hm_values E points) of
        [] \<Rightarrow> Inl UnwrapNone
      | first # rest \<Rightarrow> res_fold (\<lambda>acc pk. unwrap (pk_combine (musig E) acc pk)) first rest)"

definition aggregate_adaptor_secret :: "env \<Rightarrow> session \<Rightarrow> scalar res" where
  "aggregate_adaptor_secret E s =
     (case List.map_filter (scalar_from_slice (musig E))
             (List.map_filter (hex_decode E) (hm_values E (adaptor_secrets s))) of
        [] \<Rightarrow> Inl UnwrapNone
      | first # rest \<Rightarrow> res_fold (\<lambda>acc x. unwrap (scalar_add (musig E) acc x)) first rest)"

section \<open>Announcing to the peers\<close>

text \<open>The pattern every announcement of the protocol follows: the addresses of the others, an
  envelope from the daemon's own id, a broadcast over the session's pool whose error is only
  logged.\<close>

definition announce :: "env \<Rightarrow> session \<Rightarrow> participant_id \<Rightarrow> wire_message \<Rightarrow> session act" where
  "announce E s me m =
     bind (broadcast E (get_other_addresses (participants s)) (envelope_new (sess_id s) me m)
             (connection_pool s))
       (\<lambda>(ok, pool). ret (s\<lparr>connection_pool := pool\<rparr>))"

text \<open>\<open>SwapSession::transition_to\<close>.\<close>

definition transition_to :: "swap_state \<Rightarrow> session \<Rightarrow> session" where
  "transition_to st s = s\<lparr>state_history := state_history s @ [st], state := st\<rparr>"

lemma transition_to_simps [simp]:
  "state (transition_to st s) = st"
  "state_history (transition_to st s) = state_history s @ [st]"
  "participants (transition_to st s) = participants s"
  "sess_id (transition_to st s) = sess_id s"
  "leader (transition_to st s) = leader s"
  "musig_sessions (transition_to st s) = musig_sessions s"
  "schnorr_nonces (transition_to st s) = schnorr_nonces s"
  "partial_sigs (transition_to st s) = partial_sigs s"
  "lock_txs (transition_to st s) = lock_txs s"
  "unsigned_txs (transition_to st s) = unsigned_txs s"
  "signed_txs (transition_to st s) = signed_txs s"
  "adaptor_sigs (transition_to st s) = adaptor_sigs s"
  "lock_txs_broadcast (transition_to st s) = lock_txs_broadcast s"
  "confirmed_lock_txs (transition_to st s) = confirmed_lock_txs s"
  "adaptor_secrets (transition_to st s) = adaptor_secrets s"
  "adaptor_points (transition_to st s) = adaptor_points s"
  "leader_nonces (transition_to st s) = leader_nonces s"
  "leader_commitments (transition_to st s) = leader_commitments s"
  "connection_pool (transition_to st s) = connection_pool s"
  "cardano_collaterals (transition_to st s) = cardano_collaterals s"
  "start_block (transition_to st s) = start_block s"
  "start_slot (transition_to st s) = start_slot s"
  "refund_window_secs (transition_to st s) = refund_window_secs s"
  "bitcoin_fee (transition_to st s) = bitcoin_fee s"
  "cardano_fee (transition_to st s) = cardano_fee s"
  by (simp_all add: transition_to_def)

section \<open>The daemon's own participant\<close>

definition one_me :: "participants \<Rightarrow> participant_id \<Rightarrow> bool" where
  "one_me ps me \<longleftrightarrow> (\<forall>k p. (k, p) \<in> set ps \<longrightarrow> (is_me p \<longleftrightarrow> k = me)) \<and> me \<in> set (bt_keys ps)"

lemma find_me_Some: "find_me ps = Some (k, p) \<Longrightarrow> (k, p) \<in> set ps \<and> is_me p"
  by (induction ps rule: find_me.induct) (auto split: if_splits)

lemma find_me_None: "find_me ps = None \<longleftrightarrow> (\<forall>k p. (k, p) \<in> set ps \<longrightarrow> \<not> is_me p)"
  by (induction ps rule: find_me.induct) auto

lemma get_my_id_one_me: "one_me ps me \<Longrightarrow> get_my_id ps = Inr me"
proof -
  assume me: "one_me ps me"
  then obtain p where p: "(me, p) \<in> set ps" by (auto simp: one_me_def bt_keys_def)
  then have "is_me p" using me by (simp add: one_me_def)
  then obtain k q where f: "find_me ps = Some (k, q)"
    using p find_me_None [of ps] by (cases "find_me ps") auto
  have "k = me" using find_me_Some [OF f] me unfolding one_me_def by blast
  then show ?thesis by (simp add: get_my_id_def f)
qed

lemma get_my_id_member: "get_my_id ps = Inr me \<Longrightarrow> me \<in> set (bt_keys ps)"
  by (cases "find_me ps") (force simp: get_my_id_def bt_keys_def dest: find_me_Some)+

lemma other_ids_one_me: "one_me ps me \<Longrightarrow> set (other_ids ps) = set (bt_keys ps) - {me}"
  by (force simp: one_me_def other_ids_def bt_keys_def)

section \<open>Collection rounds\<close>

text \<open>A round is complete when every participant it waits for has an entry; the interface of the
  dictionaries gives how a round progresses.\<close>

lemma all_leader_commitments_iff:
  "all_leader_commitments_received s \<longleftrightarrow>
   (\<forall>k \<in> set (bt_keys (participants s)). bt_get (leader_commitments s) k \<noteq> None)"
  by (simp add: all_leader_commitments_received_def list_all_iff bt_contains_def)

lemma all_leader_nonces_iff:
  "all_leader_nonces_received s \<longleftrightarrow>
   (\<forall>k \<in> set (bt_keys (participants s)). bt_get (leader_nonces s) k \<noteq> None)"
  by (simp add: all_leader_nonces_received_def list_all_iff bt_contains_def)

lemma all_adaptor_points_iff:
  "all_adaptor_points_received s \<longleftrightarrow>
   (\<forall>k \<in> set (bt_keys (participants s)). hm_get (adaptor_points s) k \<noteq> None)"
  by (simp add: all_adaptor_points_received_def list_all_iff hm_contains_def)

lemma all_adaptor_secrets_iff:
  "all_adaptor_secrets_received s \<longleftrightarrow>
   (\<forall>k \<in> set (bt_keys (participants s)). hm_get (adaptor_secrets s) k \<noteq> None)"
  by (simp add: all_adaptor_secrets_received_def list_all_iff hm_contains_def)

lemma all_schnorr_nonces_iff:
  "all_schnorr_nonces_received_for s r \<longleftrightarrow>
   (\<forall>k \<in> set (other_ids (participants s)). hm_get2 (schnorr_nonces s) k r \<noteq> None)"
  by (simp add: all_schnorr_nonces_received_for_def list_all_iff hm_get2_def hm_contains_def
      split: option.splits)

lemma all_partial_sigs_iff:
  "all_partial_sigs_received_for s r \<longleftrightarrow>
   (\<forall>k \<in> set (other_ids (participants s)). hm_get2 (partial_sigs s) k r \<noteq> None)"
  by (simp add: all_partial_sigs_received_for_def list_all_iff hm_get2_def hm_contains_def
      split: option.splits)

lemma all_refund_and_spend_iff:
  "all_partial_sigs_received_for_all_refund_and_spend_txs s \<longleftrightarrow>
   (\<forall>k \<in> set (bt_keys (participants s)).
      all_partial_sigs_received_for s (Refund k) \<and> hm_get (adaptor_sigs s) (Spend k) \<noteq> None)"
  by (auto simp: all_partial_sigs_received_for_all_refund_and_spend_txs_def
      all_partial_sigs_received_for_def list_all_iff hm_contains_def)

lemma all_lock_txs_confirmed_iff:
  "all_lock_txs_confirmed s \<longleftrightarrow> set (bt_keys (participants s)) \<subseteq> confirmed_lock_txs s"
  by (auto simp: all_lock_txs_confirmed_def list_all_iff)

lemmas round_iffs = all_leader_commitments_iff all_leader_nonces_iff all_adaptor_points_iff
  all_adaptor_secrets_iff all_schnorr_nonces_iff all_partial_sigs_iff all_refund_and_spend_iff
  all_lock_txs_confirmed_iff

section \<open>Announcements\<close>

lemma wp_announce:
  "wp (announce E s me m) (\<lambda>_ _. False)
    (\<lambda>s' t'. (\<exists>pool. s' = s\<lparr>connection_pool := pool\<rparr>) \<and>
       (\<exists>new. t' = new @ t \<and> list_all (broadcast_effect (get_other_addresses (participants s))
                (envelope_new (sess_id s) me m)) new)) t"
  unfolding announce_def wp_bind
  by (rule wp_mono [OF wp_broadcast]) (auto simp: wp_simps)

lemma announce_returns: "\<exists>pool t'. announce E s me m t = (Inr (s\<lparr>connection_pool := pool\<rparr>), t')"
  using wp_announce [of E s me m t] by (auto simp: wp_def split: prod.splits sum.splits)

lemma emits_announce:
  "(\<And>a k. P (TcpConnect a k)) \<Longrightarrow>
   (\<And>a b k. a \<in> set (get_other_addresses (participants s)) \<Longrightarrow>
      P (TcpWrite a (envelope_new (sess_id s) me m) b k)) \<Longrightarrow>
   emits P (announce E s me m)"
  unfolding announce_def by (intro emits_rules emits_broadcast) auto

section \<open>Operations on a session\<close>

text \<open>What every operation of the protocol keeps: the identity of the session, its participants
  and the parameters its locktimes come from; it only appends to the history of states, whose last
  entry stays the state; a leader it sets is a participant; it keeps the ordered maps ordered and
  the entries of adaptor points and secrets present; and it does not touch the set of confirmed
  locks, which only the answers of the chains extend.\<close>

definition setup_of ::
  "session \<Rightarrow> session_id \<times> participants \<times> u32 \<times> u64 \<times> u64 \<times> u64 \<times> u64 \<times>
     (participant_id, cardano_collateral) hmap" where
  "setup_of s = (sess_id s, participants s, start_block s, start_slot s, bitcoin_fee s, cardano_fee s,
     refund_window_secs s, cardano_collaterals s)"

definition history_step :: "session \<Rightarrow> session \<Rightarrow> bool" where
  "history_step s s' \<longleftrightarrow> (\<exists>h. state_history s' = state_history s @ h \<and> state s' = last (state s # h))"

definition leader_step :: "session \<Rightarrow> session \<Rightarrow> bool" where
  "leader_step s s' \<longleftrightarrow>
     leader s' = leader s \<or> (\<exists>l \<in> set (bt_keys (participants s)). leader s' = Some l)"

definition stores_step :: "session \<Rightarrow> session \<Rightarrow> bool" where
  "stores_step s s' \<longleftrightarrow>
     (bt_ok (leader_commitments s) \<longrightarrow> bt_ok (leader_commitments s')) \<and>
     (bt_ok (leader_nonces s) \<longrightarrow> bt_ok (leader_nonces s')) \<and>
     (\<forall>k. hm_contains (adaptor_points s) k \<longrightarrow> hm_contains (adaptor_points s') k) \<and>
     (\<forall>k. hm_contains (adaptor_secrets s) k \<longrightarrow> hm_contains (adaptor_secrets s') k)"

definition evolves :: "session \<Rightarrow> session \<Rightarrow> bool" where
  "evolves s s' \<longleftrightarrow> setup_of s' = setup_of s \<and> history_step s s' \<and> leader_step s s' \<and>
     stores_step s s' \<and> confirmed_lock_txs s' = confirmed_lock_txs s"

lemma history_step_refl: "state_history s' = state_history s \<Longrightarrow> state s' = state s \<Longrightarrow> history_step s s'"
  by (simp add: history_step_def)

lemma history_step_trans: "history_step s s' \<Longrightarrow> history_step s' s'' \<Longrightarrow> history_step s s''"
  unfolding history_step_def
proof (elim exE conjE)
  fix h h'
  assume h: "state_history s' = state_history s @ h" "state s' = last (state s # h)"
    "state_history s'' = state_history s' @ h'" "state s'' = last (state s' # h')"
  show "\<exists>h. state_history s'' = state_history s @ h \<and> state s'' = last (state s # h)"
    by (rule exI [of _ "h @ h'"]) (use h in simp)
qed

lemma evolves_refl [simp, intro]: "evolves s s"
  by (simp add: evolves_def history_step_refl leader_step_def stores_step_def)

lemma evolves_same: "setup_of s' = setup_of s \<Longrightarrow> state_history s' = state_history s \<Longrightarrow> state s' = state s \<Longrightarrow>
    leader s' = leader s \<Longrightarrow> stores_step s s' \<Longrightarrow> confirmed_lock_txs s' = confirmed_lock_txs s \<Longrightarrow>
    evolves s s'"
  by (simp add: evolves_def history_step_refl leader_step_def)

lemma evolves_trans: "evolves s s' \<Longrightarrow> evolves s' s'' \<Longrightarrow> evolves s s''"
proof -
  assume "evolves s s'" "evolves s' s''"
  moreover from this have "stores_step s s''"
    by (simp add: evolves_def stores_step_def)
  ultimately show ?thesis
    by (auto simp: evolves_def setup_of_def leader_step_def intro: history_step_trans)
qed

lemma evolves_transition: "evolves s (transition_to st s)"
proof -
  have "history_step s (transition_to st s)"
    unfolding history_step_def by (rule exI [of _ "[st]"]) simp
  then show ?thesis by (simp add: evolves_def setup_of_def leader_step_def stores_step_def)
qed

lemma evolves_D:
  "evolves s s' \<Longrightarrow> participants s' = participants s"
  "evolves s s' \<Longrightarrow> sess_id s' = sess_id s"
  "evolves s s' \<Longrightarrow> start_block s' = start_block s"
  "evolves s s' \<Longrightarrow> start_slot s' = start_slot s"
  "evolves s s' \<Longrightarrow> refund_window_secs s' = refund_window_secs s"
  "evolves s s' \<Longrightarrow> history_step s s'"
  "evolves s s' \<Longrightarrow> leader_step s s'"
  "evolves s s' \<Longrightarrow> stores_step s s'"
  "evolves s s' \<Longrightarrow> confirmed_lock_txs s' = confirmed_lock_txs s"
  by (simp_all add: evolves_def setup_of_def)

text \<open>A computation whose result carries a session that has evolved from the given one.\<close>

definition evolving :: "('a \<Rightarrow> session) \<Rightarrow> session \<Rightarrow> 'a act \<Rightarrow> bool" where
  "evolving pr s0 m \<longleftrightarrow> (\<forall>t. wp m (\<lambda>_ _. True) (\<lambda>x _. evolves s0 (pr x)) t)"

lemma evolving_ret: "evolves s0 (pr x) \<Longrightarrow> evolving pr s0 (ret x)"
  by (simp add: evolving_def wp_simps)

lemma evolving_lift: "(\<And>x. r = Inr x \<Longrightarrow> evolves s0 (pr x)) \<Longrightarrow> evolving pr s0 (lift r)"
  by (simp add: evolving_def wp_simps split: sum.splits)

lemma evolving_bind:
  "evolving pr s0 m \<Longrightarrow> (\<And>x. evolves s0 (pr x) \<Longrightarrow> evolving pr' s0 (f x)) \<Longrightarrow>
   evolving pr' s0 (bind m f)"
  unfolding evolving_def wp_bind by (blast intro: wp_mono)

lemma evolving_bind_any: "(\<And>x. evolving pr s0 (f x)) \<Longrightarrow> evolving pr s0 (bind m f)"
  unfolding evolving_def wp_bind by (blast intro: wp_mono wp_True)

lemma evolving_bind_lift:
  "(\<And>x. r = Inr x \<Longrightarrow> evolving pr s0 (f x)) \<Longrightarrow> evolving pr s0 (bind (lift r) f)"
  unfolding evolving_def by (cases r) (simp_all add: wp_simps)

lemma evolving_weaken: "evolves s0 s \<Longrightarrow> evolving pr s m \<Longrightarrow> evolving pr s0 m"
  unfolding evolving_def by (blast intro: wp_mono evolves_trans)

lemma evolving_announce: "evolves s0 s \<Longrightarrow> evolving (\<lambda>x. x) s0 (announce E s me m)"
  unfolding evolving_def
proof (rule allI, rule wp_mono [OF wp_announce])
  fix s' t t' assume "evolves s0 s" and "(\<exists>pool. s' = s\<lparr>connection_pool := pool\<rparr>) \<and>
       (\<exists>new. t' = new @ t \<and> list_all (broadcast_effect (get_other_addresses (participants s))
                (envelope_new (sess_id s) me m)) new)"
  then obtain pool where s': "s' = s\<lparr>connection_pool := pool\<rparr>" and s: "evolves s0 s" by blast
  have "evolves s s'" unfolding s' by (rule evolves_same) (simp_all add: setup_of_def stores_step_def)
  with s show "evolves s0 s'" by (rule evolves_trans)
qed simp_all

lemma evolving_fold:
  assumes "\<And>a x. evolves s0 a \<Longrightarrow> evolving (\<lambda>x. x) s0 (f a x)" and "evolves s0 a"
  shows "evolving (\<lambda>x. x) s0 (io_fold f a xs)"
  using assms by (auto simp: evolving_def intro: wp_io_fold)

text \<open>The messages that reveal an adaptor secret.\<close>

definition reveals :: "effect \<Rightarrow> bool" where
  "reveals e = (case e of
       TcpWrite _ v _ _ \<Rightarrow> (case env_msg v of SecretReveal _ \<Rightarrow> True | _ \<Rightarrow> False)
     | _ \<Rightarrow> False)"

lemma reveals_simps [simp]:
  "reveals (TcpWrite a (envelope_new s p m) b k) = (case m of SecretReveal _ \<Rightarrow> True | _ \<Rightarrow> False)"
  "\<not> reveals (Http rq r)" "\<not> reveals (GrpcSubmit u x k)" "\<not> reveals (RandomBytes x)"
  "\<not> reveals (TcpConnect a k)" "\<not> reveals (PollerSpawned i p')" "\<not> reveals (PollerAborted i p')"
  by (simp_all add: reveals_def)

text \<open>The interface of an operation: from any session it either panics or returns a session that
  has evolved, the trace only grows, and none of the new effects reveals a secret.\<close>

locale session_op =
  fixes f :: "session \<Rightarrow> session act"
  assumes evolving_op: "evolving (\<lambda>x. x) s (f s)"
    and op_discreet: "emits (\<lambda>e. \<not> reveals e) (f s)"
begin

lemma op_grows: "emits (\<lambda>_. True) (f s)"
  by (rule emits_mono [OF op_discreet]) simp

lemma op_evolves: "wp (f s) (\<lambda>_ _. True) (\<lambda>s' _. evolves s s') t"
  using evolving_op by (simp add: evolving_def)

lemma evolving_from: "evolves s0 s \<Longrightarrow> evolving (\<lambda>x. x) s0 (f s)"
  using evolving_weaken [OF _ evolving_op] .

lemma evolved: "f s t = (Inr s', t') \<Longrightarrow> evolves s s'"
  using op_evolves [of s t] by (simp add: wp_def)

lemma keeps_participants: "f s t = (Inr s', t') \<Longrightarrow> participants s' = participants s"
  by (rule evolves_D) (rule evolved)

lemma keeps_parameters: "f s t = (Inr s', t') \<Longrightarrow>
    sess_id s' = sess_id s \<and> start_block s' = start_block s \<and> start_slot s' = start_slot s \<and>
    refund_window_secs s' = refund_window_secs s"
  using evolved [of s t s' t'] by (simp add: evolves_D)

lemma history_extends: "f s t = (Inr s', t') \<Longrightarrow> \<exists>h. state_history s' = state_history s @ h"
  using evolved [of s t s' t'] by (auto simp: evolves_def history_step_def)

lemma trace_extends: "f s t = (r, t') \<Longrightarrow> \<exists>new. t' = new @ t"
  using emits_trace [OF op_grows] by blast

text \<open>The state and the end of the history agree in every session, and no operation breaks
  that.\<close>

lemma keeps_history_last:
  "f s t = (Inr s', t') \<Longrightarrow> state_history s \<noteq> [] \<and> last (state_history s) = state s \<Longrightarrow>
   state_history s' \<noteq> [] \<and> last (state_history s') = state s'"
  using evolves_D(6) [OF evolved, of s t s' t'] by (auto simp: history_step_def)

end

text \<open>Operations compose.\<close>

lemma session_op_bind:
  assumes "session_op f" "session_op g"
  shows "session_op (\<lambda>s. bind (f s) g)"
  by (rule session_op.intro)
    (auto intro!: evolving_bind [OF session_op.evolving_op [OF assms(1)]]
      session_op.evolving_from [OF assms(2)] session_op.op_discreet [OF assms(1)]
      session_op.op_discreet [OF assms(2)])

end
