(* ===== verification/Cycle.thy ===== *)
theory Cycle
  imports Effects
begin

text \<open>
  The swap cycle of \<open>src/swap-daemon/src/utils.rs\<close>: \<open>check_cyclic\<close> (whether the targets
  form one cycle through all participants), \<open>distance_from_leader\<close> and the refund locktimes
  derived from it. The abstract specification is an orbit: following the targets from any
  participant reaches every participant.
\<close>

section \<open>The code\<close>

definition target_of :: "participants \<Rightarrow> participant_id \<Rightarrow> participant_id res" where
  "target_of ps k = res_bind (index_map (bt_get ps k)) (\<lambda>p. Inr (target_participant p))"

fun targets_ok :: "participants \<Rightarrow> participant list \<Rightarrow> bool" where
  "targets_ok ps [] = True"
| "targets_ok ps (p # rest) =
     (if \<not> bt_contains ps (target_participant p) then False
      else if target_participant p = p_id p then False
      else targets_ok ps rest)"

text \<open>The loop counter cannot overflow: the loop stops once it passes the number of
  participants, at most 256.\<close>

function cycle_loop ::
  "participants \<Rightarrow> participant_id \<Rightarrow> participant_id \<Rightarrow> nat \<Rightarrow> bool res" where
  "cycle_loop ps start current visited =
     (case target_of ps current of
        Inl e \<Rightarrow> Inl e
      | Inr nextp \<Rightarrow>
          (if nextp = start then Inr (Suc visited = length ps)
           else if length ps < Suc visited then Inr False
           else cycle_loop ps start nextp (Suc visited)))"
  by pat_completeness auto
termination
  by (relation "measure (\<lambda>(ps, start, current, visited). Suc (length ps) - visited)") auto

declare cycle_loop.simps [simp del]

definition check_cyclic :: "participants \<Rightarrow> bool res" where
  "check_cyclic ps =
     (case bt_keys ps of
        [] \<Rightarrow> Inr False
      | start # _ \<Rightarrow>
          (if \<not> targets_ok ps (bt_values ps) then Inr False
           else cycle_loop ps start start 0))"

function distance_loop ::
  "participants \<Rightarrow> participant_id \<Rightarrow> participant_id \<Rightarrow> nat \<Rightarrow> nat res" where
  "distance_loop ps dest current distance =
     (case target_of ps current of
        Inl e \<Rightarrow> Inl e
      | Inr nextp \<Rightarrow>
          (if nextp = dest then Inr (Suc distance)
           else if length ps < Suc distance
             then Inl (PanicMsg ''cycle broken - could not reach participant from leader'')
           else distance_loop ps dest nextp (Suc distance)))"
  by pat_completeness auto
termination
  by (relation "measure (\<lambda>(ps, dest, current, distance). Suc (length ps) - distance)") auto

declare distance_loop.simps [simp del]

definition distance_from_leader ::
  "participants \<Rightarrow> participant_id \<Rightarrow> participant_id \<Rightarrow> u32 res" where
  "distance_from_leader ps dest leader_id =
     res_bind (distance_loop ps dest leader_id 0) (\<lambda>d. Inr (of_nat d))"

definition refund_locktime_btc :: "bool \<Rightarrow> session \<Rightarrow> participant_id \<Rightarrow> u32 res" where
  "refund_locktime_btc ov s pid =
     res_bind (expect ''leader not yet elected'' (leader s)) (\<lambda>leader_id.
     res_bind (distance_from_leader (participants s) pid leader_id) (\<lambda>distance.
     res_bind (add_chk ov (refund_window_secs s) 599) (\<lambda>padded.
     let blocks_per_window = ucast (padded div 600) :: u32 in
     res_bind (mul_chk ov distance blocks_per_window) (\<lambda>offset.
     add_chk ov (start_block s) offset))))"

definition refund_locktime_cardano :: "bool \<Rightarrow> session \<Rightarrow> participant_id \<Rightarrow> u64 res" where
  "refund_locktime_cardano ov s pid =
     res_bind (expect ''leader not yet elected'' (leader s)) (\<lambda>leader_id.
     res_bind (distance_from_leader (participants s) pid leader_id) (\<lambda>distance.
     res_bind (mul_chk ov (ucast distance :: u64) (refund_window_secs s)) (\<lambda>offset.
     add_chk ov (start_slot s) offset)))"

definition refund_deadline_posix_ms ::
  "bool \<Rightarrow> session \<Rightarrow> participant_id \<Rightarrow> cardano_network \<Rightarrow> u64 res" where
  "refund_deadline_posix_ms ov s pid net =
     (let start = system_start_secs net in
      if \<not> 0 < start then Inl (AssertFailed ''network system start is 0'')
      else res_bind (refund_locktime_cardano ov s pid) (\<lambda>refund_slot.
           res_bind (add_chk ov start refund_slot) (\<lambda>secs.
           mul_chk ov secs 1000)))"

section \<open>Orbits of a function\<close>

text \<open>The members of a cycle, seen as iterates of the successor function.\<close>

lemma orbit_shift:
  assumes "(f ^^ n) s = s" and "i \<le> n"
  shows "(f ^^ (n - i)) ((f ^^ i) s) = s"
proof -
  have "(f ^^ (n - i)) ((f ^^ i) s) = (f ^^ (n - i + i)) s" by (simp add: funpow_add)
  with assms show ?thesis by simp
qed

lemma orbit_inj:
  assumes ret: "(f ^^ n) s = s" and first: "\<And>i. 0 < i \<Longrightarrow> i < n \<Longrightarrow> (f ^^ i) s \<noteq> s"
  shows "inj_on (\<lambda>i. (f ^^ i) s) {..<n}"
proof (rule linorder_inj_onI')
  fix i j assume ij: "i \<in> {..<n}" "j \<in> {..<n}" "i < j"
  show "(f ^^ i) s \<noteq> (f ^^ j) s"
  proof
    assume eq: "(f ^^ i) s = (f ^^ j) s"
    have "(f ^^ (n - j + i)) s = (f ^^ (n - j)) ((f ^^ j) s)" by (simp add: funpow_add eq)
    also have "\<dots> = s" by (rule orbit_shift [OF ret]) (use ij in simp)
    finally have "(f ^^ (n - j + i)) s = s" .
    moreover have "0 < n - j + i" "n - j + i < n" using ij by simp_all
    ultimately show False using first [of "n - j + i"] by simp
  qed
qed

text \<open>A first return after as many steps as there are members visits them all.\<close>

lemma orbit_covers:
  assumes "finite K" "s \<in> K" "f ` K \<subseteq> K" and ret: "(f ^^ card K) s = s"
    and first: "\<And>i. 0 < i \<Longrightarrow> i < card K \<Longrightarrow> (f ^^ i) s \<noteq> s"
  shows "(\<lambda>i. (f ^^ i) s) ` {..<card K} = K"
proof (rule card_subset_eq)
  have in_K: "(f ^^ i) s \<in> K" for i
    using assms(2,3) by (induction i) auto
  then show "(\<lambda>i. (f ^^ i) s) ` {..<card K} \<subseteq> K" by auto
  show "card ((\<lambda>i. (f ^^ i) s) ` {..<card K}) = card K"
    using card_image [OF orbit_inj [OF ret first]] by simp
qed (rule assms(1))

text \<open>Conversely, when every member is reached from every other, the first return to any
  member takes exactly as many steps as there are members.\<close>

lemma orbit_mod:
  assumes ret: "(f ^^ n) s = s" shows "(f ^^ i) s = (f ^^ (i mod n)) s"
proof -
  have "(f ^^ (n * q)) s = s" for q
    by (induction q) (simp_all add: funpow_add ret)
  then show ?thesis
    using funpow_add [of "i mod n" "n * (i div n)" f] by (metis comp_apply mod_mult_div_eq)
qed

lemma transitive_return:
  assumes fin: "finite K" and s: "s \<in> K" and cl: "f ` K \<subseteq> K"
    and reach: "\<And>b. b \<in> K \<Longrightarrow> \<exists>i. (f ^^ i) s = b" and again: "\<exists>i>0. (f ^^ i) s = s"
  shows "(f ^^ card K) s = s" and "\<And>i. 0 < i \<Longrightarrow> i < card K \<Longrightarrow> (f ^^ i) s \<noteq> s"
proof -
  define n where "n = (LEAST i. 0 < i \<and> (f ^^ i) s = s)"
  have n: "0 < n" "(f ^^ n) s = s"
    using LeastI_ex [of "\<lambda>i. 0 < i \<and> (f ^^ i) s = s"] again by (auto simp: n_def)
  have first: "(f ^^ i) s \<noteq> s" if "0 < i" "i < n" for i
    using not_less_Least [of i "\<lambda>i. 0 < i \<and> (f ^^ i) s = s"] that by (auto simp: n_def)
  have "(\<lambda>i. (f ^^ i) s) ` {..<n} = K"
  proof
    have "(f ^^ i) s \<in> K" for i
      using s cl by (induction i) auto
    then show "(\<lambda>i. (f ^^ i) s) ` {..<n} \<subseteq> K" by auto
    show "K \<subseteq> (\<lambda>i. (f ^^ i) s) ` {..<n}"
    proof
      fix b assume "b \<in> K"
      then obtain i where "(f ^^ i) s = b" using reach by blast
      then have "b = (f ^^ (i mod n)) s" using orbit_mod [OF n(2)] by simp
      then show "b \<in> (\<lambda>i. (f ^^ i) s) ` {..<n}" using n(1) by auto
    qed
  qed
  then have "card K = n"
    using card_image [OF orbit_inj [OF n(2) first]] by simp
  with n first show "(f ^^ card K) s = s" and "\<And>i. 0 < i \<Longrightarrow> i < card K \<Longrightarrow> (f ^^ i) s \<noteq> s"
    by simp_all
qed

section \<open>The abstract cycle\<close>

definition next_of :: "participants \<Rightarrow> participant_id \<Rightarrow> participant_id" where
  "next_of ps k = (case bt_get ps k of None \<Rightarrow> k | Some p \<Rightarrow> target_participant p)"

abbreviation members :: "participants \<Rightarrow> participant_id set" where
  "members ps \<equiv> set (bt_keys ps)"

definition targets_closed :: "participants \<Rightarrow> bool" where
  "targets_closed ps \<longleftrightarrow> next_of ps ` members ps \<subseteq> members ps"

definition single_cycle :: "participants \<Rightarrow> bool" where
  "single_cycle ps \<longleftrightarrow> ps \<noteq> [] \<and> targets_closed ps \<and>
     (\<forall>a \<in> members ps. \<forall>b \<in> members ps. \<exists>i. (next_of ps ^^ i) a = b)"

definition no_self_target :: "participants \<Rightarrow> bool" where
  "no_self_target ps \<longleftrightarrow> (\<forall>p \<in> set (bt_values ps). target_participant p \<noteq> p_id p)"

text \<open>First return to \<open>s\<close> after exactly as many steps as there are participants.\<close>

definition full_circle :: "participants \<Rightarrow> participant_id \<Rightarrow> bool" where
  "full_circle ps s \<longleftrightarrow> (next_of ps ^^ length ps) s = s \<and>
     (\<forall>i. 0 < i \<and> i < length ps \<longrightarrow> (next_of ps ^^ i) s \<noteq> s)"

lemma card_members: "bt_ok ps \<Longrightarrow> card (members ps) = length ps"
  using distinct_card [OF bt_ok_distinct] by fastforce

lemma length_participants: "bt_ok (ps :: participants) \<Longrightarrow> length ps \<le> 256"
proof -
  assume "bt_ok ps"
  then have "length ps = card (members ps)" by (simp add: card_members)
  also have "\<dots> \<le> card (UNIV :: u8 set)" by (rule card_mono) simp_all
  finally show ?thesis by (simp add: card_word)
qed

lemma target_of_member: "k \<in> members ps \<Longrightarrow> target_of ps k = Inr (next_of ps k)"
  using bt_keys_get [of k ps] by (auto simp: target_of_def next_of_def)

lemma iterate_member:
  "targets_closed ps \<Longrightarrow> k \<in> members ps \<Longrightarrow> (next_of ps ^^ i) k \<in> members ps"
  by (induction i) (auto simp: targets_closed_def)

lemma targets_ok_iff:
  "targets_ok ps vs \<longleftrightarrow>
   (\<forall>p \<in> set vs. target_participant p \<in> members ps \<and> target_participant p \<noteq> p_id p)"
  by (induction vs) (auto simp: bt_contains_iff)

lemma targets_closed_values:
  assumes "bt_ok ps"
  shows "targets_closed ps \<longleftrightarrow> (\<forall>p \<in> set (bt_values ps). target_participant p \<in> members ps)"
proof -
  have "next_of ps k = target_participant v" if "(k, v) \<in> set ps" for k v
    using bt_ok_entry [OF assms that] by (simp add: next_of_def)
  then have "next_of ps ` members ps = target_participant ` set (bt_values ps)"
    by (force simp: bt_keys_def bt_values_def image_image intro!: image_cong)
  then show ?thesis by (auto simp: targets_closed_def)
qed

section \<open>check_cyclic decides the abstract cycle\<close>

lemma cycle_loop_full_circle:
  assumes "targets_closed ps" "start \<in> members ps" "ps \<noteq> []" "current = (next_of ps ^^ v) start"
    and "v \<le> length ps" and "\<And>i. 0 < i \<Longrightarrow> i \<le> v \<Longrightarrow> (next_of ps ^^ i) start \<noteq> start"
  shows "cycle_loop ps start current v = Inr (full_circle ps start)"
  using assms
proof (induction ps start current v rule: cycle_loop.induct)
  case (1 ps start current v)
  let ?f = "next_of ps"
  have step: "target_of ps current = Inr ((?f ^^ Suc v) start)"
    using 1 iterate_member [of ps start v] by (simp add: target_of_member)
  have n: "0 < length ps" using 1 by simp
  consider "(?f ^^ Suc v) start = start"
    | "(?f ^^ Suc v) start \<noteq> start" "v = length ps"
    | "(?f ^^ Suc v) start \<noteq> start" "v < length ps" using 1 by linarith
  then show ?case
  proof cases
    case 1
    have "Suc v = length ps" if fc: "full_circle ps start"
    proof (rule ccontr)
      assume ne: "Suc v \<noteq> length ps"
      show False
      proof (cases "v = length ps")
        case True
        with fc n "1.prems"(6) [of v] show False by (simp add: full_circle_def)
      next
        case False
        with ne "1.prems"(5) have "Suc v < length ps" by simp
        with fc 1 show False unfolding full_circle_def by blast
      qed
    qed
    moreover have "full_circle ps start" if len: "Suc v = length ps"
    proof -
      have "(?f ^^ length ps) start = start" using 1 len by metis
      moreover have "(?f ^^ i) start \<noteq> start" if "0 < i" "i < length ps" for i
        using "1.prems"(6) [of i] that len by simp
      ultimately show ?thesis unfolding full_circle_def by blast
    qed
    ultimately have "full_circle ps start \<longleftrightarrow> Suc v = length ps" by blast
    with 1 step show ?thesis by (simp add: cycle_loop.simps [of ps start current v])
  next
    case 2
    then have "\<not> full_circle ps start" using "1.prems"(6) [of v] n by (simp add: full_circle_def)
    with 2 step show ?thesis by (subst cycle_loop.simps) simp
  next
    case 3
    have "cycle_loop ps start ((?f ^^ Suc v) start) (Suc v) = Inr (full_circle ps start)"
    proof (rule "1.IH" [OF step])
      show "(next_of ps ^^ i) start \<noteq> start" if "0 < i" "i \<le> Suc v" for i
        using that 3(1) "1.prems"(6) [of i] by (cases "i = Suc v") auto
    qed (use 3 "1.prems" in auto)
    with 3 step show ?thesis by (simp add: cycle_loop.simps [of ps start current v])
  qed
qed

lemma full_circle_single:
  assumes "bt_ok ps" "targets_closed ps" "s \<in> members ps"
  shows "full_circle ps s \<longleftrightarrow> single_cycle ps"
proof
  let ?f = "next_of ps"
  have ne: "ps \<noteq> []" using assms(3) by (auto simp: bt_keys_def)
  have card: "card (members ps) = length ps" using assms(1) by (rule card_members)
  assume fc: "full_circle ps s"
  then have ret: "(?f ^^ card (members ps)) s = s"
    and first: "\<And>i. 0 < i \<Longrightarrow> i < card (members ps) \<Longrightarrow> (?f ^^ i) s \<noteq> s"
    by (simp_all add: full_circle_def card)
  have cov: "(\<lambda>i. (?f ^^ i) s) ` {..<length ps} = members ps"
    using orbit_covers [OF _ assms(3) _ ret first] assms(2) by (simp add: targets_closed_def card)
  have "\<exists>i. (?f ^^ i) a = b" if a: "a \<in> members ps" and b: "b \<in> members ps" for a b
  proof -
    obtain i j where i: "i < length ps" "a = (?f ^^ i) s" and j: "b = (?f ^^ j) s"
      using a b cov by (metis (no_types, lifting) imageE lessThan_iff)
    have "(?f ^^ (length ps - i)) a = s"
      using orbit_shift [of "length ps" ?f s i] fc i by (simp add: full_circle_def)
    then have "(?f ^^ (j + (length ps - i))) a = b" using j by (simp add: funpow_add)
    then show ?thesis ..
  qed
  with ne assms(2) show "single_cycle ps" by (simp add: single_cycle_def)
next
  let ?f = "next_of ps"
  assume sc: "single_cycle ps"
  have "?f s \<in> members ps" using assms(2,3) by (auto simp: targets_closed_def)
  then obtain i where "(?f ^^ i) (?f s) = s" using sc assms(3) by (auto simp: single_cycle_def)
  then have "(?f ^^ Suc i) s = s" by (simp add: funpow_swap1)
  then have again: "\<exists>i>0. (?f ^^ i) s = s" by blast
  have "\<And>b. b \<in> members ps \<Longrightarrow> \<exists>i. (?f ^^ i) s = b" using sc assms(3) by (auto simp: single_cycle_def)
  from transitive_return [OF _ assms(3) _ this again] show "full_circle ps s"
    using assms(1,2) by (simp add: full_circle_def card_members targets_closed_def)
qed

lemma check_cyclic_spec:
  assumes "bt_ok ps"
  shows "check_cyclic ps = Inr (single_cycle ps \<and> no_self_target ps)"
proof (cases ps)
  case Nil
  then show ?thesis by (simp add: check_cyclic_def bt_keys_def single_cycle_def)
next
  case (Cons kv rest)
  define start where "start = fst kv"
  have keys: "bt_keys ps = start # bt_keys rest" by (simp add: Cons bt_keys_def start_def)
  have ok: "targets_ok ps (bt_values ps) \<longleftrightarrow> targets_closed ps \<and> no_self_target ps"
    using targets_closed_values [OF assms] by (auto simp: targets_ok_iff no_self_target_def)
  show ?thesis
  proof (cases "targets_closed ps \<and> no_self_target ps")
    case True
    have start: "start \<in> members ps" by (simp add: keys)
    have "cycle_loop ps start start 0 = Inr (full_circle ps start)"
      by (rule cycle_loop_full_circle) (use True start Cons in auto)
    then show ?thesis
      using True full_circle_single [OF assms _ start] by (simp add: check_cyclic_def keys ok)
  next
    case False
    then show ?thesis by (auto simp: check_cyclic_def keys ok single_cycle_def)
  qed
qed

section \<open>Distances on a single cycle\<close>

text \<open>The steps from the leader to a member, between 1 and the number of participants.\<close>

definition steps_to :: "participants \<Rightarrow> participant_id \<Rightarrow> participant_id \<Rightarrow> nat \<Rightarrow> bool" where
  "steps_to ps l k d \<longleftrightarrow> 0 < d \<and> d \<le> length ps \<and> (next_of ps ^^ d) l = k"

lemma single_cycle_full:
  "bt_ok ps \<Longrightarrow> single_cycle ps \<Longrightarrow> l \<in> members ps \<Longrightarrow> full_circle ps l"
  using full_circle_single by (auto simp: single_cycle_def)

lemma single_cycle_closed: "single_cycle ps \<Longrightarrow> targets_closed ps"
  by (simp add: single_cycle_def)

lemma next_member: "single_cycle ps \<Longrightarrow> k \<in> members ps \<Longrightarrow> next_of ps k \<in> members ps"
  by (auto simp: single_cycle_def targets_closed_def)

lemma steps_to_unique:
  assumes "full_circle ps l" "steps_to ps l k d" "steps_to ps l k e"
  shows "d = e"
proof -
  let ?f = "next_of ps"
  have inj: "inj_on (\<lambda>i. (?f ^^ i) l) {..<length ps}"
    using assms(1) by (intro orbit_inj) (auto simp: full_circle_def)
  have wrap: "(?f ^^ (i mod length ps)) l = (?f ^^ i) l" for i
    using orbit_mod [of "length ps" ?f l i] assms(1) by (simp add: full_circle_def)
  have n: "0 < length ps" using assms(2) by (auto simp: steps_to_def)
  have "d mod length ps = e mod length ps"
    by (rule inj_onD [OF inj]) (use wrap [of d] wrap [of e] assms(2,3) n in \<open>auto simp: steps_to_def\<close>)
  then show ?thesis
    using assms(2,3) n by (auto simp: steps_to_def mod_if split: if_splits)
qed

lemma steps_to_exists:
  assumes "bt_ok ps" "single_cycle ps" "l \<in> members ps" "k \<in> members ps"
  shows "\<exists>d. steps_to ps l k d"
proof -
  let ?f = "next_of ps"
  have fc: "full_circle ps l" using assms(1-3) by (rule single_cycle_full)
  have n: "0 < length ps" using assms(3) by (auto simp: bt_keys_def)
  obtain i where i: "(?f ^^ i) l = k" using assms by (auto simp: single_cycle_def)
  have r: "(?f ^^ (i mod length ps)) l = k"
    using orbit_mod [of "length ps" ?f l i] fc i by (simp add: full_circle_def)
  show ?thesis
  proof (cases "i mod length ps = 0")
    case True
    then have "steps_to ps l k (length ps)" using fc r n by (simp add: steps_to_def full_circle_def)
    then show ?thesis ..
  next
    case False
    then have "steps_to ps l k (i mod length ps)"
      using r n by (simp add: steps_to_def less_imp_le)
    then show ?thesis ..
  qed
qed

lemma distance_loop_steps:
  assumes "targets_closed ps" "l \<in> members ps" "(next_of ps ^^ d) l = k" "d \<le> length ps"
    and "\<And>i. v < i \<Longrightarrow> i < d \<Longrightarrow> (next_of ps ^^ i) l \<noteq> k" and "v < d"
  shows "distance_loop ps k ((next_of ps ^^ v) l) v = Inr d"
  using assms(5,6)
proof (induction "d - v" arbitrary: v)
  case 0
  then show ?case by simp
next
  case (Suc m)
  have step: "target_of ps ((next_of ps ^^ v) l) = Inr ((next_of ps ^^ Suc v) l)"
    using iterate_member [OF assms(1,2), of v] by (simp add: target_of_member)
  show ?case
  proof (cases "Suc v = d")
    case True
    then show ?thesis using step assms(3) by (subst distance_loop.simps) simp
  next
    case False
    then have "distance_loop ps k ((next_of ps ^^ Suc v) l) (Suc v) = Inr d"
      using Suc.hyps(2) Suc.prems by (intro Suc.hyps(1)) auto
    moreover have "(next_of ps ^^ Suc v) l \<noteq> k"
      using False Suc.prems(1) [of "Suc v"] Suc.prems(2) by simp
    ultimately show ?thesis
      using step False Suc.prems assms(4) by (subst distance_loop.simps) simp
  qed
qed

lemma distance_from_leader_steps:
  assumes "bt_ok ps" "single_cycle ps" "l \<in> members ps" "steps_to ps l k d"
  shows "distance_from_leader ps k l = Inr (of_nat d)"
proof -
  have fc: "full_circle ps l" using assms(1-3) by (rule single_cycle_full)
  have "(next_of ps ^^ i) l \<noteq> k" if "0 < i" "i < d" for i
    using steps_to_unique [OF fc assms(4), of i] that assms(4) by (auto simp: steps_to_def)
  then have "distance_loop ps k ((next_of ps ^^ 0) l) 0 = Inr d"
    using assms by (intro distance_loop_steps) (auto simp: steps_to_def single_cycle_def)
  then show ?thesis by (simp add: distance_from_leader_def)
qed

lemma unat_distance:
  "bt_ok (ps :: participants) \<Longrightarrow> d \<le> length ps \<Longrightarrow> unat (of_nat d :: u32) = d"
  using length_participants [of ps] by (simp add: unat_of_nat)

lemma steps_to_leader: "full_circle ps l \<Longrightarrow> ps \<noteq> [] \<Longrightarrow> steps_to ps l l (length ps)"
  by (simp add: steps_to_def full_circle_def)

lemma steps_to_next_leader: "ps \<noteq> [] \<Longrightarrow> steps_to ps l (next_of ps l) 1"
  by (cases ps) (simp_all add: steps_to_def)

lemma steps_to_next:
  assumes "full_circle ps l" "steps_to ps l k d" "k \<noteq> l"
  shows "steps_to ps l (next_of ps k) (Suc d)"
proof -
  have "d \<noteq> length ps" using assms by (auto simp: steps_to_def full_circle_def)
  with assms(2) show ?thesis by (auto simp: steps_to_def)
qed

section \<open>Exact locktimes\<close>

text \<open>Blocks and slots per hop, as naturals.\<close>

definition btc_hop :: "session \<Rightarrow> nat" where
  "btc_hop s = (unat (refund_window_secs s) + 599) div 600"

definition btc_in_range :: "session \<Rightarrow> bool" where
  "btc_in_range s \<longleftrightarrow> unat (refund_window_secs s) + 599 < 2 ^ 64 \<and>
     unat (start_block s) + length (participants s) * btc_hop s < 2 ^ 32"

definition cardano_in_range :: "session \<Rightarrow> bool" where
  "cardano_in_range s \<longleftrightarrow>
     unat (start_slot s) + length (participants s) * unat (refund_window_secs s) < 2 ^ 64"

text \<open>A session whose participants form one cycle that the elected leader belongs to.\<close>

definition led_cycle :: "session \<Rightarrow> participant_id \<Rightarrow> bool" where
  "led_cycle s l \<longleftrightarrow> bt_ok (participants s) \<and> single_cycle (participants s) \<and>
     l \<in> members (participants s) \<and> leader s = Some l"

lemma led_cycle_distance:
  assumes "led_cycle s l" "steps_to (participants s) l k d"
  shows "\<exists>w. distance_from_leader (participants s) k l = Inr w \<and> unat w = d"
  using assms distance_from_leader_steps unat_distance
  by (fastforce simp: led_cycle_def steps_to_def)

lemma locktime_btc_exact:
  assumes led: "led_cycle s l" and rng: "btc_in_range s" and st: "steps_to (participants s) l k d"
  shows "\<exists>t. refund_locktime_btc ov s k = Inr t \<and> unat t = unat (start_block s) + d * btc_hop s"
proof -
  have d: "0 < d" "d \<le> length (participants s)" using st by (auto simp: steps_to_def)
  have bound: "unat (start_block s) + d * btc_hop s < 2 ^ 32"
    using rng mult_le_mono1 [OF d(2), of "btc_hop s"]
    unfolding btc_in_range_def by linarith
  have hop: "btc_hop s < 2 ^ 32"
  proof -
    have "btc_hop s \<le> d * btc_hop s" using d(1) by simp
    with bound show ?thesis by linarith
  qed
  obtain w where w: "distance_from_leader (participants s) k l = Inr w" "unat w = d"
    using led_cycle_distance [OF led st] by blast
  obtain pad where pad: "add_chk ov (refund_window_secs s) 599 = Inr pad"
      "unat pad = unat (refund_window_secs s) + 599"
    using add_chk_exact [of "refund_window_secs s" 599 ov] rng by (auto simp: btc_in_range_def)
  define b where "b = (ucast (pad div 600) :: u32)"
  have b: "unat b = btc_hop s"
    using hop pad(2) by (simp add: b_def btc_hop_def unat_ucast_small unat_div_distrib)
  obtain off where off: "mul_chk ov w b = Inr off" "unat off = d * btc_hop s"
    using mul_chk_exact [of w b ov] bound b w by auto
  obtain t where "add_chk ov (start_block s) off = Inr t"
      "unat t = unat (start_block s) + d * btc_hop s"
    using add_chk_exact [of "start_block s" off ov] bound off by auto
  then show ?thesis
    using led w pad(1) off(1) by (simp add: refund_locktime_btc_def led_cycle_def b_def Let_def)
qed

lemma locktime_cardano_exact:
  assumes led: "led_cycle s l" and rng: "cardano_in_range s"
    and st: "steps_to (participants s) l k d"
  shows "\<exists>t. refund_locktime_cardano ov s k = Inr t \<and>
      unat t = unat (start_slot s) + d * unat (refund_window_secs s)"
proof -
  have d: "0 < d" "d \<le> length (participants s)" using st by (auto simp: steps_to_def)
  have bound: "unat (start_slot s) + d * unat (refund_window_secs s) < 2 ^ 64"
    using rng mult_le_mono1 [OF d(2), of "unat (refund_window_secs s)"]
    unfolding cardano_in_range_def by linarith
  obtain w where w: "distance_from_leader (participants s) k l = Inr w" "unat w = d"
    using led_cycle_distance [OF led st] by blast
  have "unat w < 2 ^ 64" using unsigned_less [of w, where ?'a = nat] by simp
  then have cast: "unat (ucast w :: u64) = d" using w(2) by (simp add: unat_ucast_small)
  obtain off where off: "mul_chk ov (ucast w :: u64) (refund_window_secs s) = Inr off"
      "unat off = d * unat (refund_window_secs s)"
    using mul_chk_exact [of "ucast w :: u64" "refund_window_secs s" ov] bound cast by auto
  obtain t where "add_chk ov (start_slot s) off = Inr t"
      "unat t = unat (start_slot s) + d * unat (refund_window_secs s)"
    using add_chk_exact [of "start_slot s" off ov] bound off by auto
  then show ?thesis
    using led w(1) off(1) by (simp add: refund_locktime_cardano_def led_cycle_def)
qed

lemma led_cycle_steps:
  assumes "led_cycle s l" "k \<in> members (participants s)" "k \<noteq> l"
  obtains d where "steps_to (participants s) l k d"
    "steps_to (participants s) l (next_of (participants s) k) (Suc d)"
    "Suc d \<le> length (participants s)"
    "steps_to (participants s) l l (length (participants s))"
proof -
  have fc: "full_circle (participants s) l"
    using assms(1) single_cycle_full by (auto simp: led_cycle_def)
  obtain d where d: "steps_to (participants s) l k d"
    using steps_to_exists [of "participants s" l k] assms by (auto simp: led_cycle_def)
  have "steps_to (participants s) l (next_of (participants s) k) (Suc d)"
    using fc d assms(3) by (rule steps_to_next)
  moreover have "steps_to (participants s) l l (length (participants s))"
    using fc assms(1) by (intro steps_to_leader) (auto simp: led_cycle_def single_cycle_def)
  ultimately show ?thesis using d that by (auto simp: steps_to_def)
qed

text \<open>The deadline in the datum is the refund slot, counted in seconds from the start of the
  network, in milliseconds.\<close>

lemma deadline_exact:
  assumes "refund_locktime_cardano ov s k = Inr t" and "0 < system_start_secs net"
    and "(unat (system_start_secs net) + unat t) * 1000 < 2 ^ 64"
  shows "\<exists>m. refund_deadline_posix_ms ov s k net = Inr m \<and>
      unat m = (unat (system_start_secs net) + unat t) * 1000"
proof -
  have "unat (system_start_secs net) + unat t < 2 ^ 64"
    using assms(3) by simp
  then obtain a where a: "add_chk ov (system_start_secs net) t = Inr a"
      "unat a = unat (system_start_secs net) + unat t"
    using add_chk_exact [of "system_start_secs net" t ov] by auto
  obtain m where "mul_chk ov a 1000 = Inr m" "unat m = unat a * 1000"
    using mul_chk_exact [of a 1000 ov] a(2) assms(3) by auto
  then show ?thesis using assms(1,2) a by (simp add: refund_deadline_posix_ms_def Let_def)
qed

section \<open>Three participants in a ring\<close>

text \<open>Concrete participants on which the properties are evaluated: 1 claims from 2, 2 from 3 and
  3 from 1; the daemon is participant 1.\<close>

definition sample_participant ::
  "participant_id \<Rightarrow> blockchain \<Rightarrow> participant_id \<Rightarrow> bool \<Rightarrow> participant" where
  "sample_participant i bc tgt me =
     \<lparr>p_id = i, blockchain = bc, tcp_address = ''peer'' @ show_nat (unat i),
      target_participant = tgt, amount_locking = 100000, amount_claiming = 100000, is_me = me,
      secp256k1_public_key = ''key'' @ show_nat (unat i), p_wallet_public_key = [i],
      funding_utxo_txid = ''fund'' @ show_nat (unat i), funding_utxo_vout = 0\<rparr>"

definition ring3 :: participants where
  "ring3 = [(1, sample_participant 1 Bitcoin 2 True), (2, sample_participant 2 Cardano 3 False),
            (3, sample_participant 3 Bitcoin 1 False)]"

lemma ring3_ok: "bt_ok ring3"
  by (simp add: bt_ok_def ring3_def)

lemma ring3_members: "members ring3 = {1, 2, 3}"
  by (auto simp: bt_keys_def ring3_def)

lemma ring3_check: "check_cyclic ring3 = Inr True"
  by (simp add: check_cyclic_def ring3_def sample_participant_def bt_keys_def bt_values_def
      bt_contains_def bt_get_def target_of_def cycle_loop.simps)

lemma ring3_cycle: "single_cycle ring3"
  using check_cyclic_spec [OF ring3_ok] ring3_check by simp

definition ring3_session :: session where
  "ring3_session = (session_literal 7 ring3 1000 50000 5000 2000000 [] [])\<lparr>leader := Some 2\<rparr>"

lemma ring3_session_simps [simp]:
  "participants ring3_session = ring3" "leader ring3_session = Some 2"
  "refund_window_secs ring3_session = 604800" "start_block ring3_session = 1000"
  "start_slot ring3_session = 50000"
  by (simp_all add: ring3_session_def session_literal_def)

lemma ring3_led: "led_cycle ring3_session 2"
  by (simp add: led_cycle_def ring3_ok ring3_cycle ring3_members)

lemma ring3_length: "length ring3 = 3"
  by (simp add: ring3_def)

lemma ring3_ranges: "btc_in_range ring3_session" "cardano_in_range ring3_session"
  by (simp_all add: btc_in_range_def cardano_in_range_def btc_hop_def ring3_length)

section \<open>Properties\<close>

text \<open>
  C13: \<open>check_cyclic\<close> decides the abstract cycle. On every participant map it returns without a
  panic, and it returns true exactly when the map is not empty, every target is a participant
  and differs from the targeting participant's own id, and following the targets from any
  participant reaches every participant.
\<close>

theorem check_cyclic_correct:
  assumes "bt_ok ps"
  shows "(\<exists>b. check_cyclic ps = Inr b) \<and>
    (check_cyclic ps = Inr True \<longleftrightarrow>
       ps \<noteq> [] \<and>
       (\<forall>p \<in> set (bt_values ps).
          target_participant p \<in> members ps \<and> target_participant p \<noteq> p_id p) \<and>
       (\<forall>a \<in> members ps. \<forall>b \<in> members ps. \<exists>i. (next_of ps ^^ i) a = b))"
  using check_cyclic_spec [OF assms] targets_closed_values [OF assms]
  by (auto simp: single_cycle_def no_self_target_def)

theorem check_cyclic_correct_witness:
  "bt_ok ring3 \<and> (\<exists>b. check_cyclic ring3 = Inr b) \<and> (\<exists>i. (next_of ring3 ^^ i) 3 = 2)"
  using check_cyclic_correct [OF ring3_ok] ring3_ok ring3_check ring3_members by auto

text \<open>
  C20: the distances from the leader order the participants. On a single cycle
  \<open>distance_from_leader\<close> never panics; the distances are a bijection between the participants
  and the numbers from 1 to their count; the leader itself is the farthest, and every other
  participant is exactly one step nearer than the participant it claims from.
\<close>

theorem distance_from_leader_order:
  assumes "bt_ok ps" and "single_cycle ps" and "l \<in> members ps"
  shows "\<exists>D. bij_betw D (members ps) {1..length ps} \<and> D l = length ps \<and>
    (\<forall>k \<in> members ps. (\<exists>w. distance_from_leader ps k l = Inr w \<and> unat w = D k) \<and>
       (k \<noteq> l \<longrightarrow> D (next_of ps k) = Suc (D k)))"
proof -
  have fc: "full_circle ps l" using assms by (rule single_cycle_full)
  have ne: "ps \<noteq> []" using assms(2) by (simp add: single_cycle_def)
  have "\<forall>k. \<exists>d. k \<in> members ps \<longrightarrow> steps_to ps l k d"
    using steps_to_exists [OF assms] by blast
  then obtain D where D: "\<And>k. k \<in> members ps \<Longrightarrow> steps_to ps l k (D k)" by metis
  have inj: "inj_on D (members ps)"
  proof (rule inj_onI)
    fix x y assume xy: "x \<in> members ps" "y \<in> members ps" "D x = D y"
    have "x = (next_of ps ^^ D x) l" using D [OF xy(1)] by (simp add: steps_to_def)
    also have "\<dots> = y" using D [OF xy(2)] by (simp add: steps_to_def xy(3))
    finally show "x = y" .
  qed
  have "D ` members ps = {1..length ps}"
  proof (rule card_subset_eq)
    show "D ` members ps \<subseteq> {1..length ps}" using D by (force simp: steps_to_def)
    show "card (D ` members ps) = card {1..length ps}"
      using card_image [OF inj] card_members [OF assms(1)] by simp
  qed simp
  then have "bij_betw D (members ps) {1..length ps}" using inj by (simp add: bij_betw_def)
  moreover have "D l = length ps"
    using steps_to_unique [OF fc D [OF assms(3)] steps_to_leader [OF fc ne]] .
  moreover have "\<exists>w. distance_from_leader ps k l = Inr w \<and> unat w = D k" if "k \<in> members ps" for k
    using distance_from_leader_steps [OF assms D [OF that]] unat_distance [OF assms(1)]
      D [OF that] by (auto simp: steps_to_def)
  moreover have "D (next_of ps k) = Suc (D k)" if "k \<in> members ps" "k \<noteq> l" for k
    using steps_to_unique [OF fc D [OF next_member [OF assms(2) that(1)]]
        steps_to_next [OF fc D [OF that(1)] that(2)]] .
  ultimately show ?thesis by blast
qed

theorem distance_from_leader_order_witness:
  "bt_ok ring3 \<and> single_cycle ring3 \<and> (2::u8) \<in> members ring3 \<and>
   (\<exists>D. D (2::u8) = length ring3 \<and> (\<exists>w. distance_from_leader ring3 2 2 = Inr w \<and> unat w = D 2))"
proof -
  have h: "(2::u8) \<in> members ring3" by (simp add: ring3_members)
  show ?thesis
    using distance_from_leader_order [OF ring3_ok ring3_cycle h] ring3_ok ring3_cycle h by blast
qed

text \<open>
  C14: Bitcoin refund windows open in the order that protects the claimants. Where the locktimes
  are in range, the window of the participant someone claims from opens one hop after the
  claimant's own window, unless the claimant is the leader; the leader's window opens last. Both
  build profiles compute these values.
\<close>

theorem refund_locktime_btc_staggered:
  assumes "led_cycle s l" and "btc_in_range s" and "0 < refund_window_secs s"
    and "k \<in> members (participants s)" and "k \<noteq> l"
  shows "\<exists>a b c. refund_locktime_btc ov s k = Inr a \<and>
    refund_locktime_btc ov s (next_of (participants s) k) = Inr b \<and>
    refund_locktime_btc ov s l = Inr c \<and>
    unat b = unat a + btc_hop s \<and> a < b \<and> b \<le> c"
proof -
  obtain d where d: "steps_to (participants s) l k d"
      "steps_to (participants s) l (next_of (participants s) k) (Suc d)"
      "Suc d \<le> length (participants s)"
      "steps_to (participants s) l l (length (participants s))"
    using led_cycle_steps [OF assms(1,4,5)] .
  have hop: "0 < btc_hop s"
    using assms(3) by (simp add: btc_hop_def word_less_nat_alt div_greater_zero_iff)
  have far: "Suc d * btc_hop s \<le> length (participants s) * btc_hop s"
    using d(3) by (rule mult_le_mono1)
  show ?thesis
    using locktime_btc_exact [OF assms(1,2) d(1), of ov] locktime_btc_exact [OF assms(1,2) d(2), of ov]
      locktime_btc_exact [OF assms(1,2) d(4), of ov] hop far
    by (fastforce simp: word_less_nat_alt word_le_nat_alt)
qed

theorem refund_locktime_btc_staggered_witness:
  "led_cycle ring3_session 2 \<and> (\<exists>a b. refund_locktime_btc True ring3_session 3 = Inr a \<and>
     refund_locktime_btc True ring3_session (next_of ring3 3) = Inr b \<and> unat b = unat a + 1008)"
proof -
  have h: "0 < refund_window_secs ring3_session" "(3::u8) \<in> members (participants ring3_session)"
    "(3::u8) \<noteq> 2" by (simp_all add: ring3_members)
  have hop: "btc_hop ring3_session = 1008" by (simp add: btc_hop_def)
  show ?thesis
    using refund_locktime_btc_staggered [OF ring3_led ring3_ranges(1) h, of True] ring3_led
    by (auto simp: hop)
qed



end
