(* ===== verification/Leader_Election.thy ===== *)
theory Leader_Election
  imports Session_Utils Cycle
begin

text \<open>
  \<open>src/swap-daemon/src/protocol/leader_election.rs\<close> and \<open>adaptor_nonce.rs\<close>: the
  commit-and-reveal election of the leader, and the announcement of the adaptor point. A
  participant commits to a nonce by its hash, reveals the nonce, and the hash of all nonces in
  the order of the ids picks the leader.
\<close>

section \<open>The code\<close>

definition broadcast_adaptor_point :: "env \<Rightarrow> session \<Rightarrow> session act" where
  "broadcast_adaptor_point E s =
     bind (lift (unwrap (find_me (participants s)))) (\<lambda>(_, me).
     bind (lift (unwrap (hm_get (adaptor_points s) (p_id me)))) (\<lambda>my_point.
     bind (lift (get_my_id (participants s))) (\<lambda>my_id.
     announce E s my_id (AdaptorPoint my_point))))"

definition start_leader_election :: "env \<Rightarrow> session \<Rightarrow> session act" where
  "start_leader_election E s =
     bind (random_bytes E 32) (\<lambda>nonce.
     let commitment = sha256 E nonce in
     bind (lift (get_my_id (participants s))) (\<lambda>my_id.
     announce E
       (s\<lparr>leader_nonces := bt_insert my_id nonce (leader_nonces s),
         leader_commitments := bt_insert my_id commitment (leader_commitments s)\<rparr>)
       my_id (LeaderElectionCommitment commitment)))"

definition received_leader_commitment :: "session \<Rightarrow> bytes \<Rightarrow> participant_id \<Rightarrow> session" where
  "received_leader_commitment s commitment pid =
     s\<lparr>leader_commitments := bt_insert pid commitment (leader_commitments s)\<rparr>"

definition broadcast_leader_nonce :: "env \<Rightarrow> session \<Rightarrow> bytes \<Rightarrow> session act" where
  "broadcast_leader_nonce E s nonce =
     bind (lift (get_my_id (participants s))) (\<lambda>my_id.
     announce E s my_id (LeaderElectionNonce nonce))"

definition received_leader_nonce :: "env \<Rightarrow> session \<Rightarrow> bytes \<Rightarrow> participant_id \<Rightarrow> session res" where
  "received_leader_nonce E s nonce pid =
     res_bind (expect ''No commitment for this participant'' (bt_get (leader_commitments s) pid))
       (\<lambda>commitment.
     if sha256 E nonce \<noteq> commitment then Inl (PanicMsg ''Nonce invalid with commitment'')
     else Inr (s\<lparr>leader_nonces := bt_insert pid nonce (leader_nonces s)\<rparr>))"

text \<open>\<open>u64::from_be_bytes\<close> of the first eight bytes; slicing a shorter seed panics.\<close>

definition be_u64 :: "bytes \<Rightarrow> u64" where
  "be_u64 bs = of_nat (foldl (\<lambda>acc b. 256 * acc + unat b) 0 bs)"

definition leader_index :: "bytes \<Rightarrow> nat \<Rightarrow> nat res" where
  "leader_index seed n =
     (if length seed < 8 then Inl OutOfBounds
      else if n = 0 then Inl DivByZero
      else Inr (unat (be_u64 (take 8 seed)) mod n))"

definition compute_leader :: "env \<Rightarrow> session \<Rightarrow> session res" where
  "compute_leader E s =
     (let input = concat (bt_values (leader_nonces s)); seed = sha256 E input in
      res_bind (leader_index seed (length (participants s))) (\<lambda>idx.
      res_bind (unwrap (if idx < length (bt_keys (participants s))
                        then Some (bt_keys (participants s) ! idx) else None)) (\<lambda>leader_id.
      Inr (s\<lparr>leader := Some leader_id\<rparr>))))"

section \<open>Lemmas\<close>

lemma leader_index_bound: "leader_index seed n = Inr i \<Longrightarrow> i < n"
  by (auto simp: leader_index_def split: if_splits)

lemma received_leader_nonce_Inr:
  "received_leader_nonce E s nonce pid = Inr s' \<longleftrightarrow>
   bt_get (leader_commitments s) pid = Some (sha256 E nonce) \<and>
   s' = s\<lparr>leader_nonces := bt_insert pid nonce (leader_nonces s)\<rparr>"
  by (auto simp: received_leader_nonce_def expect_def split: option.splits)

text \<open>With a 32-byte hash and at least one participant the election always picks a member.\<close>

lemma compute_leader_picks:
  assumes "\<And>b. length (sha256 E b) = 32" and "participants s \<noteq> []"
  shows "\<exists>l \<in> set (bt_keys (participants s)). compute_leader E s = Inr (s\<lparr>leader := Some l\<rparr>)"
proof -
  let ?seed = "sha256 E (concat (bt_values (leader_nonces s)))"
  let ?n = "length (participants s)"
  let ?i = "unat (be_u64 (take 8 ?seed)) mod ?n"
  have "leader_index ?seed ?n = Inr ?i" using assms by (simp add: leader_index_def)
  moreover have i: "?i < ?n" using assms(2) by simp
  ultimately have "compute_leader E s = Inr (s\<lparr>leader := Some (bt_keys (participants s) ! ?i)\<rparr>)"
    by (simp add: compute_leader_def Let_def)
  moreover have "bt_keys (participants s) ! ?i \<in> set (bt_keys (participants s))"
    using i by simp
  ultimately show ?thesis by blast
qed

lemma wp_start_leader_election:
  assumes "get_my_id (participants s) = Inr me"
  shows "wp (start_leader_election E s) (\<lambda>_ _. False)
    (\<lambda>s' t'. \<exists>nonce pool. s' = s\<lparr>leader_nonces := bt_insert me nonce (leader_nonces s),
         leader_commitments := bt_insert me (sha256 E nonce) (leader_commitments s),
         connection_pool := pool\<rparr>) t"
  unfolding start_leader_election_def Let_def
  by (simp add: wp_simps assms) (rule wp_mono [OF wp_announce], auto)

text \<open>Every nonce the session holds hashes to the commitment it holds for the same
  participant.\<close>

definition nonces_committed :: "env \<Rightarrow> session \<Rightarrow> bool" where
  "nonces_committed E s \<longleftrightarrow> (\<forall>k n. bt_get (leader_nonces s) k = Some n \<longrightarrow>
     bt_get (leader_commitments s) k = Some (sha256 E n))"

lemma nonces_committed_received:
  "nonces_committed E s \<Longrightarrow> received_leader_nonce E s nonce pid = Inr s' \<Longrightarrow> nonces_committed E s'"
  by (auto simp: nonces_committed_def received_leader_nonce_Inr)

section \<open>Agreement on the leader\<close>

text \<open>
  The leader is a function of the participants' ids and of the nonces by id: two daemons with the
  same ids and the same nonces compute the same leader, in whatever order the messages came.
\<close>

lemma bt_ok_unique:
  assumes "bt_ok m" "bt_ok m'" "bt_get m = bt_get m'"
  shows "m = m'"
proof -
  have d: "distinct (map fst m)" "distinct (map fst m')" "sorted (map fst m)" "sorted (map fst m')"
    using assms(1,2) by (simp_all add: bt_ok_def strict_sorted_iff)
  have eq: "map_of m = map_of m'" using assms(3) by (simp add: bt_get_def fun_eq_iff)
  have "set (map fst m) = set (map fst m')"
    using eq by (metis dom_map_of_conv_image_fst list.set_map)
  then have "map fst m = map fst m'"
    using d by (metis sorted_distinct_set_unique)
  moreover have "set m = set m'"
    using d eq by (metis map_of_inject_set)
  moreover have "map (\<lambda>k. (k, the (map_of m k))) (map fst m) = m" if "distinct (map fst m)" for m :: "('a \<times> 'b) list"
    using that by (auto simp: comp_def intro!: map_idI)
  ultimately show ?thesis using d eq by metis
qed

lemma compute_leader_agreement:
  assumes "bt_ok (leader_nonces s)" "bt_ok (leader_nonces s')"
    and "bt_get (leader_nonces s) = bt_get (leader_nonces s')"
    and "bt_keys (participants s) = bt_keys (participants s')"
  shows "map_sum id leader (compute_leader E s) = map_sum id leader (compute_leader E s')"
proof -
  have "leader_nonces s = leader_nonces s'" using assms(1-3) by (rule bt_ok_unique)
  moreover have "length (participants s) = length (participants s')"
    using arg_cong [OF assms(4), of length] by simp
  ultimately show ?thesis
    using assms(4) by (auto simp: compute_leader_def Let_def res_bind_def unwrap_def split: sum.splits)
qed

section \<open>The operations keep the session\<close>

interpretation adaptor_announcement: session_op "broadcast_adaptor_point E" for E
proof unfold_locales
  fix s
  show "evolving (\<lambda>x. x) s (broadcast_adaptor_point E s)"
    unfolding broadcast_adaptor_point_def
    by (auto intro!: evolving_bind_lift evolving_announce split: prod.splits)
  show "emits (\<lambda>e. \<not> reveals e) (broadcast_adaptor_point E s)"
    unfolding broadcast_adaptor_point_def by (intro emits_rules emits_announce) auto
qed

interpretation election: session_op "start_leader_election E" for E
proof unfold_locales
  fix s
  have e: "evolves s (s\<lparr>leader_nonces := bt_insert i n (leader_nonces s),
      leader_commitments := bt_insert i c (leader_commitments s)\<rparr>)" for i n c
    by (rule evolves_same) (simp_all add: setup_of_def stores_step_def)
  show "evolving (\<lambda>x. x) s (start_leader_election E s)"
    unfolding start_leader_election_def Let_def
    by (intro evolving_bind_any evolving_announce e)
  show "emits (\<lambda>e. \<not> reveals e) (start_leader_election E s)"
    unfolding start_leader_election_def Let_def by (intro emits_rules emits_announce) auto
qed

interpretation nonce_announcement: session_op "\<lambda>s. broadcast_leader_nonce E s nonce" for E nonce
proof unfold_locales
  fix s
  show "evolving (\<lambda>x. x) s (broadcast_leader_nonce E s nonce)"
    unfolding broadcast_leader_nonce_def by (intro evolving_bind_any evolving_announce) simp
  show "emits (\<lambda>e. \<not> reveals e) (broadcast_leader_nonce E s nonce)"
    unfolding broadcast_leader_nonce_def by (intro emits_rules emits_announce) auto
qed

lemma evolves_received_commitment: "evolves s (received_leader_commitment s c pid)"
  unfolding received_leader_commitment_def by (rule evolves_same) (simp_all add: setup_of_def stores_step_def)

lemma evolves_received_nonce: "received_leader_nonce E s nonce pid = Inr s' \<Longrightarrow> evolves s s'"
  by (auto simp: received_leader_nonce_Inr setup_of_def stores_step_def intro!: evolves_same)

lemma compute_leader_fields:
  "compute_leader E s = Inr s' \<Longrightarrow> \<exists>l \<in> set (bt_keys (participants s)). s' = s\<lparr>leader := Some l\<rparr>"
  by (auto simp: compute_leader_def Let_def res_bind_Inr split: if_splits)

lemma evolves_leader: "l \<in> set (bt_keys (participants s)) \<Longrightarrow> evolves s (s\<lparr>leader := Some l\<rparr>)"
  by (simp add: evolves_def setup_of_def leader_step_def history_step_refl stores_step_def)

lemma evolves_compute_leader: "compute_leader E s = Inr s' \<Longrightarrow> evolves s s'"
  by (drule compute_leader_fields, erule bexE, simp only: evolves_leader)

end
