(* ===== verification/Bitcoin_Utils.thy ===== *)
theory Bitcoin_Utils
  imports Effects
begin

text \<open>
  \<open>src/swap-daemon/src/blockchains/bitcoin_utils.rs\<close>: key aggregation for Taproot, the lock,
  refund and spend transactions, signing the lock and submitting. The \<open>bitcoin\<close>,
  \<open>secp256k1\<close> and \<open>musig2\<close> crates are parameters; the transactions the code builds are
  written out field by field.
\<close>

section \<open>Keys\<close>

text \<open>The x-only key of a compressed public key: its serialization without the first byte.\<close>

definition xonly_of :: "env \<Rightarrow> pubkey \<Rightarrow> bytes res" where
  "xonly_of E pk = unwrap (xonly_from_slice (btc E) (drop 1 (pk_serialize (musig E) pk)))"

definition taproot_key_agg_ctx :: "env \<Rightarrow> pubkey list \<Rightarrow> key_agg_ctx res" where
  "taproot_key_agg_ctx E pubkeys =
     res_bind (unwrap (key_agg_new (musig E) pubkeys)) (\<lambda>ctx.
     res_bind (xonly_of E (key_agg_pubkey (musig E) ctx)) (\<lambda>xonly.
     let tweak_bytes = tap_tweak_hash (btc E) xonly in
     res_bind (unwrap (scalar_from_slice (musig E) tweak_bytes)) (\<lambda>tweak.
     unwrap (key_agg_with_tweak (musig E) ctx tweak))))"

definition bitcoin_pubkeys :: "env \<Rightarrow> participants \<Rightarrow> pubkey list res" where
  "bitcoin_pubkeys E ps =
     res_map (\<lambda>p. unwrap (pk_parse (musig E) (secp256k1_public_key p))) (bt_values ps)"

text \<open>An address is used for its script only.\<close>

definition aggregate_address :: "env \<Rightarrow> pubkey list \<Rightarrow> btc_net \<Rightarrow> bytes res" where
  "aggregate_address E pubkeys net =
     res_bind (unwrap (key_agg_new (musig E) pubkeys)) (\<lambda>ctx.
     res_bind (xonly_of E (key_agg_pubkey (musig E) ctx)) (\<lambda>xonly.
     Inr (p2tr_script (btc E) xonly net)))"

definition aggregate_pubkey :: "env \<Rightarrow> participants \<Rightarrow> pubkey res" where
  "aggregate_pubkey E ps =
     res_bind (bitcoin_pubkeys E ps) (\<lambda>pubkeys.
     res_bind (unwrap (key_agg_new (musig E) pubkeys)) (\<lambda>ctx.
     Inr (key_agg_pubkey (musig E) ctx)))"

section \<open>Transactions\<close>

definition compute_sighash :: "env \<Rightarrow> btc_tx \<Rightarrow> tx_out \<Rightarrow> bytes res" where
  "compute_sighash E tx lock_tx_output = unwrap (taproot_sighash (btc E) tx 0 [lock_tx_output])"

definition btc_build_lock_tx :: "env \<Rightarrow> out_point \<Rightarrow> u64 \<Rightarrow> bytes \<Rightarrow> btc_tx" where
  "btc_build_lock_tx E funding_utxo amount aggregate_script =
     \<lparr>tx_version = 2, lock_time = 0,
      tx_input = [\<lparr>previous_output = funding_utxo, script_sig = [],
                   sequence = enable_rbf_no_locktime (btc E), witness = []\<rparr>],
      tx_output = [\<lparr>out_value = amount, script_pubkey = aggregate_script\<rparr>]\<rparr>"

text \<open>\<open>tx.input[0].witness = ...\<close>\<close>

definition set_witness0 :: "btc_tx \<Rightarrow> bytes list \<Rightarrow> btc_tx res" where
  "set_witness0 tx w =
     (case tx_input tx of
        [] \<Rightarrow> Inl OutOfBounds
      | i # is \<Rightarrow> Inr (tx\<lparr>tx_input := i\<lparr>witness := w\<rparr> # is\<rparr>))"

definition fetch_bitcoin_utxo_prevout ::
  "env \<Rightarrow> string \<Rightarrow> u32 \<Rightarrow> string \<Rightarrow> tx_out option act" where
  "fetch_bitcoin_utxo_prevout E txid vout base_url =
     bind (http_get E (url_path base_url [''tx'', txid])) (\<lambda>resp.
     ret (case Option.bind resp rs_json of
            None \<Rightarrow> None
          | Some data \<Rightarrow>
              (let out = j_nth (json E) (j_index (json E) data ''vout'') (unat vout) in
               Option.bind (as_str (json E) (j_index (json E) out ''scriptpubkey'')) (\<lambda>script_hex.
               Option.bind (as_u64 (json E) (j_index (json E) out ''value'')) (\<lambda>val.
               Option.bind (hex_decode E script_hex) (\<lambda>script.
               Some \<lparr>out_value = val, script_pubkey = script\<rparr>))))))"

definition sign_bitcoin_lock_tx ::
  "env \<Rightarrow> hex_string \<Rightarrow> participant \<Rightarrow> swap_keys \<Rightarrow> string \<Rightarrow> hex_string option act" where
  "sign_bitcoin_lock_tx E unsigned_tx_hex p keys base_url =
     bind (lift (unwrap (btc_deserialize_hex (btc E) unsigned_tx_hex))) (\<lambda>tx.
     bind (fetch_bitcoin_utxo_prevout E (funding_utxo_txid p) (funding_utxo_vout p) base_url)
       (\<lambda>prevout_opt.
     case prevout_opt of
       None \<Rightarrow> ret None
     | Some prevout \<Rightarrow>
         bind (lift (unwrap (taproot_sighash (btc E) tx 0 [prevout]))) (\<lambda>sighash.
         let sig = sign_keyspend (btc E) (secret_key keys) sighash in
         bind (lift (set_witness0 tx [sig])) (\<lambda>signed.
         ret (Some (btc_serialize_hex (btc E) signed))))))"

definition btc_build_refund_tx ::
  "env \<Rightarrow> out_point \<Rightarrow> participant \<Rightarrow> u32 \<Rightarrow> u64 \<Rightarrow> btc_tx res" where
  "btc_build_refund_tx E refund_input p locktime fee =
     res_bind (unwrap (pk_parse (musig E) (secp256k1_public_key p))) (\<lambda>pk.
     res_bind (xonly_of E pk) (\<lambda>xonly.
     res_bind (unwrap (lock_time_from_height (btc E) locktime)) (\<lambda>lt.
     res_bind (sub_chk (overflow_checks E) (amount_locking p) fee) (\<lambda>val.
     Inr \<lparr>tx_version = 2, lock_time = lt,
          tx_input = [\<lparr>previous_output = refund_input, script_sig = [],
                       sequence = enable_rbf_no_locktime (btc E), witness = []\<rparr>],
          tx_output = [\<lparr>out_value = val,
                        script_pubkey = p2tr_script (btc E) xonly NetBitcoin\<rparr>]\<rparr>))))"

definition btc_build_spend_tx ::
  "env \<Rightarrow> out_point \<Rightarrow> participant \<Rightarrow> u64 \<Rightarrow> btc_tx res" where
  "btc_build_spend_tx E spend_input p fee =
     res_bind (unwrap (pk_parse (musig E) (secp256k1_public_key p))) (\<lambda>pk.
     res_bind (xonly_of E pk) (\<lambda>xonly.
     res_bind (sub_chk (overflow_checks E) (amount_claiming p) fee) (\<lambda>val.
     Inr \<lparr>tx_version = 2, lock_time = 0,
          tx_input = [\<lparr>previous_output = spend_input, script_sig = [],
                       sequence = enable_rbf_no_locktime (btc E), witness = []\<rparr>],
          tx_output = [\<lparr>out_value = val,
                        script_pubkey = p2tr_script (btc E) xonly NetBitcoin\<rparr>]\<rparr>)))"

definition submit_bitcoin_tx :: "env \<Rightarrow> hex_string \<Rightarrow> string \<Rightarrow> bool act" where
  "submit_bitcoin_tx E tx_hex base_url =
     bind (http_post E (url_path base_url [''tx'']) [] (TextBody tx_hex)) (\<lambda>resp.
     ret (case resp of None \<Rightarrow> False | Some r \<Rightarrow> rs_success r))"

section \<open>Lemmas\<close>

lemma set_witness0_simps [simp]:
  "tx_input tx = i # is \<Longrightarrow> set_witness0 tx w = Inr (tx\<lparr>tx_input := i\<lparr>witness := w\<rparr> # is\<rparr>)"
  "tx_input tx = [] \<Longrightarrow> set_witness0 tx w = Inl OutOfBounds"
  by (simp_all add: set_witness0_def)

lemma set_witness0_Inr:
  "set_witness0 tx w = Inr tx' \<Longrightarrow>
   tx_output tx' = tx_output tx \<and> lock_time tx' = lock_time tx \<and>
   map previous_output (tx_input tx') = map previous_output (tx_input tx)"
  by (auto simp: set_witness0_def split: list.splits)

lemma silent_fetch_prevout [simp]: "silent (fetch_bitcoin_utxo_prevout E txid vout url)"
  unfolding fetch_bitcoin_utxo_prevout_def by (intro silent_bind) simp_all

lemma silent_sign_lock [simp]: "silent (sign_bitcoin_lock_tx E hex p keys url)"
  unfolding sign_bitcoin_lock_tx_def Let_def by (intro silent_bind silent_option) simp_all

text \<open>The refund of a Bitcoin lock: it spends the given output, cannot be mined before its
  locktime as far as the crate's conversion keeps it, and pays the locked amount less the fee.\<close>

lemma refund_tx_fields:
  assumes "btc_build_refund_tx E op p lt fee = Inr tx" and "fee \<le> amount_locking p"
    and "\<And>h l. lock_time_from_height (btc E) h = Some l \<Longrightarrow> l = h"
  shows "map previous_output (tx_input tx) = [op] \<and> lock_time tx = lt \<and>
    map (unat \<circ> out_value) (tx_output tx) = [unat (amount_locking p) - unat fee]"
  using assms
  by (auto simp: btc_build_refund_tx_def res_bind_Inr sub_chk_def linorder_not_less unat_sub
      split: if_splits)

lemma wp_submit_bitcoin [wp_simps]:
  "wp (submit_bitcoin_tx E hex url) R Q = (\<lambda>t.
     (let rq = \<lparr>rq_method = POST, rq_url = url_path url [''tx''], rq_headers = [],
                rq_body = TextBody hex\<rparr>; r = net_answer E t rq
      in Q (case r of None \<Rightarrow> False | Some x \<Rightarrow> rs_success x) (Http rq r # t)))"
  by (simp add: submit_bitcoin_tx_def http_post_def wp_simps Let_def fun_eq_iff)

end
