(* ===== verification/Cardano_Utils.thy ===== *)
theory Cardano_Utils
  imports Effects
begin

text \<open>
  \<open>src/swap-daemon/src/blockchains/cardano_utils.rs\<close>: the swap script and its address, the
  lock, spend, refund and transfer transactions, the witnesses, the fee computation against the
  protocol parameters of the network, and submission. \<open>cardano-serialization-lib\<close> and
  \<open>ed25519-dalek\<close> are parameters; the transactions the code builds are written out field by
  field. An address is its bytes, a transaction that has no witness yet has an empty set.
\<close>

section \<open>Constants\<close>

definition SWAP_SCRIPT_BYTES :: bytes where
  "SWAP_SCRIPT_BYTES = [
    89, 1, 102, 1, 1, 0, 41, 128, 10, 186, 42, 186, 26, 171, 159, 170, 185, 234, 171, 157, 171,
    154, 72, 136, 136, 150, 96, 2, 100, 101, 48, 1, 48, 7, 0, 25, 128, 57, 128, 64, 0, 205,
    195, 164, 0, 83, 0, 112, 2, 72, 136, 150, 96, 2, 96, 4, 96, 16, 110, 168, 0, 226, 101, 48,
    1, 48, 12, 0, 25, 128, 97, 128, 104, 0, 205, 195, 164, 0, 9, 17, 25, 145, 44, 192, 4, 192,
    12, 0, 98, 100, 100, 179, 0, 19, 1, 64, 2, 128, 36, 89, 1, 33, 186, 227, 1, 32, 1, 48, 15,
    55, 84, 1, 81, 89, 128, 9, 128, 64, 0, 196, 200, 201, 102, 0, 38, 2, 128, 5, 0, 72, 178, 2,
    67, 117, 198, 2, 64, 2, 96, 30, 110, 168, 2, 162, 200, 6, 144, 13, 10, 204, 0, 76, 0, 76,
    3, 13, 213, 0, 20, 76, 150, 96, 2, 96, 4, 96, 26, 110, 168, 2, 99, 48, 1, 55, 92, 96, 32,
    96, 28, 110, 168, 0, 102, 235, 140, 4, 12, 3, 141, 213, 0, 36, 221, 113, 128, 129, 128,
    113, 186, 160, 9, 93, 170, 38, 75, 48, 1, 48, 8, 48, 14, 55, 84, 0, 49, 89, 128, 9, 155,
    137, 55, 90, 96, 34, 96, 36, 96, 30, 110, 168, 0, 141, 214, 152, 8, 152, 7, 155, 170, 0,
    24, 204, 0, 77, 215, 24, 8, 152, 7, 155, 170, 0, 41, 185, 67, 55, 22, 144, 1, 27, 174, 48,
    17, 48, 15, 55, 84, 0, 179, 117, 198, 2, 38, 1, 230, 234, 128, 41, 118, 168, 178, 1, 168,
    178, 1, 163, 1, 3, 0, 227, 117, 70, 2, 6, 1, 198, 234, 140, 4, 12, 4, 76, 4, 76, 4, 76, 4,
    76, 4, 76, 4, 76, 4, 76, 3, 141, 213, 0, 50, 1, 131, 0, 243, 0, 211, 117, 64, 5, 22, 64,
    44, 96, 24, 110, 168, 2, 6, 1, 38, 234, 128, 14, 44, 128, 56, 96, 14, 0, 38, 0, 102, 234,
    128, 30, 41, 52, 77, 149, 144, 1, 1]"

definition MEM_UNITS_CEILING :: u64 where "MEM_UNITS_CEILING = 14000000"
definition CPU_UNITS_CEILING :: u64 where "CPU_UNITS_CEILING = 10000000000"
definition DEFAULT_MIN_FEE_A :: u64 where "DEFAULT_MIN_FEE_A = 44"
definition DEFAULT_MIN_FEE_B :: u64 where "DEFAULT_MIN_FEE_B = 155381"
definition DEFAULT_PRICE_MEM :: string where "DEFAULT_PRICE_MEM = ''0.0577''"
definition DEFAULT_PRICE_STEP :: string where "DEFAULT_PRICE_STEP = ''0.0000721''"
definition COLLATERAL_WITNESS_CBOR_BYTES :: u64 where "COLLATERAL_WITNESS_CBOR_BYTES = 105"
definition CARDANO_MAINNET :: u8 where "CARDANO_MAINNET = 1"
definition CARDANO_TESTNET :: u8 where "CARDANO_TESTNET = 0"

section \<open>Protocol parameters and fees\<close>

record protocol_params =
  cost_models :: costmdls
  min_fee_a :: u64
  min_fee_b :: u64
  price_mem :: string
  price_step :: string

text \<open>The floating-point part of the fee is the parameter \<open>exec_fee_f64\<close>.\<close>

definition compute_min_fee ::
  "env \<Rightarrow> car_tx \<Rightarrow> protocol_params \<Rightarrow> u64 \<Rightarrow> u64 \<Rightarrow> u64 res" where
  "compute_min_fee E tx params mem cpu =
     (let ov = overflow_checks E in
      res_bind (add_chk ov (of_nat (length (car_to_bytes (csl E) tx))) COLLATERAL_WITNESS_CBOR_BYTES)
        (\<lambda>tx_size.
      res_bind (mul_chk ov (min_fee_a params) tx_size) (\<lambda>scaled.
      res_bind (add_chk ov scaled (min_fee_b params)) (\<lambda>size_fee.
      add_chk ov size_fee (exec_fee_f64 E (price_mem params) (price_step params) mem cpu)))))"

definition plutus_v3_cost_model_values :: "int list" where
  "plutus_v3_cost_model_values = [
    100788, 420, 1, 1, 1000, 173, 0, 1, 1000, 59957, 4, 1, 11183, 32, 201305, 8356, 4, 16000,
    100, 16000, 100, 16000, 100, 16000, 100, 16000, 100, 16000, 100, 100, 100, 16000, 100,
    94375, 32, 132994, 32, 61462, 4, 72010, 178, 0, 1, 22151, 32, 91189, 769, 4, 2, 85848,
    123203, 7305, -900, 1716, 549, 57, 85848, 0, 1, 1, 1000, 42921, 4, 2, 24548, 29498, 38, 1,
    898148, 27279, 1, 51775, 558, 1, 39184, 1000, 60594, 1, 141895, 32, 83150, 32, 15299, 32,
    76049, 1, 13169, 4, 22100, 10, 28999, 74, 1, 28999, 74, 1, 43285, 552, 1, 44749, 541, 1,
    33852, 32, 68246, 32, 72362, 32, 7243, 32, 7391, 32, 11546, 32, 85848, 123203, 7305, -900,
    1716, 549, 57, 85848, 0, 1, 90434, 519, 0, 1, 74433, 32, 85848, 123203, 7305, -900, 1716,
    549, 57, 85848, 0, 1, 1, 85848, 123203, 7305, -900, 1716, 549, 57, 85848, 0, 1, 955506,
    213312, 0, 2, 270652, 22588, 4, 1457325, 64566, 4, 20467, 1, 4, 0, 141992, 32, 100788, 420,
    1, 1, 81663, 32, 59498, 32, 20142, 32, 24588, 32, 20744, 32, 25933, 32, 24623, 32,
    43053543, 10, 53384111, 14333, 10, 43574283, 26308, 10, 16000, 100, 16000, 100, 962335, 18,
    2780678, 6, 442008, 1, 52538055, 3756, 18, 267929, 18, 76433006, 8868, 18, 52948122, 18,
    1995836, 36, 3227919, 12, 901022, 1, 166917843, 4307, 36, 284546, 36, 158221314, 26549, 36,
    74698472, 36, 333849714, 1, 254006273, 72, 2174038, 72, 2261318, 64571, 4, 207616, 8310, 4,
    1293828, 28716, 63, 0, 1, 1006041, 43623, 251, 0, 1]"

text \<open>Negating the least \<open>i64\<close> overflows; the cast of the wrapped result is its magnitude.\<close>

definition cost_entry :: "bool \<Rightarrow> int \<Rightarrow> csl_int res" where
  "cost_entry ov v =
     (if v \<ge> 0 then Inr (IntPos (nat v))
      else if ov \<and> v = - (2 ^ 63) then Inl ArithOverflow
      else Inr (IntNeg (nat (- v))))"

definition costmdls_from_values :: "bool \<Rightarrow> int list \<Rightarrow> costmdls res" where
  "costmdls_from_values ov values =
     res_bind (res_map (cost_entry ov) values) (\<lambda>xs. Inr (PlutusV3Costs xs))"

definition plutus_v3_cost_model_hardcoded :: "bool \<Rightarrow> costmdls res" where
  "plutus_v3_cost_model_hardcoded ov = costmdls_from_values ov plutus_v3_cost_model_values"

definition protocol_params_fallback :: "bool \<Rightarrow> protocol_params res" where
  "protocol_params_fallback ov =
     res_bind (plutus_v3_cost_model_hardcoded ov) (\<lambda>cm.
     Inr \<lparr>cost_models = cm, min_fee_a = DEFAULT_MIN_FEE_A, min_fee_b = DEFAULT_MIN_FEE_B,
          price_mem = DEFAULT_PRICE_MEM, price_step = DEFAULT_PRICE_STEP\<rparr>)"

definition unwrap_or :: "'a \<Rightarrow> 'a option \<Rightarrow> 'a" where
  "unwrap_or d x = (case x of None \<Rightarrow> d | Some y \<Rightarrow> y)"

definition params_of_epoch :: "env \<Rightarrow> epoch_params \<Rightarrow> protocol_params res" where
  "params_of_epoch E p =
     res_bind (costmdls_from_values (overflow_checks E) (ep_plutus_v3 p)) (\<lambda>cm.
     Inr \<lparr>cost_models = cm,
          min_fee_a = unwrap_or DEFAULT_MIN_FEE_A (ep_min_fee_a p),
          min_fee_b = unwrap_or DEFAULT_MIN_FEE_B (ep_min_fee_b p),
          price_mem = unwrap_or DEFAULT_PRICE_MEM (Option.bind (ep_price_mem p) (parse_f64 E)),
          price_step = unwrap_or DEFAULT_PRICE_STEP (Option.bind (ep_price_step p) (parse_f64 E))\<rparr>)"

definition fetch_protocol_params :: "env \<Rightarrow> daemon_config \<Rightarrow> protocol_params act" where
  "fetch_protocol_params E cfg =
     bind (case cardano_network cfg of
             CarCustom _ rest _ \<Rightarrow> http_get E (url_path rest [''epochs'', ''latest'', ''parameters''])
           | n \<Rightarrow> bind (lift (blockfrost_base_url n)) (\<lambda>base.
                  http_get_key E (url_path base [''api'', ''v0'', ''epochs'', ''latest'', ''parameters''])
                    (blockfrost_api_key cfg)))
       (\<lambda>resp.
     case resp of
       None \<Rightarrow> lift (protocol_params_fallback (overflow_checks E))
     | Some r \<Rightarrow>
         if \<not> rs_success r then lift (protocol_params_fallback (overflow_checks E))
         else (case Option.bind (rs_json r) (epoch_params_of_json E) of
                 None \<Rightarrow> lift (protocol_params_fallback (overflow_checks E))
               | Some p \<Rightarrow> lift (params_of_epoch E p)))"

section \<open>Addresses and hashes\<close>

definition script_address :: "env \<Rightarrow> u8 \<Rightarrow> bytes" where
  "script_address E network = script_enterprise_address (csl E) network SWAP_SCRIPT_BYTES"

definition cardano_address_from_ed25519 :: "env \<Rightarrow> bytes \<Rightarrow> u8 \<Rightarrow> bytes res" where
  "cardano_address_from_ed25519 E key network = unwrap (key_enterprise_address (csl E) network key)"

definition compute_cardano_sighash :: "env \<Rightarrow> car_tx \<Rightarrow> bytes" where
  "compute_cardano_sighash E tx = blake2b256 E (body_to_bytes (csl E) (ct_body tx))"

section \<open>Building transactions\<close>

definition no_witness :: car_witness where
  "no_witness = \<lparr>cw_vkeys = None, cw_scripts = None, cw_redeemers = None\<rparr>"

text \<open>\<open>TransactionBody::new_tx_body\<close>.\<close>

definition new_tx_body :: "(bytes \<times> u32) list \<Rightarrow> car_output list \<Rightarrow> u64 \<Rightarrow> car_body" where
  "new_tx_body ins outs fee =
     \<lparr>cb_inputs = ins, cb_outputs = outs, cb_fee = fee, cb_collateral = None,
      cb_validity_start = None, cb_script_data_hash = None\<rparr>"

text \<open>The output builder: an address, a datum if any, and a value.\<close>

definition build_output :: "env \<Rightarrow> bytes \<Rightarrow> plutus_data option \<Rightarrow> u64 \<Rightarrow> car_output res" where
  "build_output E addr datum val = unwrap (output_build (csl E) addr datum val)"

definition build_lock_tx ::
  "env \<Rightarrow> string \<Rightarrow> u32 \<Rightarrow> u64 \<Rightarrow> pubkey \<Rightarrow> u64 \<Rightarrow> u8 \<Rightarrow> u64 \<Rightarrow> car_tx res" where
  "build_lock_tx E funding_txhash funding_index amount aggregate_pubkey fee network deadline =
     res_bind (unwrap (tx_hash_from_hex (csl E) funding_txhash)) (\<lambda>txh.
     let xonly_bytes = drop 1 (pk_serialize (musig E) aggregate_pubkey) in
     res_bind (unwrap (big_int_from_str (csl E) (show_nat (unat deadline)))) (\<lambda>deadline_int.
     let datum = PConstr 0 [PBytes xonly_bytes, PInt deadline_int];
         addr = script_address E network in
     res_bind (sub_chk (overflow_checks E) amount fee) (\<lambda>val.
     res_bind (build_output E addr (Some datum) val) (\<lambda>out.
     Inr \<lparr>ct_body = new_tx_body [(txh, funding_index)] [out] fee, ct_witness = no_witness\<rparr>))))"

text \<open>\<open>body.set_collateral\<close> when a collateral is given.\<close>

definition set_collateral_opt :: "env \<Rightarrow> (string \<times> u32) option \<Rightarrow> car_body \<Rightarrow> car_body res" where
  "set_collateral_opt E collateral_utxo body =
     (case collateral_utxo of
        None \<Rightarrow> Inr body
      | Some (txid, index) \<Rightarrow>
          res_bind (unwrap (tx_hash_from_hex (csl E) txid)) (\<lambda>h.
          Inr (body\<lparr>cb_collateral := Some [(h, index)]\<rparr>)))"

definition build_spend_tx ::
  "env \<Rightarrow> participant \<Rightarrow> bytes \<Rightarrow> u64 \<Rightarrow> u64 \<Rightarrow> (string \<times> u32) option \<Rightarrow> car_tx res" where
  "build_spend_tx E p lock_txhash fee output_amount collateral_utxo =
     res_bind (cardano_address_from_ed25519 E (p_wallet_public_key p) CARDANO_TESTNET) (\<lambda>recipient.
     res_bind (build_output E recipient None output_amount) (\<lambda>out.
     res_bind (set_collateral_opt E collateral_utxo (new_tx_body [(lock_txhash, 0)] [out] fee))
       (\<lambda>body.
     Inr \<lparr>ct_body = body, ct_witness = no_witness\<rparr>)))"

definition build_refund_tx ::
  "env \<Rightarrow> participant \<Rightarrow> bytes \<Rightarrow> u64 \<Rightarrow> u64 \<Rightarrow> (string \<times> u32) option \<Rightarrow> car_tx res" where
  "build_refund_tx E p lock_txhash refund_slot fee collateral_utxo =
     (let ov = overflow_checks E in
      res_bind (cardano_address_from_ed25519 E (p_wallet_public_key p) CARDANO_TESTNET) (\<lambda>recipient.
      res_bind (mul_chk ov 2 fee) (\<lambda>two_fees.
      res_bind (sub_chk ov (amount_locking p) two_fees) (\<lambda>output_amount.
      res_bind (build_output E recipient None output_amount) (\<lambda>out.
      res_bind (set_collateral_opt E collateral_utxo
                 ((new_tx_body [(lock_txhash, 0)] [out] fee)\<lparr>cb_validity_start := Some refund_slot\<rparr>))
        (\<lambda>body.
      Inr \<lparr>ct_body = body, ct_witness = no_witness\<rparr>))))))"

definition build_multi_output_transfer_tx ::
  "env \<Rightarrow> string \<Rightarrow> u32 \<Rightarrow> (bytes \<times> u64) list \<Rightarrow> u64 \<Rightarrow> u8 \<Rightarrow> car_tx res" where
  "build_multi_output_transfer_tx E input_txid input_vout outputs fee network =
     res_bind (unwrap (tx_hash_from_hex (csl E) input_txid)) (\<lambda>h.
     res_bind (res_map (\<lambda>(key, amount).
                 res_bind (cardano_address_from_ed25519 E key network) (\<lambda>addr.
                 build_output E addr None amount)) outputs) (\<lambda>outs.
     Inr \<lparr>ct_body = new_tx_body [(h, input_vout)] outs fee, ct_witness = no_witness\<rparr>))"

definition build_simple_transfer_tx ::
  "env \<Rightarrow> string \<Rightarrow> u32 \<Rightarrow> bytes \<Rightarrow> u64 \<Rightarrow> bytes \<Rightarrow> u64 \<Rightarrow> u64 \<Rightarrow> u8 \<Rightarrow> car_tx res" where
  "build_simple_transfer_tx E input_txid input_vout receiver_key receiver_amount
     change_key change_amount fee network =
     res_bind (unwrap (tx_hash_from_hex (csl E) input_txid)) (\<lambda>h.
     res_bind (cardano_address_from_ed25519 E receiver_key network) (\<lambda>receiver_addr.
     res_bind (cardano_address_from_ed25519 E change_key network) (\<lambda>change_addr.
     res_bind (build_output E receiver_addr None receiver_amount) (\<lambda>out1.
     res_bind (build_output E change_addr None change_amount) (\<lambda>out2.
     Inr \<lparr>ct_body = new_tx_body [(h, input_vout)] [out1, out2] fee,
          ct_witness = no_witness\<rparr>)))))"

section \<open>Witnesses\<close>

text \<open>Decoding a hexadecimal transaction: both steps are unwrapped.\<close>

definition decode_car_tx :: "env \<Rightarrow> hex_string \<Rightarrow> car_tx res" where
  "decode_car_tx E tx_hex =
     res_bind (unwrap (hex_decode E tx_hex)) (\<lambda>b. unwrap (car_from_bytes (csl E) b))"

definition encode_car_tx :: "env \<Rightarrow> car_tx \<Rightarrow> hex_string" where
  "encode_car_tx E tx = hex_encode E (car_to_bytes (csl E) tx)"

text \<open>The Ed25519 witness over the hash of the body: the signing key must have 32 bytes, the
  verifying key must parse.\<close>

definition vkey_witness :: "env \<Rightarrow> car_tx \<Rightarrow> bytes \<Rightarrow> bytes \<Rightarrow> (bytes \<times> bytes) res" where
  "vkey_witness E tx signing_key verifying_key =
     (let tx_hash = blake2b256 E (body_to_bytes (csl E) (ct_body tx)) in
      if length signing_key \<noteq> 32 then Inl UnwrapNone
      else res_bind (unwrap (ed25519_pubkey (csl E) verifying_key)) (\<lambda>vkey.
           Inr (vkey, ed25519_sign (csl E) signing_key tx_hash)))"

definition sign_cardano_lock_tx :: "env \<Rightarrow> hex_string \<Rightarrow> swap_keys \<Rightarrow> hex_string res" where
  "sign_cardano_lock_tx E unsigned_tx_hex keys =
     res_bind (decode_car_tx E unsigned_tx_hex) (\<lambda>tx.
     res_bind (vkey_witness E tx (wallet_secret_key keys) (wallet_public_key keys)) (\<lambda>vw.
     Inr (encode_car_tx E \<lparr>ct_body = ct_body tx,
            ct_witness = no_witness\<lparr>cw_vkeys := Some [vw]\<rparr>\<rparr>)))"

definition add_collateral_witness :: "env \<Rightarrow> hex_string \<Rightarrow> bytes \<Rightarrow> bytes \<Rightarrow> hex_string res" where
  "add_collateral_witness E tx_hex signing_key verifying_key =
     res_bind (decode_car_tx E tx_hex) (\<lambda>tx.
     res_bind (vkey_witness E tx signing_key verifying_key) (\<lambda>vw.
     let existing = ct_witness tx;
         vkeys = (case cw_vkeys existing of None \<Rightarrow> [] | Some vs \<Rightarrow> vs) @ [vw] in
     Inr (encode_car_tx E \<lparr>ct_body = ct_body tx,
            ct_witness = \<lparr>cw_vkeys = Some vkeys, cw_scripts = cw_scripts existing,
                          cw_redeemers = cw_redeemers existing\<rparr>\<rparr>)))"

definition redeemer_data :: "bytes \<Rightarrow> bool \<Rightarrow> plutus_data" where
  "redeemer_data final_sig is_refund = PConstr (if is_refund then 1 else 0) [PBytes final_sig]"

text \<open>The body of the final transaction: the single output takes whatever the fee leaves of the
  input, collateral and validity start are kept.\<close>

definition final_body ::
  "env \<Rightarrow> car_body \<Rightarrow> redeemer \<Rightarrow> u64 \<Rightarrow> costmdls \<Rightarrow> car_body res" where
  "final_body E ub rd fee cost_mdls =
     (let ov = overflow_checks E in
      res_bind (index_list (cb_outputs ub) 0) (\<lambda>out0.
      res_bind (add_chk ov (co_value out0) (cb_fee ub)) (\<lambda>total.
      res_bind (sub_chk ov total fee) (\<lambda>new_output.
      res_bind (build_output E (co_address out0) None new_output) (\<lambda>out.
      Inr ((new_tx_body (cb_inputs ub) [out] fee)
             \<lparr>cb_collateral := cb_collateral ub, cb_validity_start := cb_validity_start ub,
              cb_script_data_hash := Some (hash_script_data (csl E) [rd] cost_mdls)\<rparr>))))))"

definition attach_final_sig_with_units ::
  "env \<Rightarrow> hex_string \<Rightarrow> bytes \<Rightarrow> u64 \<Rightarrow> u64 \<Rightarrow> u64 \<Rightarrow> costmdls \<Rightarrow> bool \<Rightarrow> hex_string res" where
  "attach_final_sig_with_units E unsigned_tx_hex final_sig mem cpu fee cost_mdls is_refund =
     res_bind (decode_car_tx E unsigned_tx_hex) (\<lambda>tx.
     res_bind (index_list (cb_inputs (ct_body tx)) 0) (\<lambda>input.
     let rd = \<lparr>rd_data = redeemer_data final_sig is_refund, rd_mem = mem, rd_cpu = cpu\<rparr> in
     res_bind (final_body E (ct_body tx) rd fee cost_mdls) (\<lambda>body.
     Inr (encode_car_tx E \<lparr>ct_body = body,
            ct_witness = \<lparr>cw_vkeys = None, cw_scripts = Some [SWAP_SCRIPT_BYTES],
                          cw_redeemers = Some [rd]\<rparr>\<rparr>))))"

section \<open>Execution units and the final signature\<close>

definition units_of_json :: "env \<Rightarrow> json \<Rightarrow> (u64 \<times> u64) option" where
  "units_of_json E j =
     Option.bind (j_get (json E) j ''result'') (\<lambda>r.
     Option.bind (j_get (json E) r ''EvaluationResult'') (\<lambda>ev.
     Option.bind (j_get (json E) ev ''spend:0'') (\<lambda>spend.
     Option.bind (j_get (json E) spend ''memory'') (\<lambda>m.
     Option.bind (as_u64 (json E) m) (\<lambda>mem.
     Option.bind (case j_get (json E) spend ''steps'' of
                    Some x \<Rightarrow> Some x | None \<Rightarrow> j_get (json E) spend ''cpu'') (\<lambda>c.
     Option.bind (as_u64 (json E) c) (\<lambda>cpu. Some (mem, cpu))))))))"

definition evaluate_redeemer_units :: "env \<Rightarrow> daemon_config \<Rightarrow> hex_string \<Rightarrow> (u64 \<times> u64) act" where
  "evaluate_redeemer_units E cfg tx_hex =
     (case cardano_network cfg of
        CarCustom _ _ _ \<Rightarrow> ret (MEM_UNITS_CEILING, CPU_UNITS_CEILING)
      | n \<Rightarrow>
          bind (lift (blockfrost_base_url n)) (\<lambda>base.
          case hex_decode E tx_hex of
            None \<Rightarrow> ret (MEM_UNITS_CEILING, CPU_UNITS_CEILING)
          | Some tx_bytes \<Rightarrow>
              bind (http_post E (url_path base [''api'', ''v0'', ''utils'', ''txs'', ''evaluate''])
                      [(''project_id'', blockfrost_api_key cfg),
                       (''content-type'', ''application/cbor'')] (BinBody tx_bytes)) (\<lambda>resp.
              ret (unwrap_or (MEM_UNITS_CEILING, CPU_UNITS_CEILING)
                     (Option.bind resp (\<lambda>r. if \<not> rs_success r then None
                                          else Option.bind (rs_json r) (units_of_json E)))))))"

definition attach_final_sig ::
  "env \<Rightarrow> hex_string \<Rightarrow> bytes \<Rightarrow> daemon_config \<Rightarrow> u64 \<Rightarrow> bool \<Rightarrow> hex_string act" where
  "attach_final_sig E unsigned_tx_hex final_sig cfg fee0 is_refund =
     bind (fetch_protocol_params E cfg) (\<lambda>params.
     bind (lift (attach_final_sig_with_units E unsigned_tx_hex final_sig
                   MEM_UNITS_CEILING CPU_UNITS_CEILING
                   (MEM_UNITS_CEILING * DEFAULT_MIN_FEE_A + DEFAULT_MIN_FEE_B)
                   (cost_models params) is_refund)) (\<lambda>draft.
     bind (evaluate_redeemer_units E cfg draft) (\<lambda>(mem, cpu).
     bind (lift (attach_final_sig_with_units E unsigned_tx_hex final_sig mem cpu fee0
                   (cost_models params) is_refund)) (\<lambda>sized_tx_hex.
     bind (lift (decode_car_tx E sized_tx_hex)) (\<lambda>sized_tx.
     bind (lift (compute_min_fee E sized_tx params mem cpu)) (\<lambda>fee.
     lift (attach_final_sig_with_units E unsigned_tx_hex final_sig mem cpu fee
             (cost_models params) is_refund)))))))"

section \<open>Submission\<close>

definition submit_cardano_tx_blockfrost ::
  "env \<Rightarrow> hex_string \<Rightarrow> string \<Rightarrow> string \<Rightarrow> bool act" where
  "submit_cardano_tx_blockfrost E tx_hex base_url api_key =
     bind (lift (unwrap (hex_decode E tx_hex))) (\<lambda>tx_bytes.
     bind (http_post E (url_path base_url [''api'', ''v0'', ''tx'', ''submit''])
             [(''project_id'', api_key), (''Content-Type'', ''application/cbor'')]
             (BinBody tx_bytes)) (\<lambda>resp.
     ret (case resp of None \<Rightarrow> False | Some r \<Rightarrow> rs_success r)))"

definition submit_cardano_tx_dolos :: "env \<Rightarrow> hex_string \<Rightarrow> string \<Rightarrow> bool act" where
  "submit_cardano_tx_dolos E tx_hex base_url =
     bind (lift (unwrap (hex_decode E tx_hex))) (\<lambda>tx_bytes.
     if \<not> grpc_uri_ok E base_url then lift (Inl UnwrapNone)
     else grpc_submit E base_url tx_bytes)"

definition submit_cardano_tx :: "env \<Rightarrow> hex_string \<Rightarrow> daemon_config \<Rightarrow> bool act" where
  "submit_cardano_tx E tx_hex cfg =
     (case cardano_network cfg of
        CarCustom _ _ _ \<Rightarrow>
          bind (lift (unwrap (dolos_grpc_url (cardano_network cfg)))) (\<lambda>url.
          submit_cardano_tx_dolos E tx_hex url)
      | n \<Rightarrow>
          bind (lift (blockfrost_base_url n)) (\<lambda>base.
          submit_cardano_tx_blockfrost E tx_hex base (blockfrost_api_key cfg)))"

section \<open>What the builders build\<close>

text \<open>The documented behaviour of the output builder: it keeps the address, the datum and the
  value it is given.\<close>

definition builder_keeps :: "csl_lib \<Rightarrow> bool" where
  "builder_keeps c \<longleftrightarrow> (\<forall>a d v o'. output_build c a d v = Some o' \<longrightarrow>
     co_address o' = a \<and> co_datum o' = d \<and> co_value o' = v)"

lemma build_output_Inr:
  "builder_keeps (csl E) \<Longrightarrow> build_output E a d v = Inr o' \<Longrightarrow>
   co_address o' = a \<and> co_datum o' = d \<and> co_value o' = v"
  unfolding builder_keeps_def build_output_def unwrap_Inr by blast

lemma sub_chk_Inr_exact:
  "sub_chk ov a b = Inr c \<Longrightarrow> ov \<or> b \<le> a \<Longrightarrow> b \<le> a \<and> unat c + unat b = unat (a :: 'a::len word)"
  by (auto simp: sub_chk_def unat_sub word_le_nat_alt word_less_nat_alt not_less split: if_splits)

lemma add_chk_Inr_exact:
  "add_chk ov a b = Inr c \<Longrightarrow> ov \<or> unat a + unat b < 2 ^ LENGTH('a) \<Longrightarrow>
   unat c = unat a + unat (b :: 'a::len word)"
  by (auto simp: add_chk_def unat_word_ariths split: if_splits)

lemma mul_chk_Inr_exact:
  "mul_chk ov a b = Inr c \<Longrightarrow> ov \<or> unat a * unat b < 2 ^ LENGTH('a) \<Longrightarrow>
   unat c = unat a * unat (b :: 'a::len word)"
  by (auto simp: mul_chk_def unat_word_ariths split: if_splits)

lemmas chk_exact = sub_chk_Inr_exact add_chk_Inr_exact mul_chk_Inr_exact

lemma set_collateral_opt_Inr:
  "set_collateral_opt E c b = Inr b' \<Longrightarrow>
   cb_inputs b' = cb_inputs b \<and> cb_outputs b' = cb_outputs b \<and> cb_fee b' = cb_fee b \<and>
   cb_validity_start b' = cb_validity_start b \<and> (cb_collateral b' = None \<longleftrightarrow> c = None \<and> cb_collateral b = None)"
  by (auto simp: set_collateral_opt_def res_bind_Inr split: option.splits prod.splits)

lemma new_tx_body_simps [simp]:
  "cb_inputs (new_tx_body i o' f) = i" "cb_outputs (new_tx_body i o' f) = o'"
  "cb_fee (new_tx_body i o' f) = f" "cb_collateral (new_tx_body i o' f) = None"
  "cb_validity_start (new_tx_body i o' f) = None" "cb_script_data_hash (new_tx_body i o' f) = None"
  by (simp_all add: new_tx_body_def)

lemma build_lock_tx_fields:
  assumes "builder_keeps (csl E)" and "build_lock_tx E h i amount pk fee net dl = Inr tx"
    and "overflow_checks E \<or> fee \<le> amount"
  obtains out where "cb_outputs (ct_body tx) = [out]" "cb_fee (ct_body tx) = fee"
    "co_address out = script_address E net"
    "unat (co_value out) + unat fee = unat amount"
    "big_int_from_str (csl E) (show_nat (unat dl)) = Some d \<Longrightarrow>
     co_datum out = Some (PConstr 0 [PBytes (drop 1 (pk_serialize (musig E) pk)), PInt d])"
  using assms
  by (auto simp: build_lock_tx_def Let_def res_bind_Inr dest!: build_output_Inr dest: sub_chk_Inr_exact)

lemma build_refund_tx_fields:
  assumes "builder_keeps (csl E)" and "build_refund_tx E p txh slot fee c = Inr tx"
    and "overflow_checks E \<or> 2 * unat fee \<le> unat (amount_locking p)"
  obtains out where "cb_outputs (ct_body tx) = [out]" "cb_inputs (ct_body tx) = [(txh, 0)]"
    "cb_fee (ct_body tx) = fee" "cb_validity_start (ct_body tx) = Some slot"
    "co_datum out = None"
    "key_enterprise_address (csl E) CARDANO_TESTNET (p_wallet_public_key p) = Some (co_address out)"
    "unat (co_value out) + 2 * unat fee = unat (amount_locking p)"
proof -
  from assms(2) obtain addr two val out b where
    addr: "key_enterprise_address (csl E) CARDANO_TESTNET (p_wallet_public_key p) = Some addr"
    and two: "mul_chk (overflow_checks E) 2 fee = Inr two"
    and val: "sub_chk (overflow_checks E) (amount_locking p) two = Inr val"
    and out: "build_output E addr None val = Inr out"
    and b: "set_collateral_opt E c ((new_tx_body [(txh, 0)] [out] fee)\<lparr>cb_validity_start := Some slot\<rparr>) = Inr b"
    and tx: "tx = \<lparr>ct_body = b, ct_witness = no_witness\<rparr>"
    by (auto simp: build_refund_tx_def Let_def res_bind_Inr cardano_address_from_ed25519_def)
  have small: "overflow_checks E \<or> unat (2 :: u64) * unat fee < 2 ^ LENGTH(64)"
    using assms(3) unsigned_less [of "amount_locking p", where ?'a = nat] by auto
  have two': "unat two = 2 * unat fee"
    using mul_chk_Inr_exact [OF two small] by simp
  have "overflow_checks E \<or> two \<le> amount_locking p"
    using assms(3) two' by (simp add: word_le_nat_alt)
  from sub_chk_Inr_exact [OF val this] have val': "unat val + 2 * unat fee = unat (amount_locking p)"
    by (simp add: two')
  note o' = build_output_Inr [OF assms(1) out]
  show ?thesis
    by (rule that [of out]) (use set_collateral_opt_Inr [OF b] tx o' val' addr in auto)
qed

text \<open>What the lock holds is what the refund pays back and its fee.\<close>

lemma lock_then_refund_value:
  assumes "builder_keeps (csl E)" and "overflow_checks E"
    and "build_lock_tx E h i (amount_locking p) pk fee net dl = Inr lock"
    and "build_refund_tx E p txh slot fee c = Inr refund"
  shows "map (unat \<circ> co_value) (cb_outputs (ct_body lock)) =
     [sum_list (map (unat \<circ> co_value) (cb_outputs (ct_body refund))) + unat (cb_fee (ct_body refund))]"
proof -
  obtain o1 where o1: "cb_outputs (ct_body lock) = [o1]"
      "unat (co_value o1) + unat fee = unat (amount_locking p)"
    using build_lock_tx_fields [OF assms(1,3)] assms(2) by blast
  obtain o2 where o2: "cb_outputs (ct_body refund) = [o2]" "cb_fee (ct_body refund) = fee"
      "unat (co_value o2) + 2 * unat fee = unat (amount_locking p)"
    using build_refund_tx_fields [OF assms(1,4)] assms(2) by blast
  from o1(2) o2(3) have "unat (co_value o1) = unat (co_value o2) + unat fee" by linarith
  then show ?thesis using o1(1) o2(1,2) by simp
qed

section \<open>Attaching the final signature\<close>

lemma decode_car_tx_Inr:
  "decode_car_tx E hex = Inr tx \<longleftrightarrow>
   (\<exists>b. hex_decode E hex = Some b \<and> car_from_bytes (csl E) b = Some tx)"
  by (auto simp: decode_car_tx_def res_bind_Inr)

lemma final_body_Inr:
  assumes "builder_keeps (csl E)" and "final_body E ub rd fee cm = Inr b"
    and "cb_outputs ub = o0 # os"
    and "overflow_checks E \<or>
      unat (co_value o0) + unat (cb_fee ub) < 2 ^ 64 \<and> unat fee \<le> unat (co_value o0) + unat (cb_fee ub)"
  obtains out where "cb_outputs b = [out]" "cb_inputs b = cb_inputs ub" "cb_fee b = fee"
    "cb_collateral b = cb_collateral ub" "cb_validity_start b = cb_validity_start ub"
    "cb_script_data_hash b = Some (hash_script_data (csl E) [rd] cm)"
    "co_address out = co_address o0"
    "unat (co_value out) + unat fee = unat (co_value o0) + unat (cb_fee ub)"
proof -
  from assms(2,3) obtain total val out where
    total: "add_chk (overflow_checks E) (co_value o0) (cb_fee ub) = Inr total"
    and val: "sub_chk (overflow_checks E) total fee = Inr val"
    and out: "build_output E (co_address o0) None val = Inr out"
    and b: "b = (new_tx_body (cb_inputs ub) [out] fee)
             \<lparr>cb_collateral := cb_collateral ub, cb_validity_start := cb_validity_start ub,
              cb_script_data_hash := Some (hash_script_data (csl E) [rd] cm)\<rparr>"
    by (auto simp: final_body_def Let_def res_bind_Inr index_list_Inr)
  have t: "unat total = unat (co_value o0) + unat (cb_fee ub)"
    using add_chk_Inr_exact [OF total] assms(4) by auto
  have v: "unat val + unat fee = unat total"
    using sub_chk_Inr_exact [OF val] assms(4) t by (auto simp: word_le_nat_alt)
  show ?thesis
    by (rule that [of out]) (use b build_output_Inr [OF assms(1) out] t v in auto)
qed

text \<open>The fee the draft is given, before the script is evaluated.\<close>

definition draft_fee :: u64 where
  "draft_fee = MEM_UNITS_CEILING * DEFAULT_MIN_FEE_A + DEFAULT_MIN_FEE_B"

lemma draft_fee_value: "unat draft_fee = 616155381"
  by (simp add: draft_fee_def MEM_UNITS_CEILING_def DEFAULT_MIN_FEE_A_def DEFAULT_MIN_FEE_B_def)

lemma cost_entry_panic: "cost_entry ov v = Inl p \<Longrightarrow> ov \<and> p = ArithOverflow"
  by (auto simp: cost_entry_def split: if_splits)

lemma res_map_panic: "(\<And>x p. f x = Inl p \<Longrightarrow> P p) \<Longrightarrow> res_map f xs = Inl p \<Longrightarrow> P p"
  by (induction xs) (auto simp: res_bind_def split: sum.splits)

lemma costmdls_panic: "costmdls_from_values ov vs = Inl p \<Longrightarrow> ov \<and> p = ArithOverflow"
  using res_map_panic [of "cost_entry ov" "\<lambda>p. ov \<and> p = ArithOverflow" vs p] cost_entry_panic
  by (auto simp: costmdls_from_values_def res_bind_def split: sum.splits)

text \<open>The built-in cost model never panics, whatever the profile.\<close>

lemma hardcoded_total: "\<exists>cm. plutus_v3_cost_model_hardcoded ov = Inr (PlutusV3Costs cm) \<and> length cm = 251"
proof -
  have "\<forall>v \<in> set plutus_v3_cost_model_values. v \<noteq> - (2 ^ 63)"
    by (simp add: plutus_v3_cost_model_values_def)
  then have "res_map (cost_entry ov) plutus_v3_cost_model_values =
      Inr (map (\<lambda>v. if v \<ge> 0 then IntPos (nat v) else IntNeg (nat (- v))) plutus_v3_cost_model_values)"
    by (intro res_map_all) (auto simp: cost_entry_def)
  then show ?thesis
    by (simp add: plutus_v3_cost_model_hardcoded_def costmdls_from_values_def
        plutus_v3_cost_model_values_def)
qed

lemma fallback_total: "\<exists>pp. protocol_params_fallback ov = Inr pp"
  using hardcoded_total [of ov] by (auto simp: protocol_params_fallback_def)

text \<open>Fetching the parameters can only panic on an entry of the fetched cost model.\<close>

lemma wp_fetch_protocol_params:
  "wp (fetch_protocol_params E cfg) (\<lambda>p _. overflow_checks E \<and> p = ArithOverflow) (\<lambda>_ _. True) t"
proof -
  obtain pp where pp: "protocol_params_fallback (overflow_checks E) = Inr pp"
    using fallback_total by blast
  have p: "params_of_epoch E x = Inl p \<Longrightarrow> overflow_checks E \<and> p = ArithOverflow" for x p
    using costmdls_panic by (auto simp: params_of_epoch_def res_bind_def split: sum.splits)
  show ?thesis
    using p
    by (cases "cardano_network cfg")
      (auto simp: fetch_protocol_params_def http_get_def http_get_key_def wp_simps pp
        split: option.splits sum.splits)
qed

text \<open>Below the draft's fee the subtraction underflows, and with overflow checks nothing is ever
  signed.\<close>

lemma attach_final_sig_underflow:
  assumes "overflow_checks E" and "decode_car_tx E hex = Inr tx"
    and "cb_inputs (ct_body tx) = i # is" and "cb_outputs (ct_body tx) = o0 # os"
    and "unat (co_value o0) + unat (cb_fee (ct_body tx)) < 616155381"
  shows "\<exists>t'. attach_final_sig E hex sig cfg fee0 r t = (Inl ArithOverflow, t')"
proof -
  have chk: "final_body E (ct_body tx) rd draft_fee cm = Inl ArithOverflow" for rd cm
  proof -
    obtain total where total: "add_chk True (co_value o0) (cb_fee (ct_body tx)) = Inr total"
      "unat total = unat (co_value o0) + unat (cb_fee (ct_body tx))"
      using add_chk_exact [of "co_value o0" "cb_fee (ct_body tx)" True] assms(5) by auto
    then have "total < draft_fee" using assms(5) by (simp add: word_less_nat_alt draft_fee_value)
    then show ?thesis
      using total assms by (simp add: final_body_def Let_def index_list_def sub_chk_def)
  qed
  have "attach_final_sig_with_units E hex sig m c draft_fee cm r = Inl ArithOverflow" for m c cm
    using assms chk by (simp add: attach_final_sig_with_units_def Let_def index_list_def)
  then have "wp (attach_final_sig E hex sig cfg fee0 r) (\<lambda>p _. p = ArithOverflow) (\<lambda>_ _. False) t"
    unfolding attach_final_sig_def
    by (simp add: wp_simps flip: draft_fee_def) (rule wp_mono [OF wp_fetch_protocol_params], auto)
  then show ?thesis
    by (auto simp: wp_def split: prod.splits sum.splits)
qed

text \<open>Adding the collateral witness changes nothing but the list of key witnesses, at its
  end.\<close>

lemma add_collateral_witness_Inr:
  assumes "add_collateral_witness E hex sk vk = Inr h" and "decode_car_tx E hex = Inr tx"
  shows "\<exists>key sig. h = encode_car_tx E (tx\<lparr>ct_witness := (ct_witness tx)\<lparr>cw_vkeys :=
      Some (unwrap_or [] (cw_vkeys (ct_witness tx)) @ [(key, sig)])\<rparr>\<rparr>) \<and>
    sig = ed25519_sign (csl E) sk (compute_cardano_sighash E tx)"
proof -
  obtain b w where tx: "tx = \<lparr>ct_body = b, ct_witness = w\<rparr>" by (cases tx) blast
  obtain v s r where w: "w = \<lparr>cw_vkeys = v, cw_scripts = s, cw_redeemers = r\<rparr>" by (cases w) blast
  show ?thesis
    using assms
    by (auto simp: add_collateral_witness_def res_bind_Inr Let_def vkey_witness_def unwrap_or_def
        compute_cardano_sighash_def tx w split: if_splits option.splits)
qed

lemma wp_submit_cardano_False:
  "wp (submit_cardano_tx E hex cfg) (\<lambda>_ t'. True)
     (\<lambda>ok t'. \<exists>e. t' = e # t \<and> outward e) t"
  by (cases "cardano_network cfg")
    (auto simp: submit_cardano_tx_def submit_cardano_tx_blockfrost_def submit_cardano_tx_dolos_def
      http_post_def wp_simps split: sum.splits option.splits)

lemma silent_fetch_params [simp]: "silent (fetch_protocol_params E cfg)"
  unfolding fetch_protocol_params_def
  by (cases "cardano_network cfg") (auto intro!: silent_bind silent_option silent_if split: option.splits)

end
