(* ===== verification/Multisig.thy ===== *)
theory Multisig
  imports Session_Utils Bitcoin_Utils Cardano_Utils
begin

text \<open>
  \<open>src/swap-daemon/src/cryptography/multisig.rs\<close>: the second round of MuSig2, aggregation of the
  partial signatures into an adaptor or a final signature, adaptation with the aggregate secret,
  and the extraction of the secret from a published signature. The group and the signature
  schemes are parameters; the documented laws of the adaptor signatures are stated as predicates
  where a lemma needs them.
\<close>

section \<open>The code\<close>

text \<open>The entries of one role in a map from senders to maps from roles, in iteration order.\<close>

definition role_entries ::
  "env \<Rightarrow> (participant_id, (tx_role, string) hmap) hmap \<Rightarrow> tx_role \<Rightarrow> string list" where
  "role_entries E m role = List.map_filter (\<lambda>inner. hm_get inner role) (hm_values E m)"

definition aggregate_nonces :: "env \<Rightarrow> session \<Rightarrow> tx_role \<Rightarrow> agg_nonce res" where
  "aggregate_nonces E s role =
     res_bind (res_map (\<lambda>str. unwrap (nonce_parse (musig E) str))
                (role_entries E (schnorr_nonces s) role)) (\<lambda>nonces.
     Inr (nonce_sum (musig E) nonces))"

text \<open>A panic inside \<open>spawn_blocking\<close> surfaces as the panic of the outer \<open>unwrap\<close>.\<close>

definition blocking :: "'a res \<Rightarrow> 'a res" where
  "blocking r = (case r of Inl _ \<Rightarrow> Inl UnwrapNone | Inr x \<Rightarrow> Inr x)"

definition key_agg_of :: "env \<Rightarrow> string list \<Rightarrow> bool \<Rightarrow> key_agg_ctx res" where
  "key_agg_of E pk_strings tweak =
     res_bind (res_map (\<lambda>str. unwrap (pk_parse (musig E) str)) pk_strings) (\<lambda>pubkeys.
     if tweak then taproot_key_agg_ctx E pubkeys else unwrap (key_agg_new (musig E) pubkeys))"

definition adaptor_point_for :: "env \<Rightarrow> session \<Rightarrow> tx_role \<Rightarrow> pubkey option res" where
  "adaptor_point_for E s role =
     (if is_spend role
      then res_bind (aggregate_adaptor_point E (adaptor_points s)) (\<lambda>ap. Inr (Some ap))
      else Inr None)"

text \<open>The signing task of the second round.\<close>

definition partial_sign_hex ::
  "env \<Rightarrow> seckey \<Rightarrow> string list \<Rightarrow> bool \<Rightarrow> bytes \<Rightarrow> agg_nonce \<Rightarrow> pubkey option \<Rightarrow> bytes \<Rightarrow> hex_string res" where
  "partial_sign_hex E sk pks tweak sec_nonce_bytes agg ap m =
     res_bind (key_agg_of E pks tweak) (\<lambda>ctx.
     res_bind (unwrap (sec_nonce_from_bytes (musig E) sec_nonce_bytes)) (\<lambda>sn.
     res_bind (unwrap (case ap of
                 Some a \<Rightarrow> adaptor_sign_partial (musig E) ctx sk sn agg a m
               | None \<Rightarrow> sign_partial (musig E) ctx sk sn agg m)) (\<lambda>our_sig.
     Inr (hex_encode E (psig_serialize (musig E) our_sig)))))"

definition transition_to_round_two :: "env \<Rightarrow> session \<Rightarrow> swap_keys \<Rightarrow> tx_role \<Rightarrow> session act" where
  "transition_to_round_two E s keys role =
     (case hm_get (musig_sessions s) role of
        Some (RoundOne pks idx m tweak sec_nonce_bytes) \<Rightarrow>
          bind (lift (aggregate_nonces E s role)) (\<lambda>agg.
          bind (lift (adaptor_point_for E s role)) (\<lambda>ap.
          bind (lift (blocking (partial_sign_hex E (secret_key keys) pks tweak sec_nonce_bytes agg ap m)))
            (\<lambda>sig_hex.
          bind (lift (get_my_id (participants s))) (\<lambda>my_id.
          announce E
            (s\<lparr>partial_sigs := hm_insert2 my_id role sig_hex (partial_sigs s),
               musig_sessions := hm_insert role (RoundTwo pks idx m tweak) (musig_sessions s)\<rparr>)
            my_id (PartialSignature role sig_hex)))))
      | _ \<Rightarrow> ret s)"

datatype crypto_result = AdaptorResult bytes | FinalResult bytes

definition aggregate_role ::
  "env \<Rightarrow> string list \<Rightarrow> bool \<Rightarrow> bytes \<Rightarrow> agg_nonce \<Rightarrow> partial_sig list \<Rightarrow> pubkey option \<Rightarrow>
   crypto_result res" where
  "aggregate_role E pks tweak m agg sigs ap =
     res_bind (key_agg_of E pks tweak) (\<lambda>ctx.
     case ap of
       Some a \<Rightarrow>
         res_bind (unwrap (adaptor_aggregate_sigs (musig E) ctx agg a sigs m)) (\<lambda>sg.
         Inr (AdaptorResult (adaptor_serialize (musig E) sg)))
     | None \<Rightarrow>
         res_bind (unwrap (aggregate_sigs (musig E) ctx agg sigs m)) (\<lambda>sg. Inr (FinalResult sg)))"

definition partial_sigs_for :: "env \<Rightarrow> session \<Rightarrow> tx_role \<Rightarrow> partial_sig list res" where
  "partial_sigs_for E s role =
     res_map (\<lambda>str. res_bind (unwrap (hex_decode E str)) (\<lambda>b. unwrap (psig_from_slice (musig E) b)))
       (role_entries E (partial_sigs s) role)"

text \<open>The final signature becomes the witness of a Bitcoin transaction and the redeemer of a
  Cardano one.\<close>

definition attach_sig ::
  "env \<Rightarrow> daemon_config \<Rightarrow> u64 \<Rightarrow> blockchain \<Rightarrow> hex_string \<Rightarrow> bytes \<Rightarrow> bool \<Rightarrow> hex_string act" where
  "attach_sig E cfg cfee chain unsigned_tx_hex sig_bytes is_refund =
     (case chain of
        Bitcoin \<Rightarrow>
          bind (lift (unwrap (btc_deserialize_hex (btc E) unsigned_tx_hex))) (\<lambda>tx.
          bind (lift (set_witness0 tx [sig_bytes])) (\<lambda>signed.
          ret (btc_serialize_hex (btc E) signed)))
      | Cardano \<Rightarrow> attach_final_sig E unsigned_tx_hex sig_bytes cfg cfee is_refund)"

definition finalize_role ::
  "env \<Rightarrow> session \<Rightarrow> swap_keys \<Rightarrow> tx_role \<Rightarrow> daemon_config \<Rightarrow> session act" where
  "finalize_role E s keys role cfg =
     (case hm_get (musig_sessions s) role of
        Some (RoundTwo pks idx m tweak) \<Rightarrow>
          bind (lift (aggregate_nonces E s role)) (\<lambda>agg.
          bind (lift (partial_sigs_for E s role)) (\<lambda>sigs.
          bind (lift (adaptor_point_for E s role)) (\<lambda>ap.
          bind (lift (blocking (aggregate_role E pks tweak m agg sigs ap))) (\<lambda>result.
          case result of
            AdaptorResult b \<Rightarrow>
              ret (s\<lparr>adaptor_sigs := hm_insert role (hex_encode E b) (adaptor_sigs s)\<rparr>)
          | FinalResult b \<Rightarrow>
              bind (lift (unwrap (hm_get (unsigned_txs s) role))) (\<lambda>unsigned_tx_hex.
              bind (lift (index_map (bt_get (participants s) (role_participant_id role)))) (\<lambda>p.
              bind (attach_sig E cfg (cardano_fee s) (blockchain p) unsigned_tx_hex b
                      (\<not> is_spend role)) (\<lambda>signed_tx_hex.
              ret (s\<lparr>signed_txs := hm_insert role signed_tx_hex (signed_txs s)\<rparr>))))))))
      | _ \<Rightarrow> ret s)"

text \<open>The chain whose output a role spends: a spend takes the target's lock.\<close>

definition spent_chain :: "session \<Rightarrow> tx_role \<Rightarrow> blockchain res" where
  "spent_chain s role =
     res_bind (index_map (bt_get (participants s) (role_participant_id role))) (\<lambda>p.
     case role of
       Spend _ \<Rightarrow>
         res_bind (index_map (bt_get (participants s) (target_participant p))) (\<lambda>q.
         Inr (blockchain q))
     | Refund _ \<Rightarrow> Inr (blockchain p))"

definition adapt_role_with ::
  "env \<Rightarrow> session \<Rightarrow> tx_role \<Rightarrow> scalar \<Rightarrow> daemon_config \<Rightarrow> session act" where
  "adapt_role_with E s role aggregate_secret cfg =
     bind (lift (unwrap (hm_get (adaptor_sigs s) role))) (\<lambda>adaptor_sig_hex.
     bind (lift (unwrap (hex_decode E adaptor_sig_hex))) (\<lambda>b.
     bind (lift (unwrap (adaptor_from_bytes (musig E) b))) (\<lambda>adaptor_sig.
     bind (lift (unwrap (adaptor_adapt (musig E) adaptor_sig aggregate_secret))) (\<lambda>valid_sig.
     bind (lift (unwrap (hm_get (unsigned_txs s) role))) (\<lambda>unsigned_tx_hex.
     bind (lift (spent_chain s role)) (\<lambda>chain.
     bind (attach_sig E cfg (cardano_fee s) chain unsigned_tx_hex
             (lifted_serialize (musig E) valid_sig) False) (\<lambda>signed_tx_hex.
     ret (s\<lparr>signed_txs := hm_insert role signed_tx_hex (signed_txs s)\<rparr>))))))))"

definition adapt_role :: "env \<Rightarrow> session \<Rightarrow> tx_role \<Rightarrow> daemon_config \<Rightarrow> session act" where
  "adapt_role E s role cfg =
     bind (lift (aggregate_adaptor_secret E s)) (\<lambda>agg. adapt_role_with E s role agg cfg)"

definition compute_adaptor_secret ::
  "musig_lib \<Rightarrow> adaptor_sig \<Rightarrow> lifted_sig \<Rightarrow> scalar option res" where
  "compute_adaptor_secret M adaptor_signature full_signature =
     (let (adaptor_pt, adaptor_sc) = adaptor_unzip M adaptor_signature;
          (full_pt, full_sc) = lifted_unzip M full_signature in
      res_bind (unwrap adaptor_sc) (\<lambda>a_sc.
      res_bind (unwrap full_sc) (\<lambda>f_sc.
      let secret = scalar_sub M f_sc a_sc; pt = base_point_mul M secret in
      if pt = point_sub M full_pt adaptor_pt then
        res_bind (unwrap secret) (\<lambda>x. Inr (Some x))
      else if pt = point_add M full_pt adaptor_pt then
        res_bind (unwrap secret) (\<lambda>x. Inr (Some (scalar_neg M x)))
      else Inr None)))"

section \<open>The group\<close>

text \<open>
  What the crates document of the curve: scalars and points of a cyclic group of odd order
  \<open>q\<close>. The maps \<open>sc\<close> and \<open>pt\<close> give the residue of a scalar and the discrete logarithm of a
  point, for the scalars and points of the group (\<open>SC\<close>, \<open>PT\<close>).
\<close>

definition cyclic_group ::
  "musig_lib \<Rightarrow> int \<Rightarrow> scalar set \<Rightarrow> point option set \<Rightarrow> (scalar \<Rightarrow> int) \<Rightarrow> (point option \<Rightarrow> int) \<Rightarrow> bool" where
  "cyclic_group M q SC PT sc pt \<longleftrightarrow>
     odd q \<and> q > 1 \<and>
     (\<forall>a \<in> SC. 0 < sc a \<and> sc a < q) \<and> inj_on sc SC \<and>
     (\<forall>P \<in> PT. 0 \<le> pt P \<and> pt P < q) \<and> inj_on pt PT \<and> None \<in> PT \<and> pt None = 0 \<and>
     (\<forall>a \<in> SC. scalar_neg M a \<in> SC \<and> sc (scalar_neg M a) = (- sc a) mod q) \<and>
     (\<forall>a \<in> SC. \<forall>b \<in> SC. case scalar_sub M a b of
          None \<Rightarrow> sc a = sc b
        | Some c \<Rightarrow> c \<in> SC \<and> sc c = (sc a - sc b) mod q) \<and>
     base_point_mul M None = None \<and>
     (\<forall>a \<in> SC. base_point_mul M (Some a) \<in> PT \<and> pt (base_point_mul M (Some a)) = sc a) \<and>
     (\<forall>P \<in> PT. \<forall>Q \<in> PT. point_add M P Q \<in> PT \<and> pt (point_add M P Q) = (pt P + pt Q) mod q \<and>
        point_sub M P Q \<in> PT \<and> pt (point_sub M P Q) = (pt P - pt Q) mod q)"

text \<open>The documented result of adapting: the nonce moves by the secret's point, and the scalar by
  the secret, both negated when the moved nonce has an odd \<open>y\<close>.\<close>

definition adapts_to :: "musig_lib \<Rightarrow> int \<Rightarrow> (scalar \<Rightarrow> int) \<Rightarrow> (point option \<Rightarrow> int) \<Rightarrow>
    scalar set \<Rightarrow> point option set \<Rightarrow> adaptor_sig \<Rightarrow> scalar \<Rightarrow> lifted_sig \<Rightarrow> bool" where
  "adapts_to M q sc pt SC PT asig t full \<longleftrightarrow>
     (\<exists>R a P f. adaptor_unzip M asig = (R, Some a) \<and> lifted_unzip M full = (P, Some f) \<and>
        R \<in> PT \<and> a \<in> SC \<and> P \<in> PT \<and> f \<in> SC \<and> t \<in> SC \<and> R \<noteq> None \<and>
        ((pt P = (pt R + sc t) mod q \<and> sc f = (sc a + sc t) mod q) \<or>
         (pt P = (- (pt R + sc t)) mod q \<and> sc f = (sc a - sc t) mod q)))"

section \<open>Extraction\<close>

lemma mod_eq_small: "(x :: int) mod q = y mod q \<Longrightarrow> 0 < x \<Longrightarrow> x < q \<Longrightarrow> 0 < y \<Longrightarrow> y < q \<Longrightarrow> x = y"
  by (simp add: mod_pos_pos_trivial)

text \<open>An adapted signature gives the secret back, with either parity.\<close>

lemma extract_adapted:
  assumes G: "cyclic_group M q SC PT sc pt" and A: "adapts_to M q sc pt SC PT asig t full"
  shows "compute_adaptor_secret M asig full = Inr (Some t)"
proof -
  note G' = G [unfolded cyclic_group_def]
  from A obtain R a P f where u: "adaptor_unzip M asig = (R, Some a)"
    "lifted_unzip M full = (P, Some f)" and mem: "R \<in> PT" "a \<in> SC" "P \<in> PT" "f \<in> SC" "t \<in> SC"
    and R: "R \<noteq> None"
    and par: "(pt P = (pt R + sc t) mod q \<and> sc f = (sc a + sc t) mod q) \<or>
         (pt P = (- (pt R + sc t)) mod q \<and> sc f = (sc a - sc t) mod q)"
    unfolding adapts_to_def by blast
  have q: "odd q" "q > 1" using G' by auto
  have t: "0 < sc t" "sc t < q" using G' mem(5) by auto
  have a: "0 < sc a" "sc a < q" using G' mem(2) by auto
  have Rpos: "0 < pt R" "pt R < q"
  proof -
    have "0 \<le> pt R" "pt R < q" using G' mem(1) by auto
    moreover have "pt R \<noteq> pt None" using G' mem(1) R by (meson inj_onD)
    ultimately show "0 < pt R" "pt R < q" using G' by auto
  qed
  have inj_pt: "X = Y" if "pt X = pt Y" "X \<in> PT" "Y \<in> PT" for X Y
    using G' that by (meson inj_onD)
  have inj_sc: "x = y" if "sc x = sc y" "x \<in> SC" "y \<in> SC" for x y
    using G' that by (meson inj_onD)
  have neq: "sc f \<noteq> sc a"
  proof
    assume eq: "sc f = sc a"
    then have "(sc a + sc t) mod q = sc a mod q \<or> (sc a - sc t) mod q = sc a mod q"
      using par a by (auto simp: mod_pos_pos_trivial)
    then have "q dvd sc t" by (auto simp: mod_eq_dvd_iff)
    then show False using t by (simp add: zdvd_not_zless)
  qed
  have sub: "case scalar_sub M f a of None \<Rightarrow> sc f = sc a
      | Some c \<Rightarrow> c \<in> SC \<and> sc c = (sc f - sc a) mod q"
    using G' mem by blast
  then obtain d where d: "scalar_sub M f a = Some d" "d \<in> SC" "sc d = (sc f - sc a) mod q"
    using neq by (auto split: option.splits)
  have D: "base_point_mul M (Some d) \<in> PT" "pt (base_point_mul M (Some d)) = sc d"
    using G' d by auto
  have S: "point_sub M P R \<in> PT" "pt (point_sub M P R) = (pt P - pt R) mod q"
    and T: "point_add M P R \<in> PT" "pt (point_add M P R) = (pt P + pt R) mod q"
    using G' mem by auto
  from par show ?thesis
  proof
    assume c: "pt P = (pt R + sc t) mod q \<and> sc f = (sc a + sc t) mod q"
    have "sc d = sc t" using c d(3) t by (simp add: mod_diff_left_eq)
    moreover have "pt (point_sub M P R) = sc t" using c S t by (simp add: mod_diff_left_eq)
    ultimately have "base_point_mul M (Some d) = point_sub M P R" "d = t"
      using D S inj_pt inj_sc d mem by simp_all
    then show ?thesis using u d by (simp add: compute_adaptor_secret_def Let_def)
  next
    assume c: "pt P = (- (pt R + sc t)) mod q \<and> sc f = (sc a - sc t) mod q"
    have dt: "sc d = (- sc t) mod q" using c d(3) by (simp add: mod_diff_left_eq)
    have "pt (point_add M P R) = (- sc t) mod q" using c T by (simp add: mod_add_left_eq)
    then have add: "base_point_mul M (Some d) = point_add M P R" using D T dt inj_pt by simp
    have "sc (scalar_neg M d) = (- sc d) mod q" using G' d(2) by blast
    also have "\<dots> = sc t" unfolding dt using t by (simp add: mod_minus_eq)
    finally have "sc (scalar_neg M d) = sc t" .
    then have neg: "scalar_neg M d = t" using G' d mem inj_sc by blast
    have "base_point_mul M (Some d) \<noteq> point_sub M P R"
    proof
      assume "base_point_mul M (Some d) = point_sub M P R"
      then have "(- sc t) mod q = (- (pt R + sc t) - pt R) mod q"
        using D S dt c by (simp add: mod_diff_left_eq)
      then have "q dvd 2 * pt R" by (simp add: mod_eq_dvd_iff)
      then have "q dvd pt R" using q by (simp add: coprime_dvd_mult_right_iff)
      then show False using Rpos by (simp add: zdvd_not_zless)
    qed
    then show ?thesis using u d add neg by (simp add: compute_adaptor_secret_def Let_def)
  qed
qed

text \<open>Whatever is extracted explains the published nonce.\<close>

lemma extract_sound:
  assumes "compute_adaptor_secret M asig full = Inr (Some x)"
  shows "\<exists>R a P f d. adaptor_unzip M asig = (R, Some a) \<and> lifted_unzip M full = (P, Some f) \<and>
    scalar_sub M f a = Some d \<and>
    (base_point_mul M (Some d) = point_sub M P R \<and> x = d \<or>
     base_point_mul M (Some d) = point_add M P R \<and> x = scalar_neg M d)"
  using assms
  by (auto simp: compute_adaptor_secret_def Let_def res_bind_Inr split: prod.splits if_splits)

section \<open>Frame conditions\<close>

text \<open>A role that is not in its first round is left alone, and so is a role that is not in its
  second round when it is finalized.\<close>

lemma round_two_needs_round_one:
  "(\<forall>pks idx m tw n. hm_get (musig_sessions s) role \<noteq> Some (RoundOne pks idx m tw n)) \<Longrightarrow>
   transition_to_round_two E s keys role = ret s"
  by (auto simp: transition_to_round_two_def split: option.splits musig_runtime.splits)

lemma finalize_needs_round_two:
  "(\<forall>pks idx m tw. hm_get (musig_sessions s) role \<noteq> Some (RoundTwo pks idx m tw)) \<Longrightarrow>
   finalize_role E s keys role cfg = ret s"
  by (auto simp: finalize_role_def split: option.splits musig_runtime.splits)

lemma emits_attach_sig:
  "(\<And>rq r. P (Http rq r)) \<Longrightarrow> emits P (attach_sig E cfg cfee c h b r)"
  unfolding attach_sig_def attach_final_sig_def fetch_protocol_params_def
    evaluate_redeemer_units_def Let_def
  by (intro emits_rules emits_http_get emits_http_post) auto

interpretation second_round: session_op "\<lambda>s. transition_to_round_two E s keys role" for E keys role
proof unfold_locales
  fix s
  have e: "evolves s (s\<lparr>partial_sigs := a, musig_sessions := b\<rparr>)" for a b
    by (rule evolves_same) (simp_all add: setup_of_def stores_step_def)
  show "evolving (\<lambda>x. x) s (transition_to_round_two E s keys role)"
    unfolding transition_to_round_two_def
    by (auto intro!: evolving_bind_any evolving_announce evolving_ret e
        split: option.splits musig_runtime.splits)
  show "emits (\<lambda>e. \<not> reveals e) (transition_to_round_two E s keys role)"
    unfolding transition_to_round_two_def
    by (auto intro!: emits_bind_lift emits_announce split: option.splits musig_runtime.splits)
qed

interpretation finalization: session_op "\<lambda>s. finalize_role E s keys role cfg" for E keys role cfg
proof unfold_locales
  fix s
  have e: "evolves s (s\<lparr>adaptor_sigs := a\<rparr>)" "evolves s (s\<lparr>signed_txs := a\<rparr>)" for a
    by (rule evolves_same; simp add: setup_of_def stores_step_def)+
  show "evolving (\<lambda>x. x) s (finalize_role E s keys role cfg)"
    unfolding finalize_role_def
    by (auto intro!: evolving_bind_any evolving_ret e
        split: option.splits musig_runtime.splits crypto_result.splits)
  show "emits (\<lambda>e. \<not> reveals e) (finalize_role E s keys role cfg)"
    unfolding finalize_role_def
    by (auto intro!: emits_bind_lift emits_bind emits_attach_sig
        split: option.splits musig_runtime.splits crypto_result.splits)
qed

interpretation adaptation: session_op "\<lambda>s. adapt_role_with E s role secret cfg"
  for E role secret cfg
proof unfold_locales
  fix s
  have e: "evolves s (s\<lparr>signed_txs := a\<rparr>)" for a
    by (rule evolves_same) (simp_all add: setup_of_def stores_step_def)
  show "evolving (\<lambda>x. x) s (adapt_role_with E s role secret cfg)"
    unfolding adapt_role_with_def by (intro evolving_bind_any evolving_ret e)
  show "emits (\<lambda>e. \<not> reveals e) (adapt_role_with E s role secret cfg)"
    unfolding adapt_role_with_def by (intro emits_rules emits_attach_sig) auto
qed

lemma evolving_adapt_role: "evolving (\<lambda>x. x) s (adapt_role E s role cfg)"
  unfolding adapt_role_def by (intro evolving_bind_any adaptation.evolving_op)

lemma emits_adapt_role: "emits (\<lambda>e. \<not> reveals e) (adapt_role E s role cfg)"
  unfolding adapt_role_def by (intro emits_rules adaptation.op_discreet)

end
