(* ===== verification/Chain_Monitor.thy ===== *)
theory Chain_Monitor
  imports Session_Utils Cycle Bitcoin_Utils Cardano_Utils
begin

text \<open>
  \<open>src/swap-daemon/src/protocol/chain_monitor.rs\<close>: what the daemon learns from the chains.
  Funding outputs are validated before a swap, lock transactions and the leader's spend are
  watched, and the refund window is measured against the tip. Every request goes through the
  environment; a request that fails, a body that does not parse and a field that is missing are
  branches.
\<close>

section \<open>Requests\<close>

text \<open>\<open>data[k].as_bool()\<close> and the like on a response.\<close>

definition json_of :: "http_response option \<Rightarrow> json option" where
  "json_of resp = Option.bind resp rs_json"

text \<open>\<open>Ok(resp) if resp.status().is_success()\<close>.\<close>

definition ok_json :: "http_response option \<Rightarrow> json option" where
  "ok_json resp = Option.bind resp (\<lambda>r. if rs_success r then rs_json r else None)"

definition answered_ok :: "http_response option \<Rightarrow> bool" where
  "answered_ok resp = (case resp of None \<Rightarrow> False | Some r \<Rightarrow> rs_success r)"

section \<open>Funding outputs\<close>

definition validate_bitcoin_utxo :: "env \<Rightarrow> string \<Rightarrow> u32 \<Rightarrow> string \<Rightarrow> u64 \<Rightarrow> bool act" where
  "validate_bitcoin_utxo E txid vout base_url min_value =
     bind (http_get E (url_path base_url [''tx'', txid, ''outspend'', show_nat (unat vout)]))
       (\<lambda>resp.
     case json_of resp of
       None \<Rightarrow> ret False
     | Some data \<Rightarrow>
         if as_bool (json E) (j_index (json E) data ''spent'') \<noteq> Some False then ret False
         else bind (http_get E (url_path base_url [''tx'', txid])) (\<lambda>resp2.
           case json_of resp2 of
             None \<Rightarrow> ret False
           | Some tx \<Rightarrow>
               let out = j_nth (json E) (j_index (json E) tx ''vout'') (unat vout);
                   value = unwrap_or 0 (as_u64 (json E) (j_index (json E) out ''value'')) in
               ret (\<not> value < min_value)))"

definition output_has_sufficient_lovelace :: "env \<Rightarrow> json \<Rightarrow> u32 \<Rightarrow> u64 \<Rightarrow> bool" where
  "output_has_sufficient_lovelace E data vout min_value =
     (let j = json E in
      unwrap_or False (map_option (\<lambda>lovelace. lovelace \<ge> min_value)
        (Option.bind (as_array j (j_index j data ''outputs'')) (\<lambda>outputs.
         Option.bind (List.find (\<lambda>o'. as_u64 j (j_index j o' ''output_index'') = Some (ucast vout))
                        outputs) (\<lambda>output.
         Option.bind (as_array j (j_index j output ''amount'')) (\<lambda>amounts.
         Option.bind (List.find (\<lambda>a. as_str j (j_index j a ''unit'') = Some ''lovelace'') amounts)
           (\<lambda>a.
         Option.bind (as_str j (j_index j a ''quantity'')) parse_u64)))))))"

definition validate_cardano_utxo_dolos :: "env \<Rightarrow> string \<Rightarrow> u32 \<Rightarrow> string \<Rightarrow> u64 \<Rightarrow> bool act" where
  "validate_cardano_utxo_dolos E txid vout rest min_value =
     bind (http_get E (url_path rest [''txs'', txid, ''utxos''])) (\<lambda>resp.
     ret (case ok_json resp of
            None \<Rightarrow> False
          | Some data \<Rightarrow> output_has_sufficient_lovelace E data vout min_value))"

definition validate_cardano_utxo_blockfrost ::
  "env \<Rightarrow> string \<Rightarrow> u32 \<Rightarrow> string \<Rightarrow> string \<Rightarrow> u64 \<Rightarrow> bool act" where
  "validate_cardano_utxo_blockfrost E txid vout base_url api_key min_value =
     bind (http_get_key E (url_path base_url [''api'', ''v0'', ''txs'', txid, ''utxos'']) api_key)
       (\<lambda>resp.
     ret (case ok_json resp of
            None \<Rightarrow> False
          | Some data \<Rightarrow> output_has_sufficient_lovelace E data vout min_value))"

definition validate_participant_utxo :: "env \<Rightarrow> daemon_config \<Rightarrow> participant \<Rightarrow> bool act" where
  "validate_participant_utxo E cfg p =
     (case blockchain p of
        Bitcoin \<Rightarrow> validate_bitcoin_utxo E (funding_utxo_txid p) (funding_utxo_vout p)
                     (mempool_base_url (bitcoin_network cfg)) (amount_locking p)
      | Cardano \<Rightarrow>
          (case cardano_network cfg of
             CarCustom _ rest _ \<Rightarrow>
               validate_cardano_utxo_dolos E (funding_utxo_txid p) (funding_utxo_vout p) rest
                 (amount_locking p)
           | n \<Rightarrow> bind (lift (blockfrost_base_url n)) (\<lambda>base.
               validate_cardano_utxo_blockfrost E (funding_utxo_txid p) (funding_utxo_vout p) base
                 (blockfrost_api_key cfg) (amount_locking p))))"

fun validate_utxos_loop :: "env \<Rightarrow> daemon_config \<Rightarrow> participant list \<Rightarrow> bool act" where
  "validate_utxos_loop E cfg [] = ret True"
| "validate_utxos_loop E cfg (p # ps) =
     bind (validate_participant_utxo E cfg p) (\<lambda>valid.
       if \<not> valid then ret False else validate_utxos_loop E cfg ps)"

definition validate_funding_utxos :: "env \<Rightarrow> session \<Rightarrow> daemon_config \<Rightarrow> bool act" where
  "validate_funding_utxos E s cfg = validate_utxos_loop E cfg (bt_values (participants s))"

section \<open>The tips and the refund window\<close>

definition height_of :: "http_response option \<Rightarrow> u64" where
  "height_of resp =
     unwrap_or 0 (Option.bind (Option.bind resp rs_text) (\<lambda>t. parse_u64 (trim t)))"

definition fetch_bitcoin_tip_height :: "env \<Rightarrow> string \<Rightarrow> u64 act" where
  "fetch_bitcoin_tip_height E base_url =
     bind (http_get E (url_path base_url [''blocks'', ''tip'', ''height''])) (\<lambda>resp.
     ret (height_of resp))"

definition slot_of :: "env \<Rightarrow> http_response option \<Rightarrow> u64" where
  "slot_of E resp =
     unwrap_or 0 (Option.bind (json_of resp) (\<lambda>j. as_u64 (json E) (j_index (json E) j ''slot'')))"

definition fetch_cardano_tip_slot_dolos :: "env \<Rightarrow> string \<Rightarrow> u64 act" where
  "fetch_cardano_tip_slot_dolos E rest =
     bind (http_get E (url_path rest [''blocks'', ''latest''])) (\<lambda>resp. ret (slot_of E resp))"

definition fetch_cardano_tip_slot_blockfrost :: "env \<Rightarrow> string \<Rightarrow> string \<Rightarrow> u64 act" where
  "fetch_cardano_tip_slot_blockfrost E base_url api_key =
     bind (http_get_key E (url_path base_url [''api'', ''v0'', ''blocks'', ''latest'']) api_key)
       (\<lambda>resp. ret (slot_of E resp))"

definition fetch_cardano_tip_slot :: "env \<Rightarrow> daemon_config \<Rightarrow> u64 act" where
  "fetch_cardano_tip_slot E cfg =
     (case cardano_network cfg of
        CarCustom _ rest _ \<Rightarrow> fetch_cardano_tip_slot_dolos E rest
      | n \<Rightarrow> bind (lift (blockfrost_base_url n)) (\<lambda>base.
          fetch_cardano_tip_slot_blockfrost E base (blockfrost_api_key cfg)))"

definition check_refund_window_open ::
  "env \<Rightarrow> session \<Rightarrow> participant_id \<Rightarrow> daemon_config \<Rightarrow> bool act" where
  "check_refund_window_open E s pid cfg =
     bind (lift (index_map (bt_get (participants s) pid))) (\<lambda>p.
     case blockchain p of
       Bitcoin \<Rightarrow>
         bind (lift (refund_locktime_btc (overflow_checks E) s pid)) (\<lambda>locktime.
         bind (fetch_bitcoin_tip_height E (mempool_base_url (bitcoin_network cfg))) (\<lambda>height.
         ret (height \<ge> ucast locktime)))
     | Cardano \<Rightarrow>
         bind (lift (refund_locktime_cardano (overflow_checks E) s pid)) (\<lambda>refund_slot.
         bind (fetch_cardano_tip_slot E cfg) (\<lambda>slot.
         ret (slot > refund_slot))))"

section \<open>Transaction ids\<close>

definition bitcoin_txid :: "env \<Rightarrow> hex_string \<Rightarrow> string res" where
  "bitcoin_txid E tx_hex =
     res_bind (unwrap (btc_deserialize_hex (btc E) tx_hex)) (\<lambda>tx. Inr (compute_txid (btc E) tx))"

definition cardano_txid :: "env \<Rightarrow> hex_string \<Rightarrow> string res" where
  "cardano_txid E tx_hex =
     res_bind (unwrap (hex_decode E tx_hex)) (\<lambda>b.
     res_bind (unwrap (fixed_tx_hash (csl E) b)) (\<lambda>h. Inr (hex_encode E h)))"

section \<open>Confirmations\<close>

definition check_bitcoin_confirmed_with_url :: "env \<Rightarrow> hex_string \<Rightarrow> string \<Rightarrow> bool act" where
  "check_bitcoin_confirmed_with_url E tx_hex base_url =
     bind (lift (bitcoin_txid E tx_hex)) (\<lambda>txid.
     bind (http_get E (url_path base_url [''tx'', txid, ''status''])) (\<lambda>resp.
     ret (case json_of resp of
            None \<Rightarrow> False
          | Some status \<Rightarrow>
              unwrap_or False (as_bool (json E) (j_index (json E) status ''confirmed'')))))"

definition check_bitcoin_confirmed :: "env \<Rightarrow> hex_string \<Rightarrow> string \<Rightarrow> bool act" where
  "check_bitcoin_confirmed E tx_hex base_url = check_bitcoin_confirmed_with_url E tx_hex base_url"

definition check_cardano_confirmed_dolos_by_txid :: "env \<Rightarrow> string \<Rightarrow> string \<Rightarrow> bool act" where
  "check_cardano_confirmed_dolos_by_txid E txid rest =
     bind (http_get E (url_path rest [''txs'', txid])) (\<lambda>resp. ret (answered_ok resp))"

definition check_cardano_confirmed_dolos :: "env \<Rightarrow> hex_string \<Rightarrow> string \<Rightarrow> bool act" where
  "check_cardano_confirmed_dolos E tx_hex rest =
     bind (lift (cardano_txid E tx_hex)) (\<lambda>txid.
     check_cardano_confirmed_dolos_by_txid E txid rest)"

definition check_cardano_confirmed_blockfrost_by_txid ::
  "env \<Rightarrow> string \<Rightarrow> string \<Rightarrow> string \<Rightarrow> bool act" where
  "check_cardano_confirmed_blockfrost_by_txid E txid base_url api_key =
     bind (http_get_key E (url_path base_url [''api'', ''v0'', ''txs'', txid]) api_key)
       (\<lambda>resp. ret (answered_ok resp))"

definition check_cardano_confirmed_blockfrost ::
  "env \<Rightarrow> hex_string \<Rightarrow> string \<Rightarrow> string \<Rightarrow> bool act" where
  "check_cardano_confirmed_blockfrost E tx_hex base_url api_key =
     bind (lift (cardano_txid E tx_hex)) (\<lambda>txid.
     check_cardano_confirmed_blockfrost_by_txid E txid base_url api_key)"

definition check_tx_confirmed :: "env \<Rightarrow> hex_string \<Rightarrow> blockchain \<Rightarrow> daemon_config \<Rightarrow> bool act" where
  "check_tx_confirmed E tx_hex chain cfg =
     (case chain of
        Bitcoin \<Rightarrow> check_bitcoin_confirmed E tx_hex (mempool_base_url (bitcoin_network cfg))
      | Cardano \<Rightarrow>
          (case cardano_network cfg of
             CarCustom _ _ _ \<Rightarrow>
               bind (lift (unwrap (dolos_rest_url (cardano_network cfg)))) (\<lambda>rest.
               check_cardano_confirmed_dolos E tx_hex rest)
           | n \<Rightarrow> bind (lift (blockfrost_base_url n)) (\<lambda>base.
               check_cardano_confirmed_blockfrost E tx_hex base (blockfrost_api_key cfg))))"

definition check_lock_tx_confirmed ::
  "env \<Rightarrow> session \<Rightarrow> participant_id \<Rightarrow> daemon_config \<Rightarrow> session act" where
  "check_lock_tx_confirmed E s pid cfg =
     bind (lift (index_map (bt_get (participants s) pid))) (\<lambda>p.
     bind (lift (unwrap (hm_get (lock_txs s) pid))) (\<lambda>lock_tx_hex.
     bind (check_tx_confirmed E lock_tx_hex (blockchain p) cfg) (\<lambda>confirmed.
     ret (if confirmed then s\<lparr>confirmed_lock_txs := insert pid (confirmed_lock_txs s)\<rparr> else s))))"

section \<open>The leader's spend\<close>

definition check_bitcoin_lock_utxo_spent :: "env \<Rightarrow> string \<Rightarrow> string \<Rightarrow> bool act" where
  "check_bitcoin_lock_utxo_spent E lock_txid base_url =
     bind (http_get E (url_path base_url [''tx'', lock_txid, ''outspend'', ''0''])) (\<lambda>resp.
     ret (case json_of resp of
            None \<Rightarrow> False
          | Some data \<Rightarrow> unwrap_or False (as_bool (json E) (j_index (json E) data ''spent''))))"

text \<open>Whether a list of outputs has the first output of a transaction.\<close>

definition lists_lock_utxo :: "env \<Rightarrow> string \<Rightarrow> json list \<Rightarrow> bool" where
  "lists_lock_utxo E lock_txid utxos =
     list_ex (\<lambda>u. as_str (json E) (j_index (json E) u ''tx_hash'') = Some lock_txid \<and>
                  as_u64 (json E) (j_index (json E) u ''output_index'') = Some 0) utxos"

definition check_cardano_lock_utxo_spent_dolos :: "env \<Rightarrow> string \<Rightarrow> string \<Rightarrow> bool act" where
  "check_cardano_lock_utxo_spent_dolos E lock_txid rest =
     bind (lift (unwrap (address_to_bech32 (csl E) (script_address E CARDANO_TESTNET)))) (\<lambda>addr.
     bind (http_get E (url_path rest [''addresses'', addr, ''utxos''])) (\<lambda>resp.
     ret (case resp of
            None \<Rightarrow> False
          | Some r \<Rightarrow>
              if \<not> rs_success r then True
              else (case rs_json r of
                      None \<Rightarrow> False
                    | Some data \<Rightarrow>
                        (case as_array (json E) data of
                           None \<Rightarrow> False
                         | Some utxos \<Rightarrow> \<not> lists_lock_utxo E lock_txid utxos)))))"

definition check_cardano_lock_utxo_spent_blockfrost ::
  "env \<Rightarrow> string \<Rightarrow> string \<Rightarrow> string \<Rightarrow> bool act" where
  "check_cardano_lock_utxo_spent_blockfrost E lock_txid base_url api_key =
     bind (lift (unwrap (address_to_bech32 (csl E) (script_address E CARDANO_TESTNET)))) (\<lambda>addr.
     bind (http_get_key E (url_path base_url [''api'', ''v0'', ''addresses'', addr, ''utxos''])
             api_key) (\<lambda>resp.
     ret (case resp of
            None \<Rightarrow> False
          | Some r \<Rightarrow>
              if \<not> rs_success r then True
              else (case rs_json r of
                      None \<Rightarrow> False
                    | Some data \<Rightarrow>
                        \<not> lists_lock_utxo E lock_txid (unwrap_or [] (as_array (json E) data))))))"

definition check_leader_spend_confirmed ::
  "env \<Rightarrow> session \<Rightarrow> participant_id \<Rightarrow> daemon_config \<Rightarrow> bool act" where
  "check_leader_spend_confirmed E s leader_id cfg =
     bind (lift (index_map (bt_get (participants s) leader_id))) (\<lambda>leader_p.
     let target_id = target_participant leader_p in
     bind (lift (index_map (bt_get (participants s) target_id))) (\<lambda>target_p.
     bind (lift (unwrap (hm_get (lock_txs s) target_id))) (\<lambda>lock_tx_hex.
     case blockchain target_p of
       Bitcoin \<Rightarrow>
         bind (lift (bitcoin_txid E lock_tx_hex)) (\<lambda>lock_txid.
         check_bitcoin_lock_utxo_spent E lock_txid (mempool_base_url (bitcoin_network cfg)))
     | Cardano \<Rightarrow>
         bind (lift (cardano_txid E lock_tx_hex)) (\<lambda>lock_txid.
         case cardano_network cfg of
           CarCustom _ _ _ \<Rightarrow>
             bind (lift (unwrap (dolos_rest_url (cardano_network cfg)))) (\<lambda>rest.
             check_cardano_lock_utxo_spent_dolos E lock_txid rest)
         | n \<Rightarrow> bind (lift (blockfrost_base_url n)) (\<lambda>base.
             check_cardano_lock_utxo_spent_blockfrost E lock_txid base (blockfrost_api_key cfg))))))"

section \<open>Watching sends nothing\<close>

lemma silent_case_network:
  "(\<And>g r c. cn = CarCustom g r c \<Longrightarrow> silent (m g r c)) \<Longrightarrow> silent a \<Longrightarrow> silent b \<Longrightarrow> silent d \<Longrightarrow>
   silent (case cn of CarCustom g r c \<Rightarrow> m g r c | CarMainnet \<Rightarrow> a | CarPreprod \<Rightarrow> b | CarPreview \<Rightarrow> d)"
  by (cases cn) simp_all

lemma silent_case_chain: "silent a \<Longrightarrow> silent b \<Longrightarrow> silent (case c of Bitcoin \<Rightarrow> a | Cardano \<Rightarrow> b)"
  by (cases c) simp_all

lemmas silent_rules = silent_bind silent_option silent_if silent_case_network silent_case_chain

lemma silent_validate_participant [simp]: "silent (validate_participant_utxo E cfg p)"
  unfolding validate_participant_utxo_def validate_bitcoin_utxo_def validate_cardano_utxo_dolos_def
    validate_cardano_utxo_blockfrost_def Let_def
  by (intro silent_rules) simp_all

lemma silent_validate [simp]: "silent (validate_funding_utxos E s cfg)"
proof -
  have "silent (validate_utxos_loop E cfg ps)" for ps
    by (induction ps) (auto intro!: silent_bind silent_if)
  then show ?thesis by (simp add: validate_funding_utxos_def)
qed

lemma silent_check_tx_confirmed [simp]: "silent (check_tx_confirmed E h c cfg)"
  unfolding check_tx_confirmed_def check_bitcoin_confirmed_def check_bitcoin_confirmed_with_url_def
    check_cardano_confirmed_dolos_def check_cardano_confirmed_dolos_by_txid_def
    check_cardano_confirmed_blockfrost_def check_cardano_confirmed_blockfrost_by_txid_def
  by (intro silent_rules) simp_all

lemma silent_check_lock [simp]: "silent (check_lock_tx_confirmed E s pid cfg)"
  unfolding check_lock_tx_confirmed_def by (intro silent_rules) simp_all

lemma silent_refund_window [simp]: "silent (check_refund_window_open E s pid cfg)"
  unfolding check_refund_window_open_def fetch_bitcoin_tip_height_def fetch_cardano_tip_slot_def
    fetch_cardano_tip_slot_dolos_def fetch_cardano_tip_slot_blockfrost_def
  by (intro silent_rules) simp_all

lemma silent_check_leader_spend [simp]: "silent (check_leader_spend_confirmed E s pid cfg)"
  unfolding check_leader_spend_confirmed_def check_bitcoin_lock_utxo_spent_def Let_def
    check_cardano_lock_utxo_spent_dolos_def check_cardano_lock_utxo_spent_blockfrost_def
  by (intro silent_rules) simp_all

section \<open>When the refund window opens\<close>

text \<open>The locktime of a participant on its own chain, as a natural number, and the tip it is
  compared with.\<close>

definition window_reached :: "env \<Rightarrow> session \<Rightarrow> participant_id \<Rightarrow> http_response option \<Rightarrow> bool" where
  "window_reached E s pid resp =
     (case bt_get (participants s) pid of
        None \<Rightarrow> False
      | Some p \<Rightarrow>
          (case blockchain p of
             Bitcoin \<Rightarrow> (case refund_locktime_btc (overflow_checks E) s pid of
                           Inl _ \<Rightarrow> False | Inr l \<Rightarrow> unat l \<le> unat (height_of resp))
           | Cardano \<Rightarrow> (case refund_locktime_cardano (overflow_checks E) s pid of
                           Inl _ \<Rightarrow> False | Inr l \<Rightarrow> unat l < unat (slot_of E resp))))"

lemma unat_ucast_up: "unat (ucast (l :: u32) :: u64) = unat l"
  using unsigned_less [of l, where ?'a = nat] by (intro unat_ucast_small) simp

lemma wp_refund_window:
  "wp (check_refund_window_open E s pid cfg) (\<lambda>_ t'. t' = t)
     (\<lambda>open' t'. \<exists>rq r. t' = Http rq r # t \<and> rq_method rq = GET \<and> (open' \<longleftrightarrow> window_reached E s pid r)) t"
proof (cases "bt_get (participants s) pid")
  case None
  then show ?thesis by (simp add: check_refund_window_open_def wp_simps)
next
  case (Some p)
  show ?thesis
  proof (cases "blockchain p")
    case Bitcoin
    then show ?thesis
      by (cases "refund_locktime_btc (overflow_checks E) s pid")
        (simp_all add: check_refund_window_open_def Some wp_simps fetch_bitcoin_tip_height_def
          http_get_def window_reached_def word_le_nat_alt unat_ucast_up)
  next
    case Cardano
    then show ?thesis
      by (cases "refund_locktime_cardano (overflow_checks E) s pid"; cases "cardano_network cfg")
        (simp_all add: check_refund_window_open_def Some wp_simps fetch_cardano_tip_slot_def
          fetch_cardano_tip_slot_dolos_def fetch_cardano_tip_slot_blockfrost_def
          http_get_def http_get_key_def window_reached_def word_less_nat_alt)
  qed
qed

text \<open>An unreachable or unreadable tip counts as height and slot zero.\<close>

lemma tip_failure [simp]: "height_of None = 0" "slot_of E None = 0"
  by (simp_all add: height_of_def slot_of_def json_of_def unwrap_or_def)

lemma window_closed_on_failure:
  assumes "window_reached E s pid None"
  obtains p where "bt_get (participants s) pid = Some p" "blockchain p = Bitcoin"
    "refund_locktime_btc (overflow_checks E) s pid = Inr 0"
  using assms
  by (auto simp: window_reached_def unat_eq_0 split: option.splits blockchain.splits sum.splits)

section \<open>What a passed validation has seen\<close>

text \<open>The answers on the trace that let a participant's funding output pass.\<close>

definition funding_seen :: "env \<Rightarrow> participant \<Rightarrow> trace \<Rightarrow> bool" where
  "funding_seen E p t =
     (case blockchain p of
        Bitcoin \<Rightarrow>
          (\<exists>rq1 r1 d rq2 r2 x. Http rq1 r1 \<in> set t \<and> json_of r1 = Some d \<and>
             as_bool (json E) (j_index (json E) d ''spent'') = Some False \<and>
             Http rq2 r2 \<in> set t \<and> json_of r2 = Some x \<and>
             amount_locking p \<le> unwrap_or 0 (as_u64 (json E) (j_index (json E)
               (j_nth (json E) (j_index (json E) x ''vout'') (unat (funding_utxo_vout p))) ''value'')))
      | Cardano \<Rightarrow>
          (\<exists>rq r d. Http rq r \<in> set t \<and> ok_json r = Some d \<and>
             output_has_sufficient_lovelace E d (funding_utxo_vout p) (amount_locking p)))"

lemma wp_validate_participant:
  "wp (validate_participant_utxo E cfg p) (\<lambda>_ _. True)
     (\<lambda>ok t'. (ok \<longrightarrow> funding_seen E p t') \<and> set t \<subseteq> set t') t"
proof (cases "blockchain p")
  case Bitcoin
  let ?base = "mempool_base_url (bitcoin_network cfg)"
  let ?rq1 = "\<lparr>rq_method = GET, rq_url = url_path ?base [''tx'', funding_utxo_txid p, ''outspend'',
      show_nat (unat (funding_utxo_vout p))], rq_headers = [], rq_body = NoBody\<rparr>"
  let ?r1 = "net_answer E t ?rq1"
  let ?rq2 = "\<lparr>rq_method = GET, rq_url = url_path ?base [''tx'', funding_utxo_txid p],
      rq_headers = [], rq_body = NoBody\<rparr>"
  let ?r2 = "net_answer E (Http ?rq1 ?r1 # t) ?rq2"
  note defs = validate_participant_utxo_def validate_bitcoin_utxo_def wp_simps http_get_def Let_def
  show ?thesis
  proof (cases "json_of ?r1")
    case None
    then show ?thesis by (simp add: defs Bitcoin subset_insertI)
  next
    case j1: (Some d)
    show ?thesis
    proof (cases "as_bool (json E) (j_index (json E) d ''spent'') = Some False")
      case False
      then show ?thesis by (simp add: defs Bitcoin j1 subset_insertI)
    next
      case unspent: True
      show ?thesis
      proof (cases "json_of ?r2")
        case None
        then show ?thesis by (simp add: defs Bitcoin j1 unspent subset_insertI2 subset_insertI)
      next
        case j2: (Some x)
        have "funding_seen E p t'"
          if "Http ?rq1 ?r1 \<in> set t'" "Http ?rq2 ?r2 \<in> set t'"
            "amount_locking p \<le> unwrap_or 0 (as_u64 (json E) (j_index (json E)
               (j_nth (json E) (j_index (json E) x ''vout'') (unat (funding_utxo_vout p))) ''value''))"
          for t'
          unfolding funding_seen_def using that j1 j2 unspent Bitcoin by fastforce
        then show ?thesis
          by (simp add: defs Bitcoin j1 j2 unspent linorder_not_less subset_insertI2 subset_insertI)
      qed
    qed
  qed
next
  case Cardano
  then show ?thesis
    unfolding validate_participant_utxo_def
    by (cases "cardano_network cfg")
      (auto simp: wp_simps http_get_def http_get_key_def funding_seen_def
        validate_cardano_utxo_dolos_def validate_cardano_utxo_blockfrost_def split: option.splits)
qed

lemma funding_seen_mono: "funding_seen E p t \<Longrightarrow> set t \<subseteq> set t' \<Longrightarrow> funding_seen E p t'"
  unfolding funding_seen_def by (auto split: blockchain.splits) blast+

lemma wp_validate_loop:
  "wp (validate_utxos_loop E cfg ps) (\<lambda>_ _. True)
     (\<lambda>ok t'. (ok \<longrightarrow> (\<forall>p \<in> set ps. funding_seen E p t')) \<and> set t \<subseteq> set t') t"
proof (induction ps arbitrary: t)
  case Nil
  then show ?case by (simp add: wp_simps)
next
  case (Cons p ps)
  show ?case
    unfolding validate_utxos_loop.simps wp_bind
  proof (rule wp_mono [OF wp_validate_participant])
    fix ok t1 assume ok: "(ok \<longrightarrow> funding_seen E p t1) \<and> set t \<subseteq> set t1"
    show "wp (if \<not> ok then ret False else validate_utxos_loop E cfg ps) (\<lambda>_ _. True)
        (\<lambda>ok t'. (ok \<longrightarrow> (\<forall>p \<in> set (p # ps). funding_seen E p t')) \<and> set t \<subseteq> set t') t1"
    proof (cases ok)
      case False
      then show ?thesis using ok by (simp add: wp_simps)
    next
      case True
      then have "wp (validate_utxos_loop E cfg ps) (\<lambda>_ _. True)
          (\<lambda>ok t'. (ok \<longrightarrow> (\<forall>p \<in> set (p # ps). funding_seen E p t')) \<and> set t \<subseteq> set t') t1"
        using ok by (intro wp_mono [OF Cons.IH]) (auto intro: funding_seen_mono)
      then show ?thesis using True by simp
    qed
  qed simp
qed

section \<open>Confirmation of a lock\<close>

lemma wp_check_lock_tx_confirmed:
  "wp (check_lock_tx_confirmed E s pid cfg) (\<lambda>_ _. True)
     (\<lambda>s' t'. s' = s \<or> s' = s\<lparr>confirmed_lock_txs := insert pid (confirmed_lock_txs s)\<rparr> \<and>
        hm_get (lock_txs s) pid \<noteq> None \<and> pid \<in> set (bt_keys (participants s))) t"
proof (cases "bt_get (participants s) pid")
  case None
  then show ?thesis by (simp add: check_lock_tx_confirmed_def wp_simps)
next
  case (Some p)
  then have pid: "pid \<in> set (bt_keys (participants s))" by (rule bt_get_Some_keys)
  show ?thesis
  proof (cases "hm_get (lock_txs s) pid")
    case None
    then show ?thesis by (simp add: check_lock_tx_confirmed_def wp_simps Some)
  next
    case (Some h)
    let ?s1 = "s\<lparr>confirmed_lock_txs := insert pid (confirmed_lock_txs s)\<rparr>"
    have step: "wp (check_lock_tx_confirmed E s pid cfg) (\<lambda>_ _. True) Q t"
      if "\<And>t'. Q ?s1 t'" "\<And>t'. Q s t'" for Q
      using Some \<open>bt_get (participants s) pid = Some p\<close> that
      by (simp add: check_lock_tx_confirmed_def wp_simps) (rule wp_mono [OF wp_True], simp_all)
    show ?thesis by (rule step) (use pid Some in blast)+
  qed
qed

text \<open>The answer by which a lock counts as confirmed: for the transaction's own id, the indexer of its
  chain says so.\<close>

definition confirmed_by :: "env \<Rightarrow> daemon_config \<Rightarrow> blockchain \<Rightarrow> hex_string \<Rightarrow> effect \<Rightarrow> bool" where
  "confirmed_by E cfg chain h e =
     (case e of
        Http rq r \<Rightarrow>
          (case chain of
             Bitcoin \<Rightarrow>
               (\<exists>txid j. bitcoin_txid E h = Inr txid \<and>
                  rq_url rq = url_path (mempool_base_url (bitcoin_network cfg)) [''tx'', txid, ''status''] \<and>
                  json_of r = Some j \<and>
                  as_bool (json E) (j_index (json E) j ''confirmed'') = Some True)
           | Cardano \<Rightarrow>
               (\<exists>txid base. cardano_txid E h = Inr txid \<and> rq_url rq = url_path base [''txs'', txid] \<and>
                  answered_ok r))
      | _ \<Rightarrow> False)"

definition lock_evidence ::
  "env \<Rightarrow> daemon_config \<Rightarrow> participants \<Rightarrow> participant_id \<Rightarrow> trace \<Rightarrow> bool" where
  "lock_evidence E cfg ps k t \<longleftrightarrow>
     (\<exists>p h e. bt_get ps k = Some p \<and> e \<in> set t \<and> confirmed_by E cfg (blockchain p) h e)"

lemma lock_evidence_mono: "lock_evidence E cfg ps k t \<Longrightarrow> set t \<subseteq> set t' \<Longrightarrow> lock_evidence E cfg ps k t'"
  unfolding lock_evidence_def by blast

lemma blockfrost_path:
  "url_path base [''api'', ''v0'', ''txs'', txid] = url_path (url_path base [''api'', ''v0'']) [''txs'', txid]"
  by (simp add: url_path.simps)

lemma unwrap_or_False: "unwrap_or False x \<longleftrightarrow> x = Some True"
  by (simp add: unwrap_or_def split: option.split)

lemma wp_check_tx_confirmed:
  "wp (check_tx_confirmed E h chain cfg) (\<lambda>_ _. True)
     (\<lambda>ok t'. ok \<longrightarrow> (\<exists>e \<in> set t'. confirmed_by E cfg chain h e)) t"
proof (cases chain)
  case Bitcoin
  then show ?thesis
    by (cases "bitcoin_txid E h")
      (auto simp: check_tx_confirmed_def check_bitcoin_confirmed_def check_bitcoin_confirmed_with_url_def
        wp_simps http_get_def confirmed_by_def unwrap_or_False split: option.splits)
next
  case Cardano
  show ?thesis
  proof (cases "cardano_txid E h")
    case (Inl p)
    then show ?thesis
      by (cases "cardano_network cfg")
        (simp_all add: Cardano check_tx_confirmed_def check_cardano_confirmed_dolos_def
          check_cardano_confirmed_blockfrost_def wp_simps)
  next
    case (Inr txid)
    have c: "confirmed_by E cfg Cardano h (Http rq r)"
      if "rq_url rq = url_path base [''txs'', txid]" "answered_ok r" for rq r base
      unfolding confirmed_by_def using that Inr by auto
    show ?thesis
      by (cases "cardano_network cfg")
        (auto simp: Cardano check_tx_confirmed_def check_cardano_confirmed_dolos_def Inr
          check_cardano_confirmed_dolos_by_txid_def check_cardano_confirmed_blockfrost_def
          check_cardano_confirmed_blockfrost_by_txid_def wp_simps http_get_def http_get_key_def
          blockfrost_path intro: c)
  qed
qed

lemma emits_check_lock:
  "(\<And>rq r. P (Http rq r)) \<Longrightarrow> emits P (check_lock_tx_confirmed E s pid cfg)"
  unfolding check_lock_tx_confirmed_def check_tx_confirmed_def check_bitcoin_confirmed_def
    check_bitcoin_confirmed_with_url_def check_cardano_confirmed_dolos_def
    check_cardano_confirmed_dolos_by_txid_def check_cardano_confirmed_blockfrost_def
    check_cardano_confirmed_blockfrost_by_txid_def
  by (intro emits_rules emits_http_get)

lemma emits_check_leader_spend:
  "(\<And>rq r. P (Http rq r)) \<Longrightarrow> emits P (check_leader_spend_confirmed E s pid cfg)"
  unfolding check_leader_spend_confirmed_def check_bitcoin_lock_utxo_spent_def Let_def
    check_cardano_lock_utxo_spent_dolos_def check_cardano_lock_utxo_spent_blockfrost_def
  by (intro emits_rules emits_http_get)

lemma emits_refund_window:
  "(\<And>rq r. P (Http rq r)) \<Longrightarrow> emits P (check_refund_window_open E s pid cfg)"
  unfolding check_refund_window_open_def fetch_bitcoin_tip_height_def fetch_cardano_tip_slot_def
    fetch_cardano_tip_slot_dolos_def fetch_cardano_tip_slot_blockfrost_def
  by (intro emits_rules emits_http_get)

lemma emits_validate:
  assumes "\<And>rq r. P (Http rq r)"
  shows "emits P (validate_funding_utxos E s cfg)"
proof -
  have "emits P (validate_participant_utxo E cfg p)" for p
    unfolding validate_participant_utxo_def validate_bitcoin_utxo_def validate_cardano_utxo_dolos_def
      validate_cardano_utxo_blockfrost_def Let_def
    by (intro emits_rules emits_http_get assms)
  then have "emits P (validate_utxos_loop E cfg ps)" for ps
    by (induction ps) (auto intro!: emits_rules)
  then show ?thesis by (simp add: validate_funding_utxos_def)
qed

text \<open>A lock is confirmed only on such an answer.\<close>

lemma wp_check_lock_evidence:
  "wp (check_lock_tx_confirmed E s pid cfg) (\<lambda>_ _. True)
     (\<lambda>s' t'. s' = s \<or> s' = s\<lparr>confirmed_lock_txs := insert pid (confirmed_lock_txs s)\<rparr> \<and>
        lock_evidence E cfg (participants s) pid t') t"
proof (cases "bt_get (participants s) pid")
  case None
  then show ?thesis by (simp add: check_lock_tx_confirmed_def wp_simps)
next
  case p: (Some p)
  show ?thesis
  proof (cases "hm_get (lock_txs s) pid")
    case None
    then show ?thesis by (simp add: check_lock_tx_confirmed_def wp_simps p)
  next
    case (Some h)
    let ?s1 = "s\<lparr>confirmed_lock_txs := insert pid (confirmed_lock_txs s)\<rparr>"
    have step: "wp (check_lock_tx_confirmed E s pid cfg) (\<lambda>_ _. True) Q t"
      if "\<And>t' e. e \<in> set t' \<Longrightarrow> confirmed_by E cfg (blockchain p) h e \<Longrightarrow> Q ?s1 t'" "\<And>t'. Q s t'" for Q
      using Some p that
      by (simp add: check_lock_tx_confirmed_def wp_simps)
        (rule wp_mono [OF wp_check_tx_confirmed], auto)
    show ?thesis by (rule step) (use p in \<open>auto simp: lock_evidence_def\<close>)
  qed
qed

end
