(* ===== verification/Lock_Funds.thy ===== *)
theory Lock_Funds
  imports Multisig Cycle Chain_Monitor
begin

text \<open>
  \<open>src/swap-daemon/src/protocol/lock_funds.rs\<close>: the lock transactions of all participants,
  which every daemon builds for itself, and the submission of the daemon's own.
\<close>

section \<open>The code\<close>

fun btc_net_of :: "bitcoin_network \<Rightarrow> btc_net" where
  "btc_net_of BtcMainnet = NetBitcoin"
| "btc_net_of BtcTestnet4 = NetTestnet"
| "btc_net_of (BtcCustom _) = NetRegtest"

fun cardano_net_byte :: "cardano_network \<Rightarrow> u8" where
  "cardano_net_byte CarMainnet = CARDANO_MAINNET"
| "cardano_net_byte _ = CARDANO_TESTNET"

text \<open>The lock transaction of one participant, serialized.\<close>

definition lock_tx_hex_for ::
  "env \<Rightarrow> session \<Rightarrow> daemon_config \<Rightarrow> bytes \<Rightarrow> pubkey \<Rightarrow> participant_id \<Rightarrow> participant \<Rightarrow>
   hex_string res" where
  "lock_tx_hex_for E s cfg aggregate_addr agg_pubkey pid p =
     (case blockchain p of
        Bitcoin \<Rightarrow>
          res_bind (unwrap (txid_from_str (btc E) (funding_utxo_txid p))) (\<lambda>txid.
          Inr (btc_serialize_hex (btc E)
                (btc_build_lock_tx E \<lparr>op_txid = txid, op_vout = funding_utxo_vout p\<rparr>
                   (amount_locking p) aggregate_addr)))
      | Cardano \<Rightarrow>
          res_bind (refund_deadline_posix_ms (overflow_checks E) s pid (cardano_network cfg))
            (\<lambda>refund_deadline_ms.
          res_bind (build_lock_tx E (funding_utxo_txid p) (funding_utxo_vout p) (amount_locking p)
                      agg_pubkey (cardano_fee s) (cardano_net_byte (cardano_network cfg))
                      refund_deadline_ms) (\<lambda>lock_tx.
          Inr (hex_encode E (car_to_bytes (csl E) lock_tx)))))"

definition build_lock_txs :: "env \<Rightarrow> session \<Rightarrow> daemon_config \<Rightarrow> session res" where
  "build_lock_txs E s cfg =
     res_bind (bitcoin_pubkeys E (participants s)) (\<lambda>all_pubkeys.
     res_bind (aggregate_address E all_pubkeys (btc_net_of (bitcoin_network cfg))) (\<lambda>addr.
     res_bind (aggregate_pubkey E (participants s)) (\<lambda>agg.
     res_fold (\<lambda>st (pid, p).
         res_bind (lock_tx_hex_for E st cfg addr agg pid p) (\<lambda>h.
         Inr (st\<lparr>lock_txs := hm_insert pid h (lock_txs st)\<rparr>)))
       s (participants s))))"

text \<open>Signing and submitting the daemon's own lock.\<close>

definition submit_my_lock ::
  "env \<Rightarrow> participant \<Rightarrow> hex_string \<Rightarrow> swap_keys \<Rightarrow> daemon_config \<Rightarrow> bool act" where
  "submit_my_lock E p my_lock_tx_hex keys cfg =
     (case blockchain p of
        Bitcoin \<Rightarrow>
          bind (sign_bitcoin_lock_tx E my_lock_tx_hex p keys (mempool_base_url (bitcoin_network cfg)))
            (\<lambda>signed.
          case signed of
            Some signed_tx_hex \<Rightarrow>
              submit_bitcoin_tx E signed_tx_hex (mempool_base_url (bitcoin_network cfg))
          | None \<Rightarrow> ret False)
      | Cardano \<Rightarrow>
          bind (lift (sign_cardano_lock_tx E my_lock_tx_hex keys)) (\<lambda>signed_tx_hex.
          submit_cardano_tx E signed_tx_hex cfg))"

definition broadcast_my_lock_tx ::
  "env \<Rightarrow> session \<Rightarrow> swap_keys \<Rightarrow> daemon_config \<Rightarrow> (bool \<times> session) act" where
  "broadcast_my_lock_tx E s keys cfg =
     bind (lift (get_my_id (participants s))) (\<lambda>my_id.
     bind (lift (index_map (bt_get (participants s) my_id))) (\<lambda>me.
     bind (lift (unwrap (hm_get (lock_txs s) my_id))) (\<lambda>my_lock_tx_hex.
     bind (submit_my_lock E me my_lock_tx_hex keys cfg) (\<lambda>ok.
     if \<not> ok then ret (False, s)
     else
       bind (announce E (s\<lparr>lock_txs_broadcast := insert my_id (lock_txs_broadcast s)\<rparr>)
               my_id LockTxBroadcast)
         (\<lambda>s'. ret (True, s'))))))"

section \<open>Lemmas\<close>

lemma evolves_build_lock_txs: "build_lock_txs E s cfg = Inr s' \<Longrightarrow> evolves s s'"
proof -
  assume "build_lock_txs E s cfg = Inr s'"
  then obtain addr agg where fold: "res_fold (\<lambda>st (pid, p).
      res_bind (lock_tx_hex_for E st cfg addr agg pid p) (\<lambda>h.
      Inr (st\<lparr>lock_txs := hm_insert pid h (lock_txs st)\<rparr>))) s (participants s) = Inr s'"
    by (fastforce simp: build_lock_txs_def res_bind_Inr)
  show ?thesis
  proof (rule res_fold_invariant [OF _ _ fold])
    fix a b :: session and x
    assume "evolves s a" and "(case x of (pid, p) \<Rightarrow>
        res_bind (lock_tx_hex_for E a cfg addr agg pid p) (\<lambda>h.
        Inr (a\<lparr>lock_txs := hm_insert pid h (lock_txs a)\<rparr>))) = Inr b"
    then obtain m where b: "b = a\<lparr>lock_txs := m\<rparr>" and a: "evolves s a"
      by (auto simp: res_bind_Inr split: prod.splits)
    have "evolves a b" unfolding b by (rule evolves_same) (simp_all add: setup_of_def stores_step_def)
    with a show "evolves s b" by (rule evolves_trans)
  qed simp
qed

text \<open>The lock transactions depend on the setup of the session and the leader only: building them
  for one participant does not change what is built for the next.\<close>

lemma lock_tx_hex_for_cong:
  assumes "setup_of s' = setup_of s" "leader s' = leader s"
  shows "lock_tx_hex_for E s' cfg addr agg pid p = lock_tx_hex_for E s cfg addr agg pid p"
  using assms
  by (simp add: lock_tx_hex_for_def setup_of_def refund_deadline_posix_ms_def
      refund_locktime_cardano_def Let_def split: blockchain.split)

lemma fold_lock_txs:
  assumes "res_fold (\<lambda>st (pid, p). res_bind (lock_tx_hex_for E st cfg addr agg pid p) (\<lambda>h.
      Inr (st\<lparr>lock_txs := hm_insert pid h (lock_txs st)\<rparr>))) s0 ps = Inr s'"
    and "setup_of s0 = setup_of s" "leader s0 = leader s" and "distinct (map fst ps)"
  shows "(\<forall>(pid, p) \<in> set ps. \<exists>h. lock_tx_hex_for E s cfg addr agg pid p = Inr h \<and>
            hm_get (lock_txs s') pid = Some h) \<and>
    (\<forall>k. k \<notin> fst ` set ps \<longrightarrow> hm_get (lock_txs s') k = hm_get (lock_txs s0) k)"
  using assms
proof (induction ps arbitrary: s0)
  case Nil
  then show ?case by simp
next
  case (Cons kp ps)
  obtain pid p where kp: "kp = (pid, p)" by (cases kp)
  from Cons.prems(1) obtain h where h: "lock_tx_hex_for E s0 cfg addr agg pid p = Inr h"
    and rest: "res_fold (\<lambda>st (pid, p). res_bind (lock_tx_hex_for E st cfg addr agg pid p) (\<lambda>h.
      Inr (st\<lparr>lock_txs := hm_insert pid h (lock_txs st)\<rparr>)))
      (s0\<lparr>lock_txs := hm_insert pid h (lock_txs s0)\<rparr>) ps = Inr s'"
    by (auto simp: kp res_bind_Inr)
  have h': "lock_tx_hex_for E s cfg addr agg pid p = Inr h"
    using h lock_tx_hex_for_cong [OF Cons.prems(2,3)] by simp
  have IH: "(\<forall>(pid, p) \<in> set ps. \<exists>h. lock_tx_hex_for E s cfg addr agg pid p = Inr h \<and>
            hm_get (lock_txs s') pid = Some h) \<and>
    (\<forall>k. k \<notin> fst ` set ps \<longrightarrow>
       hm_get (lock_txs s') k = hm_get (lock_txs (s0\<lparr>lock_txs := hm_insert pid h (lock_txs s0)\<rparr>)) k)"
    by (rule Cons.IH [OF rest]) (use Cons.prems in \<open>simp_all add: setup_of_def\<close>)
  have "pid \<notin> fst ` set ps" using Cons.prems(4) by (simp add: kp)
  with IH have "hm_get (lock_txs s') pid = Some h" by simp
  with IH h' show ?case by (auto simp: kp)
qed

lemma build_lock_txs_all:
  assumes "bt_ok (participants s)" and "build_lock_txs E s cfg = Inr s'"
    and "bt_get (participants s) pid = Some p"
  shows "\<exists>addr agg h. aggregate_pubkey E (participants s) = Inr agg \<and>
    lock_tx_hex_for E s cfg addr agg pid p = Inr h \<and> hm_get (lock_txs s') pid = Some h"
proof -
  from assms(2) obtain addr agg where agg: "aggregate_pubkey E (participants s) = Inr agg"
    and fold: "res_fold (\<lambda>st (pid, p). res_bind (lock_tx_hex_for E st cfg addr agg pid p) (\<lambda>h.
      Inr (st\<lparr>lock_txs := hm_insert pid h (lock_txs st)\<rparr>))) s (participants s) = Inr s'"
    by (auto simp: build_lock_txs_def res_bind_Inr)
  have "(pid, p) \<in> set (participants s)"
    using assms(3) by (simp add: bt_get_def map_of_SomeD)
  then show ?thesis
    using fold_lock_txs [OF fold refl refl] bt_ok_distinct [OF assms(1)] agg
    by (fastforce simp: bt_keys_def)
qed

text \<open>The session and the messages of a submission: what is sent to the peers says that the
  daemon's own lock was broadcast, and only after a successful submission.\<close>

lemma evolving_broadcast_lock: "evolving snd s (broadcast_my_lock_tx E s keys cfg)"
proof -
  have e: "evolves s (s\<lparr>lock_txs_broadcast := a\<rparr>)" for a
    by (rule evolves_same) (simp_all add: setup_of_def stores_step_def)
  show ?thesis
    unfolding broadcast_my_lock_tx_def
    by (auto intro!: evolving_bind_any evolving_ret
        evolving_bind [OF evolving_announce [OF e]])
qed

lemma emits_submit_my_lock:
  "(\<And>rq r. P (Http rq r)) \<Longrightarrow> (\<And>u b k. P (GrpcSubmit u b k)) \<Longrightarrow>
   emits P (submit_my_lock E p h keys cfg)"
  unfolding submit_my_lock_def sign_bitcoin_lock_tx_def fetch_bitcoin_utxo_prevout_def
    submit_bitcoin_tx_def submit_cardano_tx_def submit_cardano_tx_blockfrost_def
    submit_cardano_tx_dolos_def Let_def
  by (intro emits_rules emits_http_get emits_http_post emits_grpc) auto

lemma emits_broadcast_lock: "emits (\<lambda>e. \<not> reveals e) (broadcast_my_lock_tx E s keys cfg)"
  unfolding broadcast_my_lock_tx_def
  by (intro emits_rules emits_submit_my_lock emits_announce) auto

interpretation lock_building: session_op "\<lambda>s. lift (build_lock_txs E s cfg)" for E cfg
  by unfold_locales (auto intro: evolving_lift evolves_build_lock_txs)

interpretation lock_broadcast: session_op
  "\<lambda>s. bind (broadcast_my_lock_tx E s keys cfg) (\<lambda>(_, s'). ret s')" for E keys cfg
  by unfold_locales
    (auto intro!: evolving_bind [OF evolving_broadcast_lock] evolving_ret emits_bind
      emits_broadcast_lock split: prod.splits)

end
