(* ===== verification/Refund_Txs.thy ===== *)
theory Refund_Txs
  imports Lock_Funds
begin

text \<open>
  \<open>src/swap-daemon/src/protocol/refund.rs\<close>: the refund transactions that every daemon builds
  for every participant, the opening of their signing rounds, and the submission of the daemon's
  own refund.
\<close>

section \<open>The code\<close>

fun position :: "('a \<Rightarrow> bool) \<Rightarrow> 'a list \<Rightarrow> nat \<Rightarrow> usize option" where
  "position P [] i = None"
| "position P (x # xs) i = (if P x then Some (of_nat i) else position P xs (Suc i))"

text \<open>The index of the daemon's own key among the participants' keys.\<close>

definition local_index :: "env \<Rightarrow> swap_keys \<Rightarrow> pubkey list \<Rightarrow> usize res" where
  "local_index E keys pubkeys =
     unwrap (position (\<lambda>pk. pk_serialize (musig E) pk = pk_serialize (musig E) (public_key keys))
               pubkeys 0)"

text \<open>The part common to both kinds of transaction: a fresh secret nonce, its public nonce stored and
  broadcast, and a signing session in its first round.\<close>

definition open_signing_round ::
  "env \<Rightarrow> swap_keys \<Rightarrow> participant_id \<Rightarrow> string list \<Rightarrow> usize \<Rightarrow> tx_role \<Rightarrow> bool \<Rightarrow> hex_string \<Rightarrow> bytes \<Rightarrow>
   session \<Rightarrow> session act" where
  "open_signing_round E keys my_id pks idx role tweak unsigned_tx_hex m s =
     bind (random_bytes E 32) (\<lambda>seed.
     let sec_nonce = sec_nonce_build (musig E) seed (secret_key keys) m;
         our_nonce_str = nonce_to_string (musig E) (sec_nonce_public (musig E) sec_nonce);
         sec_nonce_bytes = sec_nonce_serialize (musig E) sec_nonce;
         s' = s\<lparr>unsigned_txs := hm_insert role unsigned_tx_hex (unsigned_txs s),
                schnorr_nonces := hm_insert2 my_id role our_nonce_str (schnorr_nonces s),
                musig_sessions :=
                  hm_insert role (RoundOne pks idx m tweak sec_nonce_bytes) (musig_sessions s)\<rparr> in
     announce E s' my_id (SchnorrNonce role our_nonce_str))"

text \<open>The unsigned refund of a Bitcoin lock and the hash it is signed over.\<close>

definition refund_unsigned_btc ::
  "env \<Rightarrow> session \<Rightarrow> participant_id \<Rightarrow> participant \<Rightarrow> (hex_string \<times> bytes) res" where
  "refund_unsigned_btc E s pid p =
     res_bind (refund_locktime_btc (overflow_checks E) s pid) (\<lambda>locktime.
     res_bind (unwrap (hm_get (lock_txs s) pid)) (\<lambda>lock_tx_hex.
     res_bind (unwrap (btc_deserialize_hex (btc E) lock_tx_hex)) (\<lambda>lock_tx.
     let lock_txid = compute_txid (btc E) lock_tx in
     res_bind (index_list (tx_output lock_tx) 0) (\<lambda>lock_tx_output.
     res_bind (btc_build_refund_tx E \<lparr>op_txid = lock_txid, op_vout = 0\<rparr> p locktime (bitcoin_fee s))
       (\<lambda>unsigned_tx.
     res_bind (compute_sighash E unsigned_tx lock_tx_output) (\<lambda>m.
     Inr (btc_serialize_hex (btc E) unsigned_tx, m)))))))"

text \<open>The unsigned refund of a Cardano lock; the signed message is the hash of the lock's id under
  the refund domain tag.\<close>

definition refund_unsigned_cardano ::
  "env \<Rightarrow> session \<Rightarrow> participant_id \<Rightarrow> participant \<Rightarrow> (hex_string \<times> bytes) res" where
  "refund_unsigned_cardano E s pid p =
     res_bind (refund_locktime_cardano (overflow_checks E) s pid) (\<lambda>refund_slot.
     res_bind (unwrap (hm_get (lock_txs s) pid)) (\<lambda>lock_tx_hex.
     res_bind (unwrap (hex_decode E lock_tx_hex)) (\<lambda>lock_tx_bytes.
     res_bind (unwrap (fixed_tx_hash (csl E) lock_tx_bytes)) (\<lambda>lock_txhash.
     let collateral = map_option (\<lambda>c. (utxo_txid c, utxo_index c)) (hm_get (cardano_collaterals s) pid) in
     res_bind (build_refund_tx E p lock_txhash refund_slot (cardano_fee s) collateral) (\<lambda>unsigned_tx.
     Inr (hex_encode E (car_to_bytes (csl E) unsigned_tx), blake2b256 E (1 # lock_txhash)))))))"

definition refund_unsigned ::
  "env \<Rightarrow> session \<Rightarrow> participant_id \<Rightarrow> participant \<Rightarrow> (hex_string \<times> bytes) res" where
  "refund_unsigned E s pid p =
     (case blockchain p of
        Bitcoin \<Rightarrow> refund_unsigned_btc E s pid p
      | Cardano \<Rightarrow> refund_unsigned_cardano E s pid p)"

definition refund_step ::
  "env \<Rightarrow> swap_keys \<Rightarrow> participant_id \<Rightarrow> string list \<Rightarrow> usize \<Rightarrow> session \<Rightarrow> participant_id \<Rightarrow> session act" where
  "refund_step E keys my_id pks idx s pid =
     bind (lift (index_map (bt_get (participants s) pid))) (\<lambda>p.
     bind (lift (refund_unsigned E s pid p)) (\<lambda>(unsigned_tx_hex, m).
     open_signing_round E keys my_id pks idx (Refund pid) (blockchain p = Bitcoin)
       unsigned_tx_hex m s))"

definition begin_refund_signing :: "env \<Rightarrow> session \<Rightarrow> swap_keys \<Rightarrow> session act" where
  "begin_refund_signing E s keys =
     bind (lift (bitcoin_pubkeys E (participants s))) (\<lambda>pubkeys.
     bind (lift (local_index E keys pubkeys)) (\<lambda>idx.
     let pks = map (pk_to_string (musig E)) pubkeys in
     bind (lift (get_my_id (participants s))) (\<lambda>my_id.
     io_fold (refund_step E keys my_id pks idx) s (bt_keys (participants s)))))"

text \<open>The transaction to submit: on Cardano with the collateral's witness, when there is one.\<close>

definition with_collateral :: "env \<Rightarrow> session \<Rightarrow> swap_keys \<Rightarrow> participant_id \<Rightarrow> hex_string \<Rightarrow> hex_string res" where
  "with_collateral E s keys my_id signed_tx_hex =
     (if hm_contains (cardano_collaterals s) my_id
      then add_collateral_witness E signed_tx_hex (wallet_secret_key keys) (wallet_public_key keys)
      else Inr signed_tx_hex)"

definition broadcast_my_refund_tx ::
  "env \<Rightarrow> session \<Rightarrow> swap_keys \<Rightarrow> daemon_config \<Rightarrow> (bool \<times> session) act" where
  "broadcast_my_refund_tx E s keys cfg =
     bind (lift (get_my_id (participants s))) (\<lambda>my_id.
     let role = Refund my_id in
     case hm_get (signed_txs s) role of
       None \<Rightarrow> ret (False, s)
     | Some signed_tx_hex \<Rightarrow>
         bind (lift (index_map (bt_get (participants s) my_id))) (\<lambda>me.
         case blockchain me of
           Bitcoin \<Rightarrow>
             bind (submit_bitcoin_tx E signed_tx_hex (mempool_base_url (bitcoin_network cfg)))
               (\<lambda>ok. ret (ok, s))
         | Cardano \<Rightarrow>
             bind (lift (with_collateral E s keys my_id signed_tx_hex)) (\<lambda>tx_to_submit.
             bind (submit_cardano_tx E tx_to_submit cfg) (\<lambda>ok.
             ret (ok, s\<lparr>signed_txs := hm_insert role tx_to_submit (signed_txs s)\<rparr>)))))"

section \<open>Lemmas\<close>

lemma evolving_open_round:
  "evolves s0 s \<Longrightarrow> evolving (\<lambda>x. x) s0 (open_signing_round E keys me pks idx role tweak h m s)"
proof -
  assume s: "evolves s0 s"
  have "evolves s (s\<lparr>unsigned_txs := a, schnorr_nonces := b, musig_sessions := c\<rparr>)" for a b c
    by (rule evolves_same) (simp_all add: setup_of_def stores_step_def)
  then have e: "evolves s0 (s\<lparr>unsigned_txs := a, schnorr_nonces := b, musig_sessions := c\<rparr>)" for a b c
    using s evolves_trans by blast
  show ?thesis
    unfolding open_signing_round_def Let_def by (intro evolving_bind_any evolving_announce e)
qed

lemma emits_open_round: "emits (\<lambda>e. \<not> reveals e) (open_signing_round E keys me pks idx role tweak h m s)"
  unfolding open_signing_round_def Let_def by (intro emits_rules emits_announce) auto

interpretation refund_signing: session_op "\<lambda>s. begin_refund_signing E s keys" for E keys
proof unfold_locales
  fix s
  have "evolving (\<lambda>x. x) s (refund_step E keys me pks idx a k)" if "evolves s a" for a k me pks idx
    unfolding refund_step_def
    by (auto intro!: evolving_bind_any evolving_open_round that split: prod.splits)
  then show "evolving (\<lambda>x. x) s (begin_refund_signing E s keys)"
    unfolding begin_refund_signing_def Let_def
    by (intro evolving_bind_any evolving_fold) auto
  show "emits (\<lambda>e. \<not> reveals e) (begin_refund_signing E s keys)"
    unfolding begin_refund_signing_def Let_def refund_step_def
    by (intro emits_rules emits_fold emits_open_round)
qed

lemma evolving_broadcast_refund: "evolving snd s (broadcast_my_refund_tx E s keys cfg)"
proof -
  have e: "evolves s (s\<lparr>signed_txs := a\<rparr>)" for a
    by (rule evolves_same) (simp_all add: setup_of_def stores_step_def)
  show ?thesis
    unfolding broadcast_my_refund_tx_def Let_def
    by (auto intro!: evolving_bind_any evolving_ret e split: option.splits blockchain.splits)
qed

lemma emits_submit:
  assumes "\<And>rq r. P (Http rq r)" "\<And>u b k. P (GrpcSubmit u b k)"
  shows "emits P (submit_bitcoin_tx E h url)" "emits P (submit_cardano_tx E h cfg)"
  unfolding submit_bitcoin_tx_def submit_cardano_tx_def submit_cardano_tx_blockfrost_def
    submit_cardano_tx_dolos_def
  by (intro emits_rules emits_http_post emits_grpc assms)+

lemma emits_broadcast_refund:
  "(\<And>rq r. P (Http rq r)) \<Longrightarrow> (\<And>u b k. P (GrpcSubmit u b k)) \<Longrightarrow>
   emits P (broadcast_my_refund_tx E s keys cfg)"
  unfolding broadcast_my_refund_tx_def Let_def by (intro emits_rules emits_submit)

interpretation refund_broadcast: session_op
  "\<lambda>s. bind (broadcast_my_refund_tx E s keys cfg) (\<lambda>(_, s'). ret s')" for E keys cfg
  by unfold_locales
    (auto intro!: evolving_bind [OF evolving_broadcast_refund] evolving_ret emits_bind
      emits_broadcast_refund split: prod.splits)

text \<open>The refund of a Bitcoin lock spends that lock, pays the locked amount less the fee and cannot be
  mined before the locktime of its owner.\<close>

lemma refund_unsigned_btc_fields:
  assumes "refund_unsigned_btc E s pid p = Inr (h, m)" and "bitcoin_fee s \<le> amount_locking p"
    and "\<And>x l. lock_time_from_height (btc E) x = Some l \<Longrightarrow> l = x"
  shows "\<exists>lt lock_hex lock tx. refund_locktime_btc (overflow_checks E) s pid = Inr lt \<and>
    hm_get (lock_txs s) pid = Some lock_hex \<and> btc_deserialize_hex (btc E) lock_hex = Some lock \<and>
    h = btc_serialize_hex (btc E) tx \<and> lock_time tx = lt \<and>
    map previous_output (tx_input tx) = [\<lparr>op_txid = compute_txid (btc E) lock, op_vout = 0\<rparr>] \<and>
    map (unat \<circ> out_value) (tx_output tx) = [unat (amount_locking p) - unat (bitcoin_fee s)] \<and>
    taproot_sighash (btc E) tx 0 [hd (tx_output lock)] = Some m"
proof -
  from assms(1) obtain lt lock_hex lock out tx where
    lt: "refund_locktime_btc (overflow_checks E) s pid = Inr lt"
    and lh: "hm_get (lock_txs s) pid = Some lock_hex"
    and l: "btc_deserialize_hex (btc E) lock_hex = Some lock"
    and out: "index_list (tx_output lock) 0 = Inr out"
    and tx: "btc_build_refund_tx E \<lparr>op_txid = compute_txid (btc E) lock, op_vout = 0\<rparr> p lt (bitcoin_fee s) = Inr tx"
    and m: "compute_sighash E tx out = Inr m" and h: "h = btc_serialize_hex (btc E) tx"
    by (auto simp: refund_unsigned_btc_def res_bind_Inr Let_def)
  have "hd (tx_output lock) = out" using out by (cases "tx_output lock") (auto simp: index_list_def)
  then show ?thesis
    using refund_tx_fields [OF tx assms(2,3)] lt lh l m h by (auto simp: compute_sighash_def)
qed

lemma refund_unsigned_cardano_fields:
  assumes "builder_keeps (csl E)" and "refund_unsigned_cardano E s pid p = Inr (h, m)"
    and "overflow_checks E \<or> 2 * unat (cardano_fee s) \<le> unat (amount_locking p)"
  shows "\<exists>slot lock_hex b txh tx out. refund_locktime_cardano (overflow_checks E) s pid = Inr slot \<and>
    hm_get (lock_txs s) pid = Some lock_hex \<and> hex_decode E lock_hex = Some b \<and>
    fixed_tx_hash (csl E) b = Some txh \<and> h = encode_car_tx E tx \<and> m = blake2b256 E (1 # txh) \<and>
    cb_inputs (ct_body tx) = [(txh, 0)] \<and> cb_outputs (ct_body tx) = [out] \<and>
    cb_validity_start (ct_body tx) = Some slot \<and>
    unat (co_value out) + 2 * unat (cardano_fee s) = unat (amount_locking p)"
proof -
  from assms(2) obtain slot lh b txh tx c where
    *: "refund_locktime_cardano (overflow_checks E) s pid = Inr slot"
      "hm_get (lock_txs s) pid = Some lh" "hex_decode E lh = Some b"
      "fixed_tx_hash (csl E) b = Some txh" "h = hex_encode E (car_to_bytes (csl E) tx)"
      "m = blake2b256 E (1 # txh)"
    and tx: "build_refund_tx E p txh slot (cardano_fee s) c = Inr tx"
    by (auto simp: refund_unsigned_cardano_def res_bind_Inr Let_def)
  show ?thesis
    by (rule build_refund_tx_fields [OF assms(1) tx assms(3)]) (use * in \<open>auto simp: encode_car_tx_def\<close>)
qed

end
