(* ===== verification/Spend_Txs.thy ===== *)
theory Spend_Txs
  imports Refund_Txs
begin

text \<open>
  \<open>src/swap-daemon/src/protocol/spend.rs\<close>: the transactions with which each participant claims
  its target's lock, the opening of their signing rounds, and the submission of the daemon's own.
\<close>

section \<open>The code\<close>

definition spend_unsigned_btc ::
  "env \<Rightarrow> session \<Rightarrow> participant_id \<Rightarrow> participant \<Rightarrow> (hex_string \<times> bytes) res" where
  "spend_unsigned_btc E s target_id p =
     res_bind (unwrap (hm_get (lock_txs s) target_id)) (\<lambda>lock_tx_hex.
     res_bind (unwrap (btc_deserialize_hex (btc E) lock_tx_hex)) (\<lambda>lock_tx.
     let lock_txid = compute_txid (btc E) lock_tx in
     res_bind (index_list (tx_output lock_tx) 0) (\<lambda>lock_tx_output.
     res_bind (btc_build_spend_tx E \<lparr>op_txid = lock_txid, op_vout = 0\<rparr> p (bitcoin_fee s))
       (\<lambda>unsigned_tx.
     res_bind (compute_sighash E unsigned_tx lock_tx_output) (\<lambda>m.
     Inr (btc_serialize_hex (btc E) unsigned_tx, m))))))"

definition cardano_spend_fee :: u64 where
  "cardano_spend_fee = 2000000"

definition spend_unsigned_cardano ::
  "env \<Rightarrow> session \<Rightarrow> participant_id \<Rightarrow> participant_id \<Rightarrow> participant \<Rightarrow> (hex_string \<times> bytes) res" where
  "spend_unsigned_cardano E s pid target_id p =
     res_bind (unwrap (hm_get (lock_txs s) target_id)) (\<lambda>lock_tx_hex.
     res_bind (unwrap (hex_decode E lock_tx_hex)) (\<lambda>lock_tx_bytes.
     res_bind (unwrap (fixed_tx_hash (csl E) lock_tx_bytes)) (\<lambda>lock_txhash.
     res_bind (unwrap (car_from_bytes (csl E) lock_tx_bytes)) (\<lambda>lock_tx.
     res_bind (index_list (cb_outputs (ct_body lock_tx)) 0) (\<lambda>out.
     let lock_utxo_value = co_value out;
         collateral = map_option (\<lambda>c. (utxo_txid c, utxo_index c)) (hm_get (cardano_collaterals s) pid) in
     res_bind (sub_chk (overflow_checks E) lock_utxo_value cardano_spend_fee) (\<lambda>output_amount.
     res_bind (build_spend_tx E p lock_txhash cardano_spend_fee output_amount collateral)
       (\<lambda>unsigned_tx.
     Inr (hex_encode E (car_to_bytes (csl E) unsigned_tx), lock_txhash))))))))"

definition spend_step ::
  "env \<Rightarrow> swap_keys \<Rightarrow> participant_id \<Rightarrow> string list \<Rightarrow> usize \<Rightarrow> session \<Rightarrow> participant_id \<Rightarrow> session act" where
  "spend_step E keys my_id pks idx s pid =
     bind (lift (index_map (bt_get (participants s) pid))) (\<lambda>p.
     let target_id = target_participant p in
     bind (lift (index_map (bt_get (participants s) target_id))) (\<lambda>target.
     bind (lift (case blockchain target of
             Bitcoin \<Rightarrow> spend_unsigned_btc E s target_id p
           | Cardano \<Rightarrow> spend_unsigned_cardano E s pid target_id p)) (\<lambda>(unsigned_tx_hex, m).
     open_signing_round E keys my_id pks idx (Spend pid) (blockchain target = Bitcoin)
       unsigned_tx_hex m s)))"

definition begin_spend_signing :: "env \<Rightarrow> session \<Rightarrow> swap_keys \<Rightarrow> session act" where
  "begin_spend_signing E s keys =
     bind (lift (bitcoin_pubkeys E (participants s))) (\<lambda>pubkeys.
     bind (lift (local_index E keys pubkeys)) (\<lambda>idx.
     let pks = map (pk_to_string (musig E)) pubkeys in
     bind (lift (get_my_id (participants s))) (\<lambda>my_id.
     io_fold (spend_step E keys my_id pks idx) s (bt_keys (participants s)))))"

text \<open>The result of the submission is ignored.\<close>

definition broadcast_my_spend_tx ::
  "env \<Rightarrow> session \<Rightarrow> swap_keys \<Rightarrow> daemon_config \<Rightarrow> session act" where
  "broadcast_my_spend_tx E s keys cfg =
     bind (lift (get_my_id (participants s))) (\<lambda>my_id.
     let role = Spend my_id in
     case hm_get (signed_txs s) role of
       None \<Rightarrow> ret s
     | Some signed_tx_hex \<Rightarrow>
         bind (lift (index_map (bt_get (participants s) my_id))) (\<lambda>me.
         bind (lift (index_map (bt_get (participants s) (target_participant me)))) (\<lambda>target.
         case blockchain target of
           Bitcoin \<Rightarrow>
             bind (submit_bitcoin_tx E signed_tx_hex (mempool_base_url (bitcoin_network cfg)))
               (\<lambda>_. ret s)
         | Cardano \<Rightarrow>
             bind (lift (with_collateral E s keys my_id signed_tx_hex)) (\<lambda>tx_to_submit.
             bind (submit_cardano_tx E tx_to_submit cfg) (\<lambda>_.
             ret (s\<lparr>signed_txs := hm_insert role tx_to_submit (signed_txs s)\<rparr>))))))"

section \<open>Lemmas\<close>

interpretation spend_signing: session_op "\<lambda>s. begin_spend_signing E s keys" for E keys
proof unfold_locales
  fix s
  have "evolving (\<lambda>x. x) s (spend_step E keys me pks idx a k)" if "evolves s a" for a k me pks idx
    unfolding spend_step_def Let_def
    by (auto intro!: evolving_bind_any evolving_open_round that split: prod.splits)
  then show "evolving (\<lambda>x. x) s (begin_spend_signing E s keys)"
    unfolding begin_spend_signing_def Let_def
    by (intro evolving_bind_any evolving_fold) auto
  show "emits (\<lambda>e. \<not> reveals e) (begin_spend_signing E s keys)"
    unfolding begin_spend_signing_def Let_def spend_step_def
    by (intro emits_rules emits_fold emits_open_round)
qed

interpretation spend_broadcast: session_op "\<lambda>s. broadcast_my_spend_tx E s keys cfg" for E keys cfg
proof unfold_locales
  fix s
  have e: "evolves s (s\<lparr>signed_txs := a\<rparr>)" for a
    by (rule evolves_same) (simp_all add: setup_of_def stores_step_def)
  show "evolving (\<lambda>x. x) s (broadcast_my_spend_tx E s keys cfg)"
    unfolding broadcast_my_spend_tx_def Let_def
    by (auto intro!: evolving_bind_any evolving_ret e split: option.splits blockchain.splits)
  show "emits (\<lambda>e. \<not> reveals e) (broadcast_my_spend_tx E s keys cfg)"
    unfolding broadcast_my_spend_tx_def Let_def
    by (intro emits_rules emits_submit) auto
qed

lemma emits_broadcast_spend:
  "(\<And>rq r. P (Http rq r)) \<Longrightarrow> (\<And>u b k. P (GrpcSubmit u b k)) \<Longrightarrow>
   emits P (broadcast_my_spend_tx E s keys cfg)"
  unfolding broadcast_my_spend_tx_def Let_def by (intro emits_rules emits_submit)

text \<open>The spend of a Cardano lock takes the lock's first output, pays its value less the fixed fee, and
  is signed over the id of the lock itself.\<close>

lemma spend_unsigned_cardano_fields:
  assumes "builder_keeps (csl E)" and "spend_unsigned_cardano E s pid tid p = Inr (h, m)"
    and "overflow_checks E"
  shows "\<exists>lock_hex b lock o0 tx out. hm_get (lock_txs s) tid = Some lock_hex \<and>
    hex_decode E lock_hex = Some b \<and> fixed_tx_hash (csl E) b = Some m \<and>
    car_from_bytes (csl E) b = Some lock \<and> cb_outputs (ct_body lock) \<noteq> [] \<and>
    o0 = hd (cb_outputs (ct_body lock)) \<and> h = encode_car_tx E tx \<and>
    cb_inputs (ct_body tx) = [(m, 0)] \<and> cb_outputs (ct_body tx) = [out] \<and>
    unat (co_value out) + 2000000 = unat (co_value o0)"
proof -
  from assms(2) obtain lh b lock o0 val c tx where
    *: "hm_get (lock_txs s) tid = Some lh" "hex_decode E lh = Some b"
      "fixed_tx_hash (csl E) b = Some m" "car_from_bytes (csl E) b = Some lock"
      "h = hex_encode E (car_to_bytes (csl E) tx)"
    and o0: "index_list (cb_outputs (ct_body lock)) 0 = Inr o0"
    and val: "sub_chk (overflow_checks E) (co_value o0) cardano_spend_fee = Inr val"
    and tx: "build_spend_tx E p m cardano_spend_fee val c = Inr tx"
    by (auto simp: spend_unsigned_cardano_def res_bind_Inr Let_def)
  from tx obtain addr out body where
    out: "build_output E addr None val = Inr out"
    and body: "set_collateral_opt E c (new_tx_body [(m, 0)] [out] cardano_spend_fee) = Inr body"
    and t: "tx = \<lparr>ct_body = body, ct_witness = no_witness\<rparr>"
    by (auto simp: build_spend_tx_def res_bind_Inr)
  have v: "unat val + 2000000 = unat (co_value o0)"
    using sub_chk_Inr_exact [OF val] assms(3) by (simp add: cardano_spend_fee_def)
  have ne: "cb_outputs (ct_body lock) \<noteq> []" "hd (cb_outputs (ct_body lock)) = o0"
    using o0 by (cases "cb_outputs (ct_body lock)"; simp add: index_list_def)+
  show ?thesis
    using * ne v t set_collateral_opt_Inr [OF body] build_output_Inr [OF assms(1) out]
    by (auto simp: encode_car_tx_def)
qed

end
