(* ===== verification/Secret.thy ===== *)
theory Secret
  imports Spend_Txs
begin

text \<open>
  \<open>src/swap-daemon/src/protocol/secret.rs\<close>: finding the transaction that consumed the lock the
  leader claims, taking its signature from the chain, extracting the aggregate adaptor secret
  from it and adapting the daemon's own spend with it.
\<close>

section \<open>Signatures of confirmed transactions\<close>

definition fetch_valid_sig_bitcoin :: "env \<Rightarrow> hex_string \<Rightarrow> string \<Rightarrow> bytes option act" where
  "fetch_valid_sig_bitcoin E unsigned_tx_hex base_url =
     bind (lift (unwrap (btc_deserialize_hex (btc E) unsigned_tx_hex))) (\<lambda>tx.
     let txid = compute_txid (btc E) tx in
     bind (http_get E (url_path base_url [''tx'', txid, ''hex''])) (\<lambda>resp.
     case resp of
       None \<Rightarrow> ret None
     | Some r \<Rightarrow>
         if \<not> rs_success r then ret None
         else (case Option.bind (rs_text r) (btc_deserialize_hex (btc E)) of
                 None \<Rightarrow> ret None
               | Some confirmed \<Rightarrow>
                   bind (lift (index_list (tx_input confirmed) 0)) (\<lambda>input.
                   ret (case witness input of [] \<Rightarrow> None | w # _ \<Rightarrow> Some w)))))"

text \<open>The signature in the first redeemer: absent redeemers and other data are no signature, an empty
  list of either panics.\<close>

definition redeemer_signature :: "car_tx \<Rightarrow> bytes option res" where
  "redeemer_signature tx =
     (case cw_redeemers (ct_witness tx) of
        None \<Rightarrow> Inr None
      | Some rds \<Rightarrow>
          res_bind (index_list rds 0) (\<lambda>rd.
          case rd_data rd of
            PConstr _ flds \<Rightarrow>
              res_bind (index_list flds 0) (\<lambda>d. Inr (case d of PBytes b \<Rightarrow> Some b | _ \<Rightarrow> None))
          | _ \<Rightarrow> Inr None))"

text \<open>The transaction in the \<open>cbor\<close> field of a successful answer.\<close>

definition tx_of_cbor :: "env \<Rightarrow> http_response option \<Rightarrow> car_tx option" where
  "tx_of_cbor E resp =
     Option.bind (ok_json resp) (\<lambda>body.
     Option.bind (as_str (json E) (j_index (json E) body ''cbor'')) (\<lambda>h.
     Option.bind (hex_decode E h) (car_from_bytes (csl E))))"

definition signature_of_answer :: "env \<Rightarrow> http_response option \<Rightarrow> bytes option act" where
  "signature_of_answer E resp =
     (case tx_of_cbor E resp of None \<Rightarrow> ret None | Some tx \<Rightarrow> lift (redeemer_signature tx))"

definition fetch_valid_sig_cardano_blockfrost ::
  "env \<Rightarrow> string \<Rightarrow> string \<Rightarrow> string \<Rightarrow> bytes option act" where
  "fetch_valid_sig_cardano_blockfrost E txid base_url api_key =
     bind (http_get_key E (url_path base_url [''api'', ''v0'', ''txs'', txid, ''cbor'']) api_key)
       (signature_of_answer E)"

definition fetch_valid_sig_cardano_dolos :: "env \<Rightarrow> string \<Rightarrow> string \<Rightarrow> bytes option act" where
  "fetch_valid_sig_cardano_dolos E txid rest =
     bind (http_get E (url_path rest [''txs'', txid, ''cbor''])) (signature_of_answer E)"

section \<open>Spend or refund\<close>

definition used_refund :: "car_tx \<Rightarrow> bool option" where
  "used_refund tx =
     Option.bind (cw_redeemers (ct_witness tx)) (\<lambda>rds.
     Some (list_ex (\<lambda>rd. case rd_data rd of PConstr i _ \<Rightarrow> i = 1 | _ \<Rightarrow> False) rds))"

definition cardano_spend_used_refund_redeemer :: "env \<Rightarrow> string \<Rightarrow> string \<Rightarrow> bool option act" where
  "cardano_spend_used_refund_redeemer E txid rest =
     bind (http_get E (url_path rest [''txs'', txid, ''cbor''])) (\<lambda>resp.
     ret (Option.bind (tx_of_cbor E resp) used_refund))"

definition cardano_spend_used_refund_redeemer_blockfrost ::
  "env \<Rightarrow> string \<Rightarrow> string \<Rightarrow> string \<Rightarrow> bool option act" where
  "cardano_spend_used_refund_redeemer_blockfrost E txid base_url api_key =
     bind (http_get_key E (url_path base_url [''api'', ''v0'', ''txs'', txid, ''cbor'']) api_key)
       (\<lambda>resp. ret (Option.bind (tx_of_cbor E resp) used_refund))"

section \<open>The spending transaction\<close>

text \<open>Whether the inputs in an answer name the first output of the lock.\<close>

definition spends_lock :: "env \<Rightarrow> string \<Rightarrow> json \<Rightarrow> bool" where
  "spends_lock E lock_txid utxos =
     lists_lock_utxo E lock_txid
       (unwrap_or [] (as_array (json E) (j_index (json E) utxos ''inputs'')))"

text \<open>The loop over the address's transactions, with the two requests it makes per entry: the first
  entry that cannot be read ends the search, and the first one that spends the lock decides
  it.\<close>

fun find_spend_loop ::
  "env \<Rightarrow> string \<Rightarrow> (string \<Rightarrow> http_response option act) \<Rightarrow> (string \<Rightarrow> bool option act) \<Rightarrow>
   json list \<Rightarrow> string option act" where
  "find_spend_loop E lock_txid get_utxos refund_check [] = ret None"
| "find_spend_loop E lock_txid get_utxos refund_check (entry # entries) =
     (case as_str (json E) (j_index (json E) entry ''tx_hash'') of
        None \<Rightarrow> ret None
      | Some tx_hash \<Rightarrow>
          bind (get_utxos tx_hash) (\<lambda>resp.
          case json_of resp of
            None \<Rightarrow> ret None
          | Some utxos \<Rightarrow>
              if spends_lock E lock_txid utxos then
                bind (refund_check tx_hash) (\<lambda>refund.
                  if refund = Some True then ret None else ret (Some tx_hash))
              else find_spend_loop E lock_txid get_utxos refund_check entries))"

definition find_cardano_spend_txid_dolos :: "env \<Rightarrow> string \<Rightarrow> string \<Rightarrow> string option act" where
  "find_cardano_spend_txid_dolos E lock_txid rest =
     bind (lift (unwrap (address_to_bech32 (csl E) (script_address E CARDANO_TESTNET)))) (\<lambda>addr.
     bind (http_get E (url_path rest [''addresses'', addr, ''transactions''])) (\<lambda>resp.
     case Option.bind (ok_json resp) (as_array (json E)) of
       None \<Rightarrow> ret None
     | Some tx_list \<Rightarrow>
         find_spend_loop E lock_txid
           (\<lambda>h. http_get E (url_path rest [''txs'', h, ''utxos'']))
           (\<lambda>h. cardano_spend_used_refund_redeemer E h rest) tx_list))"

definition find_cardano_spend_txid_blockfrost ::
  "env \<Rightarrow> string \<Rightarrow> string \<Rightarrow> string \<Rightarrow> string option act" where
  "find_cardano_spend_txid_blockfrost E lock_txid base_url api_key =
     bind (lift (unwrap (address_to_bech32 (csl E) (script_address E CARDANO_TESTNET)))) (\<lambda>addr.
     bind (http_get_key E
             (url_path base_url [''api'', ''v0'', ''addresses'', addr, ''transactions'']) api_key)
       (\<lambda>resp.
     case Option.bind (ok_json resp) (as_array (json E)) of
       None \<Rightarrow> ret None
     | Some tx_list \<Rightarrow>
         find_spend_loop E lock_txid
           (\<lambda>h. http_get_key E (url_path base_url [''api'', ''v0'', ''txs'', h, ''utxos'']) api_key)
           (\<lambda>h. cardano_spend_used_refund_redeemer_blockfrost E h base_url api_key) tx_list))"

section \<open>Extraction\<close>

text \<open>The signature with which the leader's target's lock was consumed, as far as the chain shows
  it.\<close>

definition leader_signature ::
  "env \<Rightarrow> session \<Rightarrow> participant_id \<Rightarrow> hex_string \<Rightarrow> daemon_config \<Rightarrow> bytes option act" where
  "leader_signature E s leader_id unsigned_tx_hex cfg =
     bind (lift (index_map (bt_get (participants s) leader_id))) (\<lambda>leader_p.
     let target_id = target_participant leader_p in
     bind (lift (index_map (bt_get (participants s) target_id))) (\<lambda>target.
     case blockchain target of
       Bitcoin \<Rightarrow>
         fetch_valid_sig_bitcoin E unsigned_tx_hex (mempool_base_url (bitcoin_network cfg))
     | Cardano \<Rightarrow>
         bind (lift (unwrap (hm_get (lock_txs s) target_id))) (\<lambda>lock_hex.
         bind (lift (cardano_txid E lock_hex)) (\<lambda>lock_txid.
         case cardano_network cfg of
           CarCustom _ _ _ \<Rightarrow>
             bind (lift (unwrap (dolos_rest_url (cardano_network cfg)))) (\<lambda>rest.
             bind (find_cardano_spend_txid_dolos E lock_txid rest) (\<lambda>txid.
             case txid of
               Some h \<Rightarrow> fetch_valid_sig_cardano_dolos E h rest
             | None \<Rightarrow> ret None))
         | n \<Rightarrow>
             bind (lift (blockfrost_base_url n)) (\<lambda>base.
             bind (find_cardano_spend_txid_blockfrost E lock_txid base (blockfrost_api_key cfg))
               (\<lambda>txid.
             case txid of
               Some h \<Rightarrow> fetch_valid_sig_cardano_blockfrost E h base (blockfrost_api_key cfg)
             | None \<Rightarrow> ret None))))))"

text \<open>Storing the secret and adapting the daemon's own spend, when it has an adaptor signature.\<close>

definition adapt_with_secret ::
  "env \<Rightarrow> session \<Rightarrow> participant_id \<Rightarrow> scalar \<Rightarrow> daemon_config \<Rightarrow> session act" where
  "adapt_with_secret E s leader_id agg_secret cfg =
     (let s' = s\<lparr>adaptor_secrets :=
                   hm_insert leader_id (hex_encode E (scalar_serialize (musig E) agg_secret))
                     (adaptor_secrets s)\<rparr> in
      bind (lift (get_my_id (participants s'))) (\<lambda>my_id.
      if hm_contains (adaptor_sigs s') (Spend my_id)
      then adapt_role_with E s' (Spend my_id) agg_secret cfg
      else ret s'))"

definition extract_secret_and_adapt ::
  "env \<Rightarrow> session \<Rightarrow> participant_id \<Rightarrow> daemon_config \<Rightarrow> (bool \<times> session) act" where
  "extract_secret_and_adapt E s leader_id cfg =
     (let role = Spend leader_id in
      bind (lift (unwrap (hm_get (unsigned_txs s) role))) (\<lambda>unsigned_tx_hex.
      bind (leader_signature E s leader_id unsigned_tx_hex cfg) (\<lambda>sig_opt.
      case sig_opt of
        None \<Rightarrow> ret (False, s)
      | Some sig_bytes \<Rightarrow>
          bind (lift (unwrap (hm_get (adaptor_sigs s) role))) (\<lambda>adaptor_sig_hex.
          bind (lift (unwrap (hex_decode E adaptor_sig_hex))) (\<lambda>b.
          bind (lift (unwrap (adaptor_from_bytes (musig E) b))) (\<lambda>adaptor_sig.
          case lifted_from_bytes (musig E) sig_bytes of
            None \<Rightarrow> ret (False, s)
          | Some valid_sig \<Rightarrow>
              bind (lift (compute_adaptor_secret (musig E) adaptor_sig valid_sig)) (\<lambda>secret_opt.
              case secret_opt of
                None \<Rightarrow> ret (False, s)
              | Some agg_secret \<Rightarrow>
                  bind (adapt_with_secret E s leader_id agg_secret cfg) (\<lambda>s'.
                  ret (True, s')))))))))"

section \<open>Lemmas\<close>

lemma silent_find_loop [simp]:
  "(\<And>h. silent (g h)) \<Longrightarrow> (\<And>h. silent (c h)) \<Longrightarrow> silent (find_spend_loop E l g c es)"
  by (induction es) (auto intro!: silent_option silent_bind silent_if)

text \<open>A transaction is reported only when an answer on the trace lists the lock among its inputs, and the
  search is over at the first such transaction.\<close>

lemma wp_find_loop:
  assumes "\<And>h t. wp (g h) (\<lambda>_ _. True) (\<lambda>r t'. G h r) t" and "\<And>h t. wp (c h) (\<lambda>_ _. True) (\<lambda>r t'. C h r) t"
  shows "wp (find_spend_loop E l g c es) (\<lambda>_ _. True)
    (\<lambda>r _. case r of None \<Rightarrow> True
       | Some h \<Rightarrow> (\<exists>e \<in> set es. as_str (json E) (j_index (json E) e ''tx_hash'') = Some h) \<and>
           (\<exists>resp u x. G h resp \<and> json_of resp = Some u \<and> spends_lock E l u \<and> C h x \<and> x \<noteq> Some True)) t"
proof (induction es arbitrary: t)
  case Nil
  then show ?case by (simp add: wp_simps)
next
  case (Cons e es)
  let ?post = "\<lambda>es r. case r of None \<Rightarrow> True
       | Some h \<Rightarrow> (\<exists>e \<in> set es. as_str (json E) (j_index (json E) e ''tx_hash'') = Some h) \<and>
           (\<exists>resp u x. G h resp \<and> json_of resp = Some u \<and> spends_lock E l u \<and> C h x \<and> x \<noteq> Some True)"
  show ?case
  proof (cases "as_str (json E) (j_index (json E) e ''tx_hash'')")
    case None
    then show ?thesis by (simp add: wp_simps)
  next
    case (Some h)
    have "wp (case json_of r of None \<Rightarrow> ret None | Some utxos \<Rightarrow>
              if spends_lock E l utxos then
                bind (c h) (\<lambda>refund. if refund = Some True then ret None else ret (Some h))
              else find_spend_loop E l g c es) (\<lambda>_ _. True) (\<lambda>r _. ?post (e # es) r) t'"
      if r: "G h r" for r t'
    proof (cases "json_of r")
      case None
      then show ?thesis by (simp add: wp_simps)
    next
      case u: (Some u)
      show ?thesis
      proof (cases "spends_lock E l u")
        case True
        have "wp (c h) (\<lambda>_ _. True) (\<lambda>x t'. wp (if x = Some True then ret None else ret (Some h))
            (\<lambda>_ _. True) (\<lambda>r _. ?post (e # es) r) t') t'"
          by (rule wp_mono [OF assms(2)]) (use r u True Some in \<open>auto simp: wp_simps\<close>)
        then show ?thesis using u True by (simp add: wp_simps)
      next
        case False
        have "wp (find_spend_loop E l g c es) (\<lambda>_ _. True) (\<lambda>r _. ?post (e # es) r) t'"
          by (rule wp_mono [OF Cons.IH]) (auto split: option.splits)
        then show ?thesis using u False by simp
      qed
    qed
    then have "wp (g h) (\<lambda>_ _. True) (\<lambda>r. wp (case json_of r of None \<Rightarrow> ret None | Some utxos \<Rightarrow>
              if spends_lock E l utxos then
                bind (c h) (\<lambda>refund. if refund = Some True then ret None else ret (Some h))
              else find_spend_loop E l g c es) (\<lambda>_ _. True) (\<lambda>r _. ?post (e # es) r)) t"
      by (intro wp_mono [OF assms(1)]) auto
    then show ?thesis by (simp add: Some wp_bind)
  qed
qed

lemma silent_signature [simp]: "silent (signature_of_answer E r)"
  unfolding signature_of_answer_def by (intro silent_rules) simp_all

lemma silent_leader_signature [simp]: "silent (leader_signature E s l h cfg)"
proof -
  have f: "silent (cardano_spend_used_refund_redeemer E h rest)"
    "silent (cardano_spend_used_refund_redeemer_blockfrost E h base key)" for h rest base key
    unfolding cardano_spend_used_refund_redeemer_def cardano_spend_used_refund_redeemer_blockfrost_def
    by (intro silent_rules; simp)+
  show ?thesis
    unfolding leader_signature_def fetch_valid_sig_bitcoin_def fetch_valid_sig_cardano_dolos_def
      fetch_valid_sig_cardano_blockfrost_def find_cardano_spend_txid_dolos_def
      find_cardano_spend_txid_blockfrost_def Let_def
    by (intro silent_rules) (simp_all add: f)
qed

lemma emits_find_loop:
  "(\<And>h. emits P (g h)) \<Longrightarrow> (\<And>h. emits P (c h)) \<Longrightarrow> emits P (find_spend_loop E l g c es)"
  by (induction es) (auto intro!: emits_rules)

lemma emits_leader_signature:
  assumes "\<And>rq r. P (Http rq r)"
  shows "emits P (leader_signature E s l h cfg)"
  unfolding leader_signature_def fetch_valid_sig_bitcoin_def fetch_valid_sig_cardano_dolos_def
    fetch_valid_sig_cardano_blockfrost_def find_cardano_spend_txid_dolos_def
    find_cardano_spend_txid_blockfrost_def signature_of_answer_def Let_def
    cardano_spend_used_refund_redeemer_def cardano_spend_used_refund_redeemer_blockfrost_def
  by (intro emits_rules emits_find_loop emits_http_get assms)

lemma evolving_adapt_with_secret: "evolving (\<lambda>x. x) s (adapt_with_secret E s l x cfg)"
proof -
  have e: "evolves s (s\<lparr>adaptor_secrets := hm_insert k a (adaptor_secrets s)\<rparr>)" for k a
    by (rule evolves_same) (simp_all add: setup_of_def stores_step_def)
  show ?thesis
    unfolding adapt_with_secret_def Let_def
    by (auto intro!: evolving_bind_any evolving_ret e adaptation.evolving_from)
qed

lemma evolving_extract: "evolving snd s (extract_secret_and_adapt E s l cfg)"
  unfolding extract_secret_and_adapt_def Let_def
  by (auto intro!: evolving_bind_lift evolving_bind_any [of _ _ _ "leader_signature E s l h cfg" for h]
      evolving_ret evolving_bind [OF evolving_adapt_with_secret] split: option.splits)

lemma emits_extract:
  assumes "\<And>rq r. P (Http rq r)"
  shows "emits P (extract_secret_and_adapt E s l cfg)"
  unfolding extract_secret_and_adapt_def adapt_with_secret_def adapt_role_with_def Let_def
  by (intro emits_rules emits_leader_signature emits_attach_sig assms)

interpretation extraction: session_op
  "\<lambda>s. bind (extract_secret_and_adapt E s l cfg) (\<lambda>(_, s'). ret s')" for E l cfg
  by unfold_locales
    (auto intro!: evolving_bind [OF evolving_extract] evolving_ret emits_bind emits_extract
      split: prod.splits)

text \<open>Success means that the stored secret is the one the published signature reveals; failure leaves the
  session as it was.\<close>

definition revealed :: "env \<Rightarrow> session \<Rightarrow> participant_id \<Rightarrow> scalar \<Rightarrow> bool" where
  "revealed E s leader_id x \<longleftrightarrow>
     (\<exists>h b asig full sig_bytes. hm_get (adaptor_sigs s) (Spend leader_id) = Some h \<and>
        hex_decode E h = Some b \<and> adaptor_from_bytes (musig E) b = Some asig \<and>
        lifted_from_bytes (musig E) sig_bytes = Some full \<and>
        compute_adaptor_secret (musig E) asig full = Inr (Some x))"

lemma wp_adapt_with_secret:
  "wp (adapt_with_secret E s l x cfg) (\<lambda>_ _. True)
     (\<lambda>s' _. hm_get (adaptor_secrets s') l = Some (hex_encode E (scalar_serialize (musig E) x))) t"
  by (auto simp: adapt_with_secret_def adapt_role_with_def Let_def wp_simps
      intro!: wp_mono [OF wp_True] split: sum.splits)

lemma wp_extract:
  "wp (extract_secret_and_adapt E s l cfg) (\<lambda>_ _. True)
     (\<lambda>(ok, s') _. if ok then \<exists>x. revealed E s l x \<and>
          hm_get (adaptor_secrets s') l = Some (hex_encode E (scalar_serialize (musig E) x))
        else s' = s) t"
proof (cases "hm_get (unsigned_txs s) (Spend l)")
  case None
  then show ?thesis by (simp add: extract_secret_and_adapt_def Let_def wp_simps)
next
  case (Some h)
  let ?post = "\<lambda>(ok, s') (_ :: trace). if ok then \<exists>x. revealed E s l x \<and>
          hm_get (adaptor_secrets s') l = Some (hex_encode E (scalar_serialize (musig E) x))
        else s' = s"
  have fin: "wp (bind (adapt_with_secret E s l x cfg) (\<lambda>s'. ret (True, s'))) (\<lambda>_ _. True) ?post t'"
    if "revealed E s l x" for x t'
    unfolding wp_bind by (rule wp_mono [OF wp_adapt_with_secret]) (use that in \<open>auto simp: wp_simps\<close>)
  let ?cont = "\<lambda>sig_bytes.
      bind (lift (unwrap (hm_get (adaptor_sigs s) (Spend l)))) (\<lambda>adaptor_sig_hex.
      bind (lift (unwrap (hex_decode E adaptor_sig_hex))) (\<lambda>b.
      bind (lift (unwrap (adaptor_from_bytes (musig E) b))) (\<lambda>adaptor_sig.
      case lifted_from_bytes (musig E) sig_bytes of
        None \<Rightarrow> ret (False, s)
      | Some valid_sig \<Rightarrow>
          bind (lift (compute_adaptor_secret (musig E) adaptor_sig valid_sig)) (\<lambda>secret_opt.
          case secret_opt of
            None \<Rightarrow> ret (False, s)
          | Some agg_secret \<Rightarrow>
              bind (adapt_with_secret E s l agg_secret cfg) (\<lambda>s'. ret (True, s'))))))"
  have cont: "wp (?cont sig_bytes) (\<lambda>_ _. True) ?post t'" for sig_bytes t'
  proof (cases "hm_get (adaptor_sigs s) (Spend l)")
    case None
    then show ?thesis by (simp add: wp_simps)
  next
    case 1: (Some ah)
    show ?thesis
    proof (cases "hex_decode E ah")
      case None
      then show ?thesis by (simp add: wp_simps 1)
    next
      case 2: (Some b)
      show ?thesis
      proof (cases "adaptor_from_bytes (musig E) b")
        case None
        then show ?thesis by (simp add: wp_simps 1 2)
      next
        case 3: (Some asig)
        have "wp (bind (lift (compute_adaptor_secret (musig E) asig full)) (\<lambda>secret_opt.
            case secret_opt of
              None \<Rightarrow> ret (False, s)
            | Some agg_secret \<Rightarrow>
                bind (adapt_with_secret E s l agg_secret cfg) (\<lambda>s'. ret (True, s'))))
          (\<lambda>_ _. True) ?post t'" if full: "lifted_from_bytes (musig E) sig_bytes = Some full" for full
        proof (cases "compute_adaptor_secret (musig E) asig full")
          case (Inl e)
          then show ?thesis by (simp add: wp_simps)
        next
          case (Inr so)
          show ?thesis
          proof (cases so)
            case None
            then show ?thesis by (simp add: wp_simps Inr)
          next
            case (Some x)
            then have "revealed E s l x" unfolding revealed_def using 1 2 3 full Inr by blast
            from fin [OF this, of t'] show ?thesis using Inr Some by (simp add: wp_bind wp_lift)
          qed
        qed
        then show ?thesis
          by (cases "lifted_from_bytes (musig E) sig_bytes") (simp_all add: wp_bind wp_lift wp_ret 1 2 3)
      qed
    qed
  qed
  have "wp (leader_signature E s l h cfg) (\<lambda>_ _. True)
      (\<lambda>so. wp (case so of None \<Rightarrow> ret (False, s) | Some sb \<Rightarrow> ?cont sb) (\<lambda>_ _. True) ?post) t"
    by (rule wp_mono [OF wp_True]) (use cont in \<open>simp_all add: wp_ret split: option.split\<close>)
  then show ?thesis
    by (simp add: extract_secret_and_adapt_def Let_def wp_bind [of "lift r" for r] wp_lift Some
        wp_bind [of "leader_signature E s l h cfg"])
qed

end
