(* ===== verification/Swap_Session.thy ===== *)
theory Swap_Session
  imports Leader_Election Secret
begin

text \<open>
  \<open>src/swap-daemon/src/protocol/session.rs\<close>: the creation of a session and the handler of the
  peers' messages, one definition for each kind of message.
\<close>

section \<open>Creation\<close>

text \<open>The scalar of the crate is not zero, so its point is not the point at infinity.\<close>

definition session_new ::
  "env \<Rightarrow> session_id \<Rightarrow> participants \<Rightarrow> u32 \<Rightarrow> u64 \<Rightarrow> u64 \<Rightarrow> u64 \<Rightarrow> session act" where
  "session_new E sid ps sblock sslot bfee cfee =
     bind (lift (check_cyclic ps)) (\<lambda>cyclic.
     if \<not> cyclic then lift (Inl (PanicMsg ''Not a cyclic swap.''))
     else
       bind (random_bytes E 32) (\<lambda>secret_bytes.
       bind (lift (unwrap (scalar_from_slice (musig E) secret_bytes))) (\<lambda>adaptor_secret.
       bind (lift (unwrap (base_point_mul (musig E) (Some adaptor_secret)))) (\<lambda>adaptor_point.
       bind (lift (unwrap (List.find is_me (bt_values ps)))) (\<lambda>me.
       let my_id = p_id me in
       ret (session_literal sid ps sblock sslot bfee cfee
              (hm_insert my_id (hex_encode E (scalar_serialize (musig E) adaptor_secret)) [])
              (hm_insert my_id (point_to_string (musig E) adaptor_point) [])))))))"

section \<open>Messages of the setup\<close>

definition on_adaptor_point :: "env \<Rightarrow> session \<Rightarrow> string \<Rightarrow> participant_id \<Rightarrow> session act" where
  "on_adaptor_point E s pnt pid =
     (let s1 = s\<lparr>adaptor_points := hm_insert pid pnt (adaptor_points s)\<rparr> in
      if all_adaptor_points_received s1 \<and> state s1 = AwaitingAdaptorPoints then
        let s2 = transition_to AwaitingLeaderElectionCommitments s1 in
        bind (lift (get_my_id (participants s2))) (\<lambda>my_id.
        if \<not> bt_contains (leader_commitments s2) my_id then start_leader_election E s2 else ret s2)
      else ret s1)"

definition on_leader_commitment :: "env \<Rightarrow> session \<Rightarrow> bytes \<Rightarrow> participant_id \<Rightarrow> session act" where
  "on_leader_commitment E s commitment pid =
     bind (lift (get_my_id (participants s))) (\<lambda>my_id.
     bind (if \<not> bt_contains (leader_commitments s) my_id
           then bind (start_leader_election E s)
                  (\<lambda>s1. ret (transition_to AwaitingLeaderElectionCommitments s1))
           else ret s) (\<lambda>s1.
     let s2 = received_leader_commitment s1 commitment pid in
     if all_leader_commitments_received s2 \<and> state s2 \<noteq> AwaitingLeaderElectionNonces then
       bind (lift (unwrap (bt_get (leader_nonces s2) my_id))) (\<lambda>my_nonce.
       bind (broadcast_leader_nonce E s2 my_nonce) (\<lambda>s3.
       ret (transition_to AwaitingLeaderElectionNonces s3)))
     else ret s2))"

definition on_leader_nonce ::
  "env \<Rightarrow> daemon_config \<Rightarrow> swap_keys \<Rightarrow> session \<Rightarrow> bytes \<Rightarrow> participant_id \<Rightarrow> session act" where
  "on_leader_nonce E cfg keys s nonce pid =
     bind (lift (received_leader_nonce E s nonce pid)) (\<lambda>s1.
     if all_leader_nonces_received s1 \<and> musig_sessions s1 = [] then
       bind (lift (compute_leader E s1)) (\<lambda>s2.
       bind (lift (build_lock_txs E (transition_to RefundAndSpendTxsSigning s2) cfg)) (\<lambda>s3.
       bind (begin_refund_signing E s3 keys) (\<lambda>s4.
       begin_spend_signing E s4 keys)))
     else ret s1)"

section \<open>Messages of the signing rounds\<close>

definition on_schnorr_nonce ::
  "env \<Rightarrow> swap_keys \<Rightarrow> session \<Rightarrow> tx_role \<Rightarrow> string \<Rightarrow> participant_id \<Rightarrow> session act" where
  "on_schnorr_nonce E keys s role nonce pid =
     (let s1 = s\<lparr>schnorr_nonces := hm_insert2 pid role nonce (schnorr_nonces s)\<rparr> in
      if all_schnorr_nonces_received_for s1 role then transition_to_round_two E s1 keys role
      else ret s1)"

text \<open>The funding step: the daemon's own lock is submitted, and the outcome decides the state.\<close>

definition fund :: "env \<Rightarrow> daemon_config \<Rightarrow> swap_keys \<Rightarrow> session \<Rightarrow> session act" where
  "fund E cfg keys s =
     (let s1 = transition_to Funding s in
      bind (broadcast_my_lock_tx E s1 keys cfg) (\<lambda>(ok, s2).
      ret (transition_to (if ok then AwaitingLockConfirmations else Failed) s2)))"

definition on_partial_signature ::
  "env \<Rightarrow> daemon_config \<Rightarrow> swap_keys \<Rightarrow> session \<Rightarrow> tx_role \<Rightarrow> string \<Rightarrow> participant_id \<Rightarrow> session act" where
  "on_partial_signature E cfg keys s role sg pid =
     (let s1 = s\<lparr>partial_sigs := hm_insert2 pid role sg (partial_sigs s)\<rparr> in
      bind (if all_partial_sigs_received_for s1 role then finalize_role E s1 keys role cfg else ret s1)
        (\<lambda>s2.
      if all_partial_sigs_received_for_all_refund_and_spend_txs s2 then fund E cfg keys s2
      else ret s2))"

section \<open>Messages of the claims\<close>

definition on_lock_tx_broadcast :: "session \<Rightarrow> participant_id \<Rightarrow> session" where
  "on_lock_tx_broadcast s pid = s\<lparr>lock_txs_broadcast := insert pid (lock_txs_broadcast s)\<rparr>"

text \<open>The leader's claim.\<close>

definition leader_claims ::
  "env \<Rightarrow> daemon_config \<Rightarrow> swap_keys \<Rightarrow> session \<Rightarrow> participant_id \<Rightarrow> session act" where
  "leader_claims E cfg keys s my_id =
     (let role = Spend my_id in
      bind (if hm_contains (adaptor_sigs s) role then adapt_role E s role cfg else ret s) (\<lambda>s1.
      bind (broadcast_my_spend_tx E (transition_to Claiming s1) keys cfg) (\<lambda>s2.
      bind (announce E s2 my_id SpendTxBroadcast) (\<lambda>s3.
      ret (transition_to Completed s3)))))"

definition on_secret_reveal ::
  "env \<Rightarrow> daemon_config \<Rightarrow> swap_keys \<Rightarrow> session \<Rightarrow> string \<Rightarrow> participant_id \<Rightarrow> session act" where
  "on_secret_reveal E cfg keys s secret pid =
     (let s1 = s\<lparr>adaptor_secrets := hm_insert pid secret (adaptor_secrets s)\<rparr> in
      if all_adaptor_secrets_received s1 then
        bind (lift (unwrap (leader s1))) (\<lambda>leader_id.
        bind (lift (get_my_id (participants s1))) (\<lambda>my_id.
        if my_id = leader_id then leader_claims E cfg keys s1 my_id
        else ret (transition_to AwaitingLeaderSpend s1)))
      else ret s1)"

section \<open>The handler\<close>

definition handle_session_message ::
  "env \<Rightarrow> daemon_config \<Rightarrow> swap_keys \<Rightarrow> session \<Rightarrow> wire_message \<Rightarrow> participant_id \<Rightarrow> session act" where
  "handle_session_message E cfg keys s m pid =
     (if terminal (state s) then ret s
      else case m of
          AdaptorPoint pnt \<Rightarrow> on_adaptor_point E s pnt pid
        | LeaderElectionCommitment c \<Rightarrow> on_leader_commitment E s c pid
        | LeaderElectionNonce n \<Rightarrow> on_leader_nonce E cfg keys s n pid
        | SchnorrNonce role n \<Rightarrow> on_schnorr_nonce E keys s role n pid
        | PartialSignature role sg \<Rightarrow> on_partial_signature E cfg keys s role sg pid
        | LockTxBroadcast \<Rightarrow> ret (on_lock_tx_broadcast s pid)
        | SecretReveal secret \<Rightarrow> on_secret_reveal E cfg keys s secret pid
        | SpendTxBroadcast \<Rightarrow> ret s)"

section \<open>The handlers keep the session\<close>

lemma evolves_fields [simp]:
  "evolves s (s\<lparr>adaptor_points := hm_insert k a (adaptor_points s)\<rparr>)" "evolves s (s\<lparr>schnorr_nonces := b\<rparr>)"
  "evolves s (s\<lparr>partial_sigs := b\<rparr>)" "evolves s (s\<lparr>lock_txs_broadcast := c\<rparr>)"
  "evolves s (s\<lparr>adaptor_secrets := hm_insert k d (adaptor_secrets s)\<rparr>)"
  by (rule evolves_same; simp add: setup_of_def stores_step_def)+

lemma evolves_transition_from: "evolves s0 s \<Longrightarrow> evolves s0 (transition_to st s)"
  using evolves_transition evolves_trans by blast

interpretation adaptor_point_handler: session_op "\<lambda>s. on_adaptor_point E s pnt pid" for E pnt pid
proof unfold_locales
  fix s
  show "evolving (\<lambda>x. x) s (on_adaptor_point E s pnt pid)"
    unfolding on_adaptor_point_def Let_def
    by (auto intro!: evolving_bind_lift evolving_ret election.evolving_from evolves_transition_from)
  show "emits (\<lambda>e. \<not> reveals e) (on_adaptor_point E s pnt pid)"
    unfolding on_adaptor_point_def Let_def by (intro emits_rules election.op_discreet)
qed

interpretation commitment_handler: session_op "\<lambda>s. on_leader_commitment E s c pid" for E c pid
proof unfold_locales
  fix s
  have start: "evolving (\<lambda>x. x) s (if \<not> bt_contains (leader_commitments s) my_id
      then bind (start_leader_election E s)
             (\<lambda>s1. ret (transition_to AwaitingLeaderElectionCommitments s1))
      else ret s)" for my_id
    by (auto intro!: evolving_bind [OF election.evolving_op] evolving_ret evolves_transition_from)
  have recv: "evolves s0 s1 \<Longrightarrow> evolves s0 (received_leader_commitment s1 c pid)" for s0 s1
    using evolves_received_commitment evolves_trans by blast
  show "evolving (\<lambda>x. x) s (on_leader_commitment E s c pid)"
    unfolding on_leader_commitment_def Let_def
    by (auto intro!: evolving_bind_lift evolving_bind [OF start] evolving_ret recv
        evolving_bind [OF nonce_announcement.evolving_from] evolves_transition_from)
  show "emits (\<lambda>e. \<not> reveals e) (on_leader_commitment E s c pid)"
    unfolding on_leader_commitment_def Let_def
    by (intro emits_rules election.op_discreet nonce_announcement.op_discreet)
qed

interpretation nonce_handler: session_op "\<lambda>s. on_leader_nonce E cfg keys s n pid"
  for E cfg keys n pid
proof unfold_locales
  fix s
  have "evolving (\<lambda>x. x) s (bind (begin_refund_signing E s3 keys) (\<lambda>s4. begin_spend_signing E s4 keys))"
    if "evolves s s3" for s3
    by (rule evolving_bind [OF refund_signing.evolving_from [OF that]]) (rule spend_signing.evolving_from)
  moreover have "evolves s s3" if "received_leader_nonce E s n pid = Inr s1"
      "compute_leader E s1 = Inr s2"
      "build_lock_txs E (transition_to RefundAndSpendTxsSigning s2) cfg = Inr s3" for s1 s2 s3
    using evolves_received_nonce [OF that(1)] evolves_compute_leader [OF that(2)]
      evolves_transition [of s2] evolves_build_lock_txs [OF that(3)] evolves_trans by blast
  ultimately show "evolving (\<lambda>x. x) s (on_leader_nonce E cfg keys s n pid)"
    unfolding on_leader_nonce_def
    by (auto intro!: evolving_bind_lift evolving_ret evolves_received_nonce)
  show "emits (\<lambda>e. \<not> reveals e) (on_leader_nonce E cfg keys s n pid)"
    unfolding on_leader_nonce_def
    by (intro emits_rules refund_signing.op_discreet spend_signing.op_discreet)
qed

interpretation schnorr_handler: session_op "\<lambda>s. on_schnorr_nonce E keys s role n pid"
  for E keys role n pid
  by unfold_locales
    (auto simp: on_schnorr_nonce_def Let_def intro!: evolving_ret second_round.evolving_from
      second_round.op_discreet)

interpretation funding: session_op "\<lambda>s. fund E cfg keys s" for E cfg keys
proof unfold_locales
  fix s
  have b: "evolving snd s (broadcast_my_lock_tx E (transition_to Funding s) keys cfg)"
    by (rule evolving_weaken [OF evolves_transition evolving_broadcast_lock])
  show "evolving (\<lambda>x. x) s (fund E cfg keys s)"
    unfolding fund_def Let_def
    by (auto intro!: evolving_bind [OF b] evolving_ret evolves_transition_from split: prod.splits)
  show "emits (\<lambda>e. \<not> reveals e) (fund E cfg keys s)"
    unfolding fund_def Let_def by (intro emits_rules emits_broadcast_lock)
qed

interpretation partial_sig_handler: session_op "\<lambda>s. on_partial_signature E cfg keys s role sg pid"
  for E cfg keys role sg pid
proof unfold_locales
  fix s :: session
  let ?s1 = "s\<lparr>partial_sigs := hm_insert2 pid role sg (partial_sigs s)\<rparr>"
  have f: "evolving (\<lambda>x. x) s (if all_partial_sigs_received_for ?s1 role
      then finalize_role E ?s1 keys role cfg else ret ?s1)"
    by (auto intro!: finalization.evolving_from evolving_ret)
  show "evolving (\<lambda>x. x) s (on_partial_signature E cfg keys s role sg pid)"
    unfolding on_partial_signature_def Let_def
    by (rule evolving_bind [OF f]) (auto intro!: funding.evolving_from evolving_ret)
  show "emits (\<lambda>e. \<not> reveals e) (on_partial_signature E cfg keys s role sg pid)"
    unfolding on_partial_signature_def Let_def
    by (intro emits_rules finalization.op_discreet funding.op_discreet)
qed

interpretation leader_claim: session_op "\<lambda>s. leader_claims E cfg keys s me" for E cfg keys me
proof unfold_locales
  fix s
  have a: "evolving (\<lambda>x. x) s (if hm_contains (adaptor_sigs s) (Spend me)
      then adapt_role E s (Spend me) cfg else ret s)"
    by (auto intro!: evolving_adapt_role evolving_ret)
  show "evolving (\<lambda>x. x) s (leader_claims E cfg keys s me)"
    unfolding leader_claims_def Let_def
    by (rule evolving_bind [OF a], rule evolving_bind [OF spend_broadcast.evolving_from],
        erule evolves_transition_from, rule evolving_bind [OF evolving_announce], assumption)
      (auto intro!: evolving_ret evolves_transition_from)
  show "emits (\<lambda>e. \<not> reveals e) (leader_claims E cfg keys s me)"
    unfolding leader_claims_def Let_def
    by (intro emits_rules emits_adapt_role spend_broadcast.op_discreet emits_announce) auto
qed

interpretation secret_handler: session_op "\<lambda>s. on_secret_reveal E cfg keys s secret pid"
  for E cfg keys secret pid
proof unfold_locales
  fix s
  show "evolving (\<lambda>x. x) s (on_secret_reveal E cfg keys s secret pid)"
    unfolding on_secret_reveal_def Let_def
    by (auto intro!: evolving_bind_lift evolving_ret leader_claim.evolving_from
        evolves_transition_from)
  show "emits (\<lambda>e. \<not> reveals e) (on_secret_reveal E cfg keys s secret pid)"
    unfolding on_secret_reveal_def Let_def by (intro emits_rules leader_claim.op_discreet)
qed

interpretation message_handler: session_op "\<lambda>s. handle_session_message E cfg keys s m pid"
  for E cfg keys m pid
proof unfold_locales
  fix s
  show "evolving (\<lambda>x. x) s (handle_session_message E cfg keys s m pid)"
    unfolding handle_session_message_def
    by (cases m) (auto intro!: evolving_ret adaptor_point_handler.evolving_op
        commitment_handler.evolving_op nonce_handler.evolving_op schnorr_handler.evolving_op
        partial_sig_handler.evolving_op secret_handler.evolving_op simp: on_lock_tx_broadcast_def)
  show "emits (\<lambda>e. \<not> reveals e) (handle_session_message E cfg keys s m pid)"
    unfolding handle_session_message_def
    by (cases m) (auto intro!: adaptor_point_handler.op_discreet commitment_handler.op_discreet
        nonce_handler.op_discreet schnorr_handler.op_discreet partial_sig_handler.op_discreet
        secret_handler.op_discreet)
qed

end
