(* ===== verification/Swap_Daemon.thy ===== *)
theory Swap_Daemon
  imports Swap_Session
begin

text \<open>
  \<open>src/swap-daemon/src/daemon.rs\<close>: the sessions a daemon holds, the pollers that watch the chains,
  and the handler of its two kinds of event, the messages of the peers and the ticks of the
  pollers. A daemon that panics is gone: its event loop has no further step.
\<close>

section \<open>Sessions\<close>

definition daemon_new :: "swap_keys \<Rightarrow> daemon_config \<Rightarrow> daemon" where
  "daemon_new keys cfg =
     \<lparr>sessions = [], swap_keys = keys, active_pollers = [], config = cfg\<rparr>"

definition insert_session :: "session \<Rightarrow> daemon \<Rightarrow> daemon" where
  "insert_session s d = d\<lparr>sessions := hm_insert (sess_id s) s (sessions d)\<rparr>"

text \<open>A write through the \<open>&mut SwapSession\<close> that \<open>get_mut\<close> lends.\<close>

definition put_session :: "session_id \<Rightarrow> session \<Rightarrow> daemon \<Rightarrow> daemon" where
  "put_session sid s d = d\<lparr>sessions := hm_insert sid s (sessions d)\<rparr>"

text \<open>The boolean is \<open>Ok\<close> or \<open>Err\<close>: the only error is an unknown session.\<close>

definition start_swap_session :: "env \<Rightarrow> daemon \<Rightarrow> session_id \<Rightarrow> (bool \<times> daemon) act" where
  "start_swap_session E d sid =
     (case hm_get (sessions d) sid of
        None \<Rightarrow> ret (False, d)
      | Some s \<Rightarrow>
          bind (if validate_utxos (config d) then validate_funding_utxos E s (config d) else ret True)
            (\<lambda>valid.
          if \<not> valid then ret (True, put_session sid (transition_to Failed s) d)
          else
            bind (broadcast_adaptor_point E s) (\<lambda>s1.
            let s2 = (if state s1 = Initialized then transition_to AwaitingAdaptorPoints s1 else s1) in
            ret (True, put_session sid s2 d))))"

section \<open>Pollers\<close>

definition spawn_poller :: "session_id \<Rightarrow> daemon \<Rightarrow> chain_poll_target \<Rightarrow> daemon act" where
  "spawn_poller sid d target =
     (if hm_contains (active_pollers d) (sid, target) then ret d
      else bind (emit (PollerSpawned sid target)) (\<lambda>_.
           ret (d\<lparr>active_pollers := hm_insert (sid, target) () (active_pollers d)\<rparr>)))"

definition cancel_step :: "daemon \<Rightarrow> session_id \<times> chain_poll_target \<Rightarrow> daemon act" where
  "cancel_step d key =
     (case hm_get (active_pollers d) key of
        None \<Rightarrow> ret d
      | Some _ \<Rightarrow> bind (emit (PollerAborted (fst key) (snd key))) (\<lambda>_.
          ret (d\<lparr>active_pollers := hm_remove key (active_pollers d)\<rparr>)))"

definition cancel_session_pollers :: "session_id \<Rightarrow> daemon \<Rightarrow> daemon act" where
  "cancel_session_pollers sid d =
     io_fold cancel_step d (filter (\<lambda>(i, _). i = sid) (hm_keys (active_pollers d)))"

text \<open>The targets for which a poller is missing.\<close>

definition lock_targets :: "daemon \<Rightarrow> session_id \<Rightarrow> session \<Rightarrow> chain_poll_target list" where
  "lock_targets d sid s =
     map LockTx (filter (\<lambda>k. k \<in> lock_txs_broadcast s \<and> k \<notin> confirmed_lock_txs s \<and>
                            \<not> hm_contains (active_pollers d) (sid, LockTx k))
                   (bt_keys (participants s)))"

definition missing_pollers :: "daemon \<Rightarrow> session_id \<Rightarrow> session \<Rightarrow> chain_poll_target list res" where
  "missing_pollers d sid s =
     res_bind (if state s = AwaitingLeaderSpend then
                 res_bind (unwrap (leader s)) (\<lambda>l.
                 Inr (if hm_contains (active_pollers d) (sid, LeaderSpendTx l) then []
                      else [LeaderSpendTx l]))
               else Inr []) (\<lambda>leader_targets.
     res_bind (get_my_id (participants s)) (\<lambda>my_id.
     let refund_relevant = (my_id \<in> confirmed_lock_txs s \<and> \<not> terminal (state s));
         refund_targets = (if refund_relevant \<and>
             \<not> hm_contains (active_pollers d) (sid, RefundWindow my_id)
           then [RefundWindow my_id] else []) in
     Inr (lock_targets d sid s @ leader_targets @ refund_targets)))"

definition maybe_spawn_pollers :: "session_id \<Rightarrow> daemon \<Rightarrow> daemon act" where
  "maybe_spawn_pollers sid d =
     (case hm_get (sessions d) sid of
        None \<Rightarrow> ret d
      | Some s \<Rightarrow>
          bind (lift (missing_pollers d sid s)) (\<lambda>targets. io_fold (spawn_poller sid) d targets))"

section \<open>Events\<close>

definition on_peer_message :: "env \<Rightarrow> envelope \<Rightarrow> daemon \<Rightarrow> daemon act" where
  "on_peer_message E v d =
     (let sid = env_session_id v in
      case hm_get (sessions d) sid of
        None \<Rightarrow> lift (Inl (PanicMsg ''Session does not exist''))
      | Some s \<Rightarrow>
          bind (handle_session_message E (config d) (swap_keys d) s (env_msg v)
                  (env_participant_id v)) (\<lambda>s'.
          let d' = put_session sid s' d in
          if terminal (state s') then cancel_session_pollers sid d'
          else maybe_spawn_pollers sid d'))"

text \<open>All locks are confirmed: the leader waits for secrets, everyone else reveals its own.\<close>

definition locks_confirmed :: "env \<Rightarrow> session_id \<Rightarrow> session \<Rightarrow> daemon \<Rightarrow> daemon act" where
  "locks_confirmed E sid s d =
     bind (lift (get_my_id (participants s))) (\<lambda>my_id.
     bind (lift (unwrap (hm_get (adaptor_secrets s) my_id))) (\<lambda>my_secret.
     if leader s \<noteq> Some my_id then
       bind (announce E (transition_to AwaitingLeaderSpend s) my_id (SecretReveal my_secret)) (\<lambda>s'.
       maybe_spawn_pollers sid (put_session sid s' d))
     else ret (put_session sid (transition_to AwaitingSecrets s) d)))"

definition poll_lock_tx ::
  "env \<Rightarrow> session_id \<Rightarrow> participant_id \<Rightarrow> session \<Rightarrow> daemon \<Rightarrow> daemon act" where
  "poll_lock_tx E sid pid s d =
     (if pid \<in> confirmed_lock_txs s then ret d
      else
        bind (check_lock_tx_confirmed E s pid (config d)) (\<lambda>s1.
        let d1 = put_session sid s1 d;
            d2 = (if pid \<in> confirmed_lock_txs s1
                  then d1\<lparr>active_pollers := hm_remove (sid, LockTx pid) (active_pollers d1)\<rparr>
                  else d1) in
        if all_lock_txs_confirmed s1 then locks_confirmed E sid s1 d2 else ret d2))"

definition poll_leader_spend ::
  "env \<Rightarrow> session_id \<Rightarrow> participant_id \<Rightarrow> session \<Rightarrow> daemon \<Rightarrow> daemon act" where
  "poll_leader_spend E sid leader_id s d =
     (if state s \<noteq> AwaitingLeaderSpend then ret d
      else
        bind (check_leader_spend_confirmed E s leader_id (config d)) (\<lambda>spent.
        if \<not> spent then ret d
        else
          bind (extract_secret_and_adapt E s leader_id (config d)) (\<lambda>(extracted, s1).
          if \<not> extracted then ret (put_session sid s1 d)
          else
            bind (broadcast_my_spend_tx E (transition_to Claiming s1) (swap_keys d) (config d)) (\<lambda>s2.
            cancel_session_pollers sid (put_session sid (transition_to Completed s2) d)))))"

definition poll_refund_window ::
  "env \<Rightarrow> session_id \<Rightarrow> participant_id \<Rightarrow> session \<Rightarrow> daemon \<Rightarrow> daemon act" where
  "poll_refund_window E sid pid s d =
     (if terminal (state s) then ret d
      else
        bind (check_refund_window_open E s pid (config d)) (\<lambda>open'.
        if \<not> open' then ret d
        else
          bind (broadcast_my_refund_tx E s (swap_keys d) (config d)) (\<lambda>(ok, s1).
          cancel_session_pollers sid
            (put_session sid (transition_to (if ok then Refunded else Failed) s1) d))))"

definition on_chain_poll :: "env \<Rightarrow> session_id \<Rightarrow> chain_poll_target \<Rightarrow> daemon \<Rightarrow> daemon act" where
  "on_chain_poll E sid target d =
     bind (case hm_get (sessions d) sid of
             None \<Rightarrow> ret d
           | Some s \<Rightarrow>
               (case target of
                  LockTx pid \<Rightarrow> poll_lock_tx E sid pid s d
                | LeaderSpendTx leader_id \<Rightarrow> poll_leader_spend E sid leader_id s d
                | RefundWindow pid \<Rightarrow> poll_refund_window E sid pid s d))
       (maybe_spawn_pollers sid)"

definition handle_event :: "env \<Rightarrow> daemon_event \<Rightarrow> daemon \<Rightarrow> daemon act" where
  "handle_event E ev d =
     (case ev of
        PeerMessage v _ \<Rightarrow> on_peer_message E v d
      | ChainPoll sid target \<Rightarrow> on_chain_poll E sid target d)"

text \<open>The loop over the channel of events; a panic in a handler ends it.\<close>

definition event_loop :: "env \<Rightarrow> daemon \<Rightarrow> daemon_event list \<Rightarrow> daemon act" where
  "event_loop E d evs = io_fold (\<lambda>d ev. handle_event E ev d) d evs"

section \<open>The pollers\<close>

text \<open>Neither spawning nor cancelling pollers changes anything but the map of pollers.\<close>

definition same_sessions :: "daemon \<Rightarrow> daemon \<Rightarrow> bool" where
  "same_sessions d d' \<longleftrightarrow> sessions d' = sessions d \<and> swap_keys d' = swap_keys d \<and> config d' = config d"

definition poller_effect :: "session_id \<Rightarrow> effect \<Rightarrow> bool" where
  "poller_effect sid e = (case e of
       PollerSpawned i _ \<Rightarrow> i = sid | PollerAborted i _ \<Rightarrow> i = sid | _ \<Rightarrow> False)"

lemma poller_effect_simps [simp]:
  "poller_effect sid (PollerSpawned i p') = (i = sid)" "poller_effect sid (PollerAborted i p') = (i = sid)"
  "poller_effect sid e \<Longrightarrow> \<not> reveals e"
  by (auto simp: poller_effect_def reveals_def split: effect.splits)

lemma wp_spawn_poller:
  "wp (spawn_poller sid d target) (\<lambda>_ _. False)
     (\<lambda>d' t'. same_sessions d d' \<and>
        (\<forall>key. hm_contains (active_pollers d') key \<longleftrightarrow> hm_contains (active_pollers d) key \<or> key = (sid, target)) \<and>
        set t' = set t \<union> (if hm_contains (active_pollers d) (sid, target) then {} else {PollerSpawned sid target})) t"
  by (auto simp: spawn_poller_def wp_simps same_sessions_def)

lemma emits_spawn: "emits (poller_effect sid) (io_fold (spawn_poller sid) d ts)"
proof -
  have "emits (poller_effect sid) (spawn_poller sid d t)" for d t
    unfolding spawn_poller_def by (intro emits_rules emits_emit) simp
  then show ?thesis by (rule emits_fold)
qed

lemma wp_spawn_fold:
  "wp (io_fold (spawn_poller sid) d targets) (\<lambda>_ _. False)
     (\<lambda>d' t'. same_sessions d d' \<and>
        (\<forall>key. hm_contains (active_pollers d') key \<longleftrightarrow>
           hm_contains (active_pollers d) key \<or> key \<in> Pair sid ` set targets) \<and>
        set t \<subseteq> set t' \<and>
        (\<forall>p. hm_contains (active_pollers d') (sid, p) \<and> \<not> hm_contains (active_pollers d) (sid, p) \<longrightarrow>
           PollerSpawned sid p \<in> set t')) t"
proof (induction targets arbitrary: d t)
  case Nil
  then show ?case by (simp add: wp_simps same_sessions_def)
next
  case (Cons p ps)
  show ?case
    unfolding io_fold.simps wp_bind
  proof (rule wp_mono [OF wp_spawn_poller])
    fix d1 t1
    assume 1: "same_sessions d d1 \<and>
        (\<forall>key. hm_contains (active_pollers d1) key \<longleftrightarrow> hm_contains (active_pollers d) key \<or> key = (sid, p)) \<and>
        set t1 = set t \<union> (if hm_contains (active_pollers d) (sid, p) then {} else {PollerSpawned sid p})"
    show "wp (io_fold (spawn_poller sid) d1 ps) (\<lambda>_ _. False)
     (\<lambda>d' t'. same_sessions d d' \<and>
        (\<forall>key. hm_contains (active_pollers d') key \<longleftrightarrow>
           hm_contains (active_pollers d) key \<or> key \<in> Pair sid ` set (p # ps)) \<and>
        set t \<subseteq> set t' \<and>
        (\<forall>q. hm_contains (active_pollers d') (sid, q) \<and> \<not> hm_contains (active_pollers d) (sid, q) \<longrightarrow>
           PollerSpawned sid q \<in> set t')) t1"
    proof (rule wp_mono [OF Cons.IH])
      fix x t'
      assume 2: "same_sessions d1 x \<and>
        (\<forall>key. hm_contains (active_pollers x) key \<longleftrightarrow>
           hm_contains (active_pollers d1) key \<or> key \<in> Pair sid ` set ps) \<and>
        set t1 \<subseteq> set t' \<and>
        (\<forall>q. hm_contains (active_pollers x) (sid, q) \<and> \<not> hm_contains (active_pollers d1) (sid, q) \<longrightarrow>
           PollerSpawned sid q \<in> set t')"
      have "PollerSpawned sid q \<in> set t'"
        if "hm_contains (active_pollers x) (sid, q)" "\<not> hm_contains (active_pollers d) (sid, q)" for q
        using 1 2 that by (cases "q = p") auto
      then show "same_sessions d x \<and>
        (\<forall>key. hm_contains (active_pollers x) key \<longleftrightarrow>
           hm_contains (active_pollers d) key \<or> key \<in> Pair sid ` set (p # ps)) \<and>
        set t \<subseteq> set t' \<and>
        (\<forall>q. hm_contains (active_pollers x) (sid, q) \<and> \<not> hm_contains (active_pollers d) (sid, q) \<longrightarrow>
           PollerSpawned sid q \<in> set t')"
        using 1 2 by (auto simp: same_sessions_def)
    qed simp
  qed simp
qed

lemma wp_cancel:
  "wp (cancel_session_pollers sid d) (\<lambda>_ _. False)
     (\<lambda>d' _. same_sessions d d' \<and>
        (\<forall>key. hm_contains (active_pollers d') key \<longleftrightarrow>
           hm_contains (active_pollers d) key \<and> fst key \<noteq> sid)) t"
proof -
  have step: "wp (cancel_step d key) (\<lambda>_ _. False)
     (\<lambda>d' _. same_sessions d d' \<and>
        (\<forall>key'. hm_contains (active_pollers d') key' \<longleftrightarrow> hm_contains (active_pollers d) key' \<and> key' \<noteq> key)) t"
    for d key t
    by (auto simp: cancel_step_def wp_simps same_sessions_def hm_contains_def split: option.splits)
  have "wp (io_fold cancel_step d keys) (\<lambda>_ _. False)
     (\<lambda>d' _. same_sessions d d' \<and>
        (\<forall>key. hm_contains (active_pollers d') key \<longleftrightarrow>
           hm_contains (active_pollers d) key \<and> key \<notin> set keys)) t" for keys
  proof (induction keys arbitrary: d t)
    case Nil
    then show ?case by (simp add: wp_simps same_sessions_def)
  next
    case (Cons k ks)
    show ?case
      unfolding io_fold.simps wp_bind
    proof (rule wp_mono [OF step])
      fix d1 t1
      assume 1: "same_sessions d d1 \<and> (\<forall>key'. hm_contains (active_pollers d1) key' \<longleftrightarrow>
          hm_contains (active_pollers d) key' \<and> key' \<noteq> k)"
      show "wp (io_fold cancel_step d1 ks) (\<lambda>_ _. False) (\<lambda>d' _. same_sessions d d' \<and>
        (\<forall>key. hm_contains (active_pollers d') key \<longleftrightarrow>
           hm_contains (active_pollers d) key \<and> key \<notin> set (k # ks))) t1"
        by (rule wp_mono [OF Cons.IH]) (use 1 in \<open>auto simp: same_sessions_def\<close>)
    qed simp
  qed
  from this [of "filter (\<lambda>(i, _). i = sid) (hm_keys (active_pollers d))"] show ?thesis
    unfolding cancel_session_pollers_def
    by (rule wp_mono) (auto simp: hm_contains_keys)
qed

lemma emits_cancel: "emits (poller_effect sid) (cancel_session_pollers sid d)"
proof -
  have "emits (poller_effect sid) (cancel_step d key)" if "fst key = sid" for d key
    unfolding cancel_step_def using that by (intro emits_rules emits_emit) simp
  then show ?thesis
    unfolding cancel_session_pollers_def by (intro emits_fold_set) auto
qed

end
