(* ===== verification/Daemon_Safety.thy ===== *)
theory Daemon_Safety
  imports Swap_Daemon
begin

text \<open>
  The daemon as a state machine. A step is the creation of a session, its start, or one event: a
  message of a peer, with any content, or a tick of a poller that was spawned at some time. What
  every step keeps is proved for all reachable daemons, and from it what a revealed secret
  presupposes.
\<close>

section \<open>One event\<close>

text \<open>A session after an event: it has evolved, except that locks may have become confirmed, each on an
  answer that is on the trace.\<close>

definition advanced :: "env \<Rightarrow> daemon_config \<Rightarrow> trace \<Rightarrow> session \<Rightarrow> session \<Rightarrow> bool" where
  "advanced E cfg t s s' \<longleftrightarrow>
     (\<exists>C. evolves (s\<lparr>confirmed_lock_txs := C\<rparr>) s' \<and> confirmed_lock_txs s \<subseteq> C \<and>
        (\<forall>k \<in> C - confirmed_lock_txs s. lock_evidence E cfg (participants s) k t))"

lemma advanced_evolves: "evolves s s' \<Longrightarrow> advanced E cfg t s s'"
  unfolding advanced_def by (rule exI [of _ "confirmed_lock_txs s"]) simp

lemma advanced_refl [simp]: "advanced E cfg t s s"
  by (rule advanced_evolves) simp

lemma advanced_mono: "advanced E cfg t s s' \<Longrightarrow> set t \<subseteq> set t' \<Longrightarrow> advanced E cfg t' s s'"
  unfolding advanced_def by (blast intro: lock_evidence_mono)

definition advances :: "env \<Rightarrow> trace \<Rightarrow> daemon \<Rightarrow> daemon \<Rightarrow> bool" where
  "advances E t d d' \<longleftrightarrow> config d' = config d \<and> swap_keys d' = swap_keys d \<and>
     (\<forall>sid. hm_get (sessions d') sid = None \<longleftrightarrow> hm_get (sessions d) sid = None) \<and>
     (\<forall>sid s s'. hm_get (sessions d) sid = Some s \<longrightarrow> hm_get (sessions d') sid = Some s' \<longrightarrow>
        advanced E (config d) t s s')"

lemma advances_refl [simp]: "advances E t d d"
  by (simp add: advances_def)

lemma advances_put:
  "hm_get (sessions d) sid = Some s \<Longrightarrow> advanced E (config d) t s s' \<Longrightarrow> advances E t d (put_session sid s' d)"
  by (auto simp: advances_def put_session_def)

lemma advances_same: "advances E t d d' \<Longrightarrow> same_sessions d' d'' \<Longrightarrow> advances E t d d''"
  by (auto simp: advances_def same_sessions_def)

lemma advances_mono: "advances E t d d' \<Longrightarrow> set t \<subseteq> set t' \<Longrightarrow> advances E t' d d'"
  unfolding advances_def by (blast intro: advanced_mono)

lemma put_session_simps [simp]:
  "config (put_session sid s d) = config d" "swap_keys (put_session sid s d) = swap_keys d"
  "active_pollers (put_session sid s d) = active_pollers d"
  "sessions (put_session sid s d) = hm_insert sid s (sessions d)"
  by (simp_all add: put_session_def)

section \<open>Pollers in an event\<close>

lemma emits_maybe_spawn: "emits (poller_effect sid) (maybe_spawn_pollers sid d)"
  unfolding maybe_spawn_pollers_def by (intro emits_rules emits_spawn)

text \<open>The pollers of a daemon are all recorded on the trace.\<close>

definition pollers_traced :: "daemon \<Rightarrow> trace \<Rightarrow> bool" where
  "pollers_traced d t \<longleftrightarrow>
     (\<forall>i p. hm_contains (active_pollers d) (i, p) \<longrightarrow> PollerSpawned i p \<in> set t)"

lemma wp_maybe_spawn:
  "wp (maybe_spawn_pollers sid d) (\<lambda>_ _. True)
     (\<lambda>d' t'. same_sessions d d' \<and> (pollers_traced d t \<longrightarrow> pollers_traced d' t')) t"
proof (cases "hm_get (sessions d) sid")
  case None
  then show ?thesis by (simp add: maybe_spawn_pollers_def wp_simps same_sessions_def)
next
  case (Some s)
  show ?thesis
  proof (cases "missing_pollers d sid s")
    case (Inl e)
    then show ?thesis by (simp add: maybe_spawn_pollers_def Some wp_simps)
  next
    case (Inr ts)
    have "wp (io_fold (spawn_poller sid) d ts) (\<lambda>_ _. True)
       (\<lambda>d' t'. same_sessions d d' \<and> (pollers_traced d t \<longrightarrow> pollers_traced d' t')) t"
      by (rule wp_mono [OF wp_spawn_fold]) (auto simp: pollers_traced_def, blast+)
    then show ?thesis by (simp add: maybe_spawn_pollers_def Some Inr wp_simps)
  qed
qed

lemma wp_cancel_traced:
  "wp (cancel_session_pollers sid d) (\<lambda>_ _. True)
     (\<lambda>d' t'. same_sessions d d' \<and> (pollers_traced d t \<longrightarrow> pollers_traced d' t')) t"
  by (rule wp_mono [OF wp_emits [OF emits_cancel wp_cancel]])
    (auto simp: pollers_traced_def, drule grown_subset, blast)

section \<open>What an event does to the sessions\<close>

definition event_post :: "env \<Rightarrow> daemon \<Rightarrow> trace \<Rightarrow> daemon \<Rightarrow> trace \<Rightarrow> bool" where
  "event_post E d t d' t' \<longleftrightarrow>
     advances E t' d d' \<and> (pollers_traced d t \<longrightarrow> pollers_traced d' t') \<and> set t \<subseteq> set t'"

text \<open>Some sessions have been written and some pollers dropped; what remains is to spawn or cancel
  pollers.\<close>

definition written :: "env \<Rightarrow> daemon \<Rightarrow> trace \<Rightarrow> daemon \<Rightarrow> trace \<Rightarrow> bool" where
  "written E d t d1 t1 \<longleftrightarrow> advances E t1 d d1 \<and> set t \<subseteq> set t1 \<and>
     (\<forall>key. hm_contains (active_pollers d1) key \<longrightarrow> hm_contains (active_pollers d) key)"

lemma written_post: "written E d t d1 t1 \<Longrightarrow> event_post E d t d1 t1"
  by (auto simp: written_def event_post_def pollers_traced_def)

lemma written_refl [simp]: "written E d t d t"
  by (simp add: written_def)

lemma written_put:
  "hm_get (sessions d) sid = Some s \<Longrightarrow> evolves s s' \<Longrightarrow> set t \<subseteq> set t1 \<Longrightarrow>
   written E d t (put_session sid s' d) t1"
  by (auto simp: written_def intro: advances_put advanced_evolves)

lemma finish_pollers:
  assumes m: "wp m (\<lambda>_ _. True) (\<lambda>d' t'. same_sessions d1 d' \<and>
      (pollers_traced d1 t1 \<longrightarrow> pollers_traced d' t')) t1"
    and g: "emits P m" and w: "event_post E d t d1 t1"
  shows "wp m (\<lambda>_ _. True) (\<lambda>d' t'. event_post E d t d' t') t1"
proof (rule wp_mono [OF wp_emits [OF g m]])
  fix d' t'
  assume "(same_sessions d1 d' \<and> (pollers_traced d1 t1 \<longrightarrow> pollers_traced d' t')) \<and> grown P t1 t'"
  then have *: "same_sessions d1 d'" "pollers_traced d1 t1 \<longrightarrow> pollers_traced d' t'"
    "set t1 \<subseteq> set t'" by (auto dest: grown_subset)
  show "event_post E d t d' t'"
    using w * advances_same [OF advances_mono [OF _ *(3)] *(1)] by (auto simp: event_post_def)
qed simp

lemmas finish_spawn = finish_pollers [OF wp_maybe_spawn emits_maybe_spawn]
lemmas finish_cancel = finish_pollers [OF wp_cancel_traced emits_cancel]

lemma wp_op:
  "session_op f \<Longrightarrow> wp (f s) (\<lambda>_ _. True) (\<lambda>s' t'. evolves s s' \<and> set t \<subseteq> set t') t"
  by (rule wp_mono [OF wp_emits [OF session_op.op_discreet session_op.op_evolves]])
    (auto dest: grown_subset)

lemma wp_op_snd:
  "evolving snd s m \<Longrightarrow> emits P m \<Longrightarrow> wp m (\<lambda>_ _. True) (\<lambda>x t'. evolves s (snd x) \<and> set t \<subseteq> set t') t"
  by (rule wp_mono [OF wp_emits [of P]]) (auto simp: evolving_def dest: grown_subset)

lemma wp_grows: "emits P m \<Longrightarrow> wp m (\<lambda>_ _. True) (\<lambda>_ t'. set t \<subseteq> set t') t"
  by (rule wp_mono [OF wp_emits_only [of P]]) (auto dest: grown_subset)

text \<open>The end of an event: the session is written and its pollers are cancelled or spawned.\<close>

lemma wp_write_then:
  assumes "hm_get (sessions d) sid = Some s" and "evolves s s'" and "set t \<subseteq> set t1"
  shows "wp (cancel_session_pollers sid (put_session sid s' d)) (\<lambda>_ _. True)
      (\<lambda>d' t'. event_post E d t d' t') t1"
    and "wp (maybe_spawn_pollers sid (put_session sid s' d)) (\<lambda>_ _. True)
      (\<lambda>d' t'. event_post E d t d' t') t1"
    and "wp (ret (put_session sid s' d)) (\<lambda>_ _. True) (\<lambda>d' t'. event_post E d t d' t') t1"
proof -
  have p: "event_post E d t (put_session sid s' d) t1"
    by (rule written_post [OF written_put [OF assms]])
  show "wp (cancel_session_pollers sid (put_session sid s' d)) (\<lambda>_ _. True)
      (\<lambda>d' t'. event_post E d t d' t') t1" by (rule finish_cancel [OF p])
  show "wp (maybe_spawn_pollers sid (put_session sid s' d)) (\<lambda>_ _. True)
      (\<lambda>d' t'. event_post E d t d' t') t1" by (rule finish_spawn [OF p])
  show "wp (ret (put_session sid s' d)) (\<lambda>_ _. True) (\<lambda>d' t'. event_post E d t d' t') t1"
    using p by (simp add: wp_ret)
qed

lemma wp_cases: "(b \<Longrightarrow> wp m R Q t) \<Longrightarrow> (\<not> b \<Longrightarrow> wp n R Q t) \<Longrightarrow> wp (if b then m else n) R Q t"
  by simp

lemma wp_on_peer_message:
  "wp (on_peer_message E v d) (\<lambda>_ _. True) (\<lambda>d' t'. event_post E d t d' t') t"
proof (cases "hm_get (sessions d) (env_session_id v)")
  case None
  then show ?thesis by (simp add: on_peer_message_def wp_simps Let_def)
next
  case (Some s)
  show ?thesis
    unfolding on_peer_message_def Let_def Some option.case wp_bind
  proof (rule wp_mono [OF wp_op [OF message_handler.session_op_axioms]])
    fix s' t'
    assume "evolves s s' \<and> set t \<subseteq> set t'"
    then have e: "evolves s s'" "set t \<subseteq> set t'" by blast+
    show "wp (if terminal (state s') then cancel_session_pollers (env_session_id v)
          (put_session (env_session_id v) s' d)
        else maybe_spawn_pollers (env_session_id v) (put_session (env_session_id v) s' d))
        (\<lambda>_ _. True) (\<lambda>d' t'. event_post E d t d' t') t'"
      unfolding wp_if using wp_write_then(1,2) [OF Some e] by (cases "terminal (state s')") simp_all
  qed simp
qed

lemma wp_poll_leader_spend:
  assumes s: "hm_get (sessions d) sid = Some s"
  shows "wp (poll_leader_spend E sid l s d) (\<lambda>_ _. True) (\<lambda>d' t'. event_post E d t d' t') t"
proof -
  have skip: "wp (ret d) (\<lambda>_ _. True) (\<lambda>d' t'. event_post E d t d' t') t1" if "set t \<subseteq> set t1" for t1
    using that by (simp add: wp_ret written_post written_def)
  have claim: "wp (bind (broadcast_my_spend_tx E (transition_to Claiming s1) (swap_keys d) (config d))
      (\<lambda>s2. cancel_session_pollers sid (put_session sid (transition_to Completed s2) d)))
      (\<lambda>_ _. True) (\<lambda>d' t'. event_post E d t d' t') t1"
    if s1: "evolves s s1" "set t \<subseteq> set t1" for s1 t1
    unfolding wp_bind
  proof (rule wp_mono [OF wp_op [OF spend_broadcast.session_op_axioms]])
    fix s2 t2 assume 2: "evolves (transition_to Claiming s1) s2 \<and> set t1 \<subseteq> set t2"
    have "evolves s (transition_to Completed s2)"
      by (rule evolves_transition_from, rule evolves_trans [OF evolves_transition_from [OF s1(1)]],
          rule conjunct1 [OF 2])
    moreover have "set t \<subseteq> set t2" using s1(2) conjunct2 [OF 2] by (rule subset_trans)
    ultimately show "wp (cancel_session_pollers sid (put_session sid (transition_to Completed s2) d))
        (\<lambda>_ _. True) (\<lambda>d' t'. event_post E d t d' t') t2" by (rule wp_write_then(1) [OF s])
  qed simp
  have ext: "wp (bind (extract_secret_and_adapt E s l (config d)) (\<lambda>(extracted, s1).
      if \<not> extracted then ret (put_session sid s1 d)
      else bind (broadcast_my_spend_tx E (transition_to Claiming s1) (swap_keys d) (config d))
        (\<lambda>s2. cancel_session_pollers sid (put_session sid (transition_to Completed s2) d))))
      (\<lambda>_ _. True) (\<lambda>d' t'. event_post E d t d' t') t1" if t1: "set t \<subseteq> set t1" for t1
    unfolding wp_bind [of "extract_secret_and_adapt E s l (config d)"]
  proof (rule wp_mono [OF wp_op_snd [OF evolving_extract emits_extract [of "\<lambda>_. True"]]])
    fix x :: "bool \<times> session" and t2
    assume 2: "evolves s (snd x) \<and> set t1 \<subseteq> set t2"
    obtain b s1 where x: "x = (b, s1)" by (cases x)
    have e: "evolves s s1" using conjunct1 [OF 2] by (simp add: x)
    have t2: "set t \<subseteq> set t2" using t1 conjunct2 [OF 2] by (rule subset_trans)
    show "wp (case x of (extracted, s1) \<Rightarrow> if \<not> extracted then ret (put_session sid s1 d)
        else bind (broadcast_my_spend_tx E (transition_to Claiming s1) (swap_keys d) (config d))
          (\<lambda>s2. cancel_session_pollers sid (put_session sid (transition_to Completed s2) d)))
        (\<lambda>_ _. True) (\<lambda>d' t'. event_post E d t d' t') t2"
      unfolding x split_conv wp_if using claim [OF e t2] wp_write_then(3) [OF s e t2]
      by (cases b) simp_all
  qed simp_all
  show ?thesis
    unfolding poll_leader_spend_def
  proof (rule wp_cases)
    show "wp (ret d) (\<lambda>_ _. True) (\<lambda>d' t'. event_post E d t d' t') t" by (rule skip) simp
  next
    show "wp (bind (check_leader_spend_confirmed E s l (config d)) (\<lambda>spent. if \<not> spent then ret d
      else bind (extract_secret_and_adapt E s l (config d)) (\<lambda>(extracted, s1).
        if \<not> extracted then ret (put_session sid s1 d)
        else bind (broadcast_my_spend_tx E (transition_to Claiming s1) (swap_keys d) (config d))
          (\<lambda>s2. cancel_session_pollers sid (put_session sid (transition_to Completed s2) d)))))
      (\<lambda>_ _. True) (\<lambda>d' t'. event_post E d t d' t') t"
      unfolding wp_bind [of "check_leader_spend_confirmed E s l (config d)"]
      by (rule wp_mono [OF wp_grows [OF emits_check_leader_spend [of "\<lambda>_. True"]]])
        (auto intro!: wp_cases skip ext)
  qed
qed

lemma wp_poll_refund_window:
  assumes s: "hm_get (sessions d) sid = Some s"
  shows "wp (poll_refund_window E sid pid s d) (\<lambda>_ _. True) (\<lambda>d' t'. event_post E d t d' t') t"
proof -
  have skip: "wp (ret d) (\<lambda>_ _. True) (\<lambda>d' t'. event_post E d t d' t') t1" if "set t \<subseteq> set t1" for t1
    using that by (simp add: wp_ret written_post written_def)
  have fin: "wp (bind (broadcast_my_refund_tx E s (swap_keys d) (config d)) (\<lambda>(ok, s1).
      cancel_session_pollers sid (put_session sid (transition_to (if ok then Refunded else Failed) s1) d)))
      (\<lambda>_ _. True) (\<lambda>d' t'. event_post E d t d' t') t1" if t1: "set t \<subseteq> set t1" for t1
    unfolding wp_bind
  proof (rule wp_mono [OF wp_op_snd [OF evolving_broadcast_refund emits_broadcast_refund [of "\<lambda>_. True"]]])
    fix x :: "bool \<times> session" and t2
    assume 2: "evolves s (snd x) \<and> set t1 \<subseteq> set t2"
    obtain b s1 where x: "x = (b, s1)" by (cases x)
    have e: "evolves s s1" using conjunct1 [OF 2] by (simp add: x)
    have t2: "set t \<subseteq> set t2" using t1 conjunct2 [OF 2] by (rule subset_trans)
    show "wp (case x of (ok, s1) \<Rightarrow> cancel_session_pollers sid
        (put_session sid (transition_to (if ok then Refunded else Failed) s1) d))
        (\<lambda>_ _. True) (\<lambda>d' t'. event_post E d t d' t') t2"
      unfolding x split_conv by (rule wp_write_then(1) [OF s evolves_transition_from [OF e] t2])
  qed simp_all
  show ?thesis
    unfolding poll_refund_window_def
  proof (rule wp_cases)
    show "wp (ret d) (\<lambda>_ _. True) (\<lambda>d' t'. event_post E d t d' t') t" by (rule skip) simp
  next
    show "wp (bind (check_refund_window_open E s pid (config d)) (\<lambda>open'. if \<not> open' then ret d
      else bind (broadcast_my_refund_tx E s (swap_keys d) (config d)) (\<lambda>(ok, s1).
        cancel_session_pollers sid
          (put_session sid (transition_to (if ok then Refunded else Failed) s1) d))))
      (\<lambda>_ _. True) (\<lambda>d' t'. event_post E d t d' t') t"
      unfolding wp_bind [of "check_refund_window_open E s pid (config d)"]
      by (rule wp_mono [OF wp_grows [OF emits_refund_window [of "\<lambda>_. True"]]])
        (auto intro!: wp_cases skip fin)
  qed
qed

text \<open>The session of a lock poll, with the lock confirmed or not, and what has evolved from it.\<close>

definition lock_polled :: "env \<Rightarrow> daemon_config \<Rightarrow> participant_id \<Rightarrow> session \<Rightarrow> session \<Rightarrow> trace \<Rightarrow> bool" where
  "lock_polled E cfg pid s s1 t \<longleftrightarrow>
     s1 = s \<or> s1 = s\<lparr>confirmed_lock_txs := insert pid (confirmed_lock_txs s)\<rparr> \<and>
       lock_evidence E cfg (participants s) pid t"

lemma lock_polled_mono: "lock_polled E cfg pid s s1 t \<Longrightarrow> set t \<subseteq> set t' \<Longrightarrow> lock_polled E cfg pid s s1 t'"
  unfolding lock_polled_def by (auto intro: lock_evidence_mono)

lemma advanced_polled:
  assumes "lock_polled E cfg pid s s1 t" and "evolves s1 s'"
  shows "advanced E cfg t s s'"
  using assms(1) unfolding lock_polled_def
proof
  assume "s1 = s"
  then show ?thesis using assms(2) by (simp add: advanced_evolves)
next
  assume 1: "s1 = s\<lparr>confirmed_lock_txs := insert pid (confirmed_lock_txs s)\<rparr> \<and>
      lock_evidence E cfg (participants s) pid t"
  have e: "evolves (s\<lparr>confirmed_lock_txs := insert pid (confirmed_lock_txs s)\<rparr>) s'"
    using assms(2) 1 by simp
  show ?thesis
    unfolding advanced_def
    by (rule exI [of _ "insert pid (confirmed_lock_txs s)"]) (use e 1 in auto)
qed

text \<open>The daemon a lock poll has written: the session replaced, a poller perhaps dropped.\<close>

definition overwritten :: "daemon \<Rightarrow> session_id \<Rightarrow> session \<Rightarrow> daemon \<Rightarrow> bool" where
  "overwritten d sid s1 dd \<longleftrightarrow> config dd = config d \<and> swap_keys dd = swap_keys d \<and>
     hm_get (sessions dd) = (hm_get (sessions d))(sid \<mapsto> s1) \<and>
     (\<forall>key. hm_contains (active_pollers dd) key \<longrightarrow> hm_contains (active_pollers d) key)"

lemma overwritten_put: "overwritten d sid s1 dd \<Longrightarrow> overwritten d sid s2 (put_session sid s2 dd)"
  by (simp add: overwritten_def)

lemma overwritten_remove:
  "overwritten d sid s1 dd \<Longrightarrow>
   overwritten d sid s1 (dd\<lparr>active_pollers := hm_remove key (active_pollers dd)\<rparr>)"
  by (auto simp: overwritten_def hm_contains_def split: if_splits)

lemma overwritten_init: "overwritten d sid s1 (put_session sid s1 d)"
  by (simp add: overwritten_def)

lemma overwritten_post:
  assumes "hm_get (sessions d) sid = Some s" and "overwritten d sid s' dd"
    and "advanced E (config d) t1 s s'" and "set t \<subseteq> set t1"
  shows "event_post E d t dd t1"
  by (rule written_post) (use assms in \<open>auto simp: written_def overwritten_def advances_def\<close>)

text \<open>The messages that reveal the daemon's own secret, and to whom.\<close>

definition reveals_own :: "session \<Rightarrow> effect \<Rightarrow> bool" where
  "reveals_own s e \<longleftrightarrow>
     (\<exists>a b k me sec. e = TcpWrite a (envelope_new (sess_id s) me (SecretReveal sec)) b k \<and>
        a \<in> set (get_other_addresses (participants s)) \<and> get_my_id (participants s) = Inr me \<and>
        hm_get (adaptor_secrets s) me = Some sec \<and> leader s \<noteq> Some me)"

lemma emits_locks_confirmed: "emits (\<lambda>e. reveals e \<longrightarrow> reveals_own s e) (locks_confirmed E sid s d)"
  unfolding locks_confirmed_def
  by (intro emits_rules emits_announce emits_mono [OF emits_maybe_spawn])
    (auto simp: reveals_own_def dest: poller_effect_simps(3))

lemma wp_locks_confirmed:
  assumes s: "hm_get (sessions d) sid = Some s" and dd: "overwritten d sid s1 dd"
    and s1: "lock_polled E (config d) pid s s1 t1" and t1: "set t \<subseteq> set t1"
  shows "wp (locks_confirmed E sid s1 dd) (\<lambda>_ _. True) (\<lambda>d' t'. event_post E d t d' t') t1"
proof -
  have post: "event_post E d t (put_session sid s2 dd) t2"
    if "evolves s1 s2" "set t1 \<subseteq> set t2" for s2 t2
    by (rule overwritten_post [OF s overwritten_put [OF dd] advanced_polled [OF lock_polled_mono [OF s1 that(2)]
        that(1)] subset_trans [OF t1 that(2)]])
  have ann: "wp (bind (announce E (transition_to AwaitingLeaderSpend s1) me (SecretReveal sec)) (\<lambda>s'.
      maybe_spawn_pollers sid (put_session sid s' dd))) (\<lambda>_ _. True) (\<lambda>d' t'. event_post E d t d' t') t1"
    for me sec
    unfolding wp_bind
  proof (rule wp_mono [OF wp_conj [OF wp_grows [OF emits_announce [of "\<lambda>_. True"]]
        evolving_announce [OF evolves_transition [of s1 AwaitingLeaderSpend], unfolded evolving_def, rule_format]]])
    fix s2 t2
    assume 2: "set t1 \<subseteq> set t2 \<and> evolves s1 s2"
    show "wp (maybe_spawn_pollers sid (put_session sid s2 dd)) (\<lambda>_ _. True)
        (\<lambda>d' t'. event_post E d t d' t') t2"
      by (rule finish_spawn [OF post [OF conjunct2 [OF 2] conjunct1 [OF 2]]])
  qed simp_all
  have out: "wp (ret (put_session sid (transition_to AwaitingSecrets s1) dd)) (\<lambda>_ _. True)
      (\<lambda>d' t'. event_post E d t d' t') t1"
    using post [OF evolves_transition] by (simp add: wp_ret)
  have lift: "wp (bind (lift r) f) (\<lambda>_ _. True) Q t1" if "\<And>x. wp (f x) (\<lambda>_ _. True) Q t1" for r f Q
    using that by (cases r) (simp_all add: wp_bind wp_lift)
  show ?thesis
    unfolding locks_confirmed_def by (intro lift wp_cases ann out)
qed

lemma wp_lock_polled:
  "wp (check_lock_tx_confirmed E s pid cfg) (\<lambda>_ t1. grown (\<lambda>e. \<not> reveals e) t t1)
     (\<lambda>s1 t1. lock_polled E cfg pid s s1 t1 \<and> grown (\<lambda>e. \<not> reveals e) t t1) t"
  by (rule wp_mono [OF wp_emits [OF emits_check_lock [of "\<lambda>e. \<not> reveals e"] wp_check_lock_evidence]])
    (simp_all add: lock_polled_def)

lemma wp_poll_lock_tx:
  assumes s: "hm_get (sessions d) sid = Some s"
  shows "wp (poll_lock_tx E sid pid s d) (\<lambda>_ _. True) (\<lambda>d' t'. event_post E d t d' t') t"
  unfolding poll_lock_tx_def
proof (rule wp_cases)
  show "wp (ret d) (\<lambda>_ _. True) (\<lambda>d' t'. event_post E d t d' t') t"
    by (simp add: wp_ret written_post)
next
  show "wp (bind (check_lock_tx_confirmed E s pid (config d)) (\<lambda>s1.
        let d1 = put_session sid s1 d;
            d2 = (if pid \<in> confirmed_lock_txs s1
                  then d1\<lparr>active_pollers := hm_remove (sid, LockTx pid) (active_pollers d1)\<rparr>
                  else d1) in
        if all_lock_txs_confirmed s1 then locks_confirmed E sid s1 d2 else ret d2))
      (\<lambda>_ _. True) (\<lambda>d' t'. event_post E d t d' t') t"
    unfolding wp_bind Let_def
  proof (rule wp_mono [OF wp_lock_polled])
    fix s1 t1
    assume 1: "lock_polled E (config d) pid s s1 t1 \<and> grown (\<lambda>e. \<not> reveals e) t t1"
    let ?dd = "if pid \<in> confirmed_lock_txs s1 then put_session sid s1 d
        \<lparr>active_pollers := hm_remove (sid, LockTx pid) (active_pollers (put_session sid s1 d))\<rparr>
        else put_session sid s1 d"
    have o: "overwritten d sid s1 ?dd"
      using overwritten_init overwritten_remove [OF overwritten_init]
      by (cases "pid \<in> confirmed_lock_txs s1") (simp_all only: if_True if_False simp_thms)
    have t1: "set t \<subseteq> set t1" by (rule grown_subset [OF conjunct2 [OF 1]])
    have "event_post E d t ?dd t1"
      by (rule overwritten_post [OF s o advanced_polled [OF conjunct1 [OF 1] evolves_refl] t1])
    then have r: "wp (ret ?dd) (\<lambda>_ _. True) (\<lambda>d' t'. event_post E d t d' t') t1"
      unfolding wp_ret .
    show "wp (if all_lock_txs_confirmed s1 then locks_confirmed E sid s1 ?dd else ret ?dd)
        (\<lambda>_ _. True) (\<lambda>d' t'. event_post E d t d' t') t1"
      by (rule wp_cases [OF wp_locks_confirmed [OF s o conjunct1 [OF 1] t1] r])
  qed simp
qed

lemma wp_handle_event:
  "wp (handle_event E ev d) (\<lambda>_ _. True) (\<lambda>d' t'. event_post E d t d' t') t"
proof (cases ev)
  case (PeerMessage v a)
  then show ?thesis using wp_on_peer_message by (simp add: handle_event_def)
next
  case (ChainPoll sid target)
  have "wp (on_chain_poll E sid target d) (\<lambda>_ _. True) (\<lambda>d' t'. event_post E d t d' t') t"
    unfolding on_chain_poll_def wp_bind
  proof (rule wp_mono)
    show "wp (case hm_get (sessions d) sid of None \<Rightarrow> ret d
           | Some s \<Rightarrow>
               (case target of
                  LockTx pid \<Rightarrow> poll_lock_tx E sid pid s d
                | LeaderSpendTx leader_id \<Rightarrow> poll_leader_spend E sid leader_id s d
                | RefundWindow pid \<Rightarrow> poll_refund_window E sid pid s d))
        (\<lambda>_ _. True) (\<lambda>d' t'. event_post E d t d' t') t"
      by (cases "hm_get (sessions d) sid"; cases target)
        (simp_all add: wp_ret written_post wp_poll_lock_tx wp_poll_leader_spend wp_poll_refund_window)
  next
    fix d1 t1 assume "event_post E d t d1 t1"
    then show "wp (maybe_spawn_pollers sid d1) (\<lambda>_ _. True) (\<lambda>d' t'. event_post E d t d' t') t1"
      by (rule finish_spawn)
  qed simp
  then show ?thesis by (simp add: handle_event_def ChainPoll)
qed

section \<open>What a revealed secret presupposes\<close>

text \<open>Every new effect satisfies the predicate, which may look at what the trace was before the effect.\<close>

definition guarded :: "(effect \<Rightarrow> trace \<Rightarrow> bool) \<Rightarrow> trace \<Rightarrow> trace \<Rightarrow> bool" where
  "guarded P t t' \<longleftrightarrow> (\<exists>new. t' = new @ t \<and> (\<forall>n1 e n0. new = n1 @ e # n0 \<longrightarrow> P e (n0 @ t)))"

lemma guarded_refl [simp]: "guarded P t t"
  by (simp add: guarded_def)

lemma guarded_trans:
  assumes "guarded P t t1" "guarded P t1 t2"
  shows "guarded P t t2"
proof -
  obtain x where x: "t1 = x @ t" "\<And>n1 e n0. x = n1 @ e # n0 \<Longrightarrow> P e (n0 @ t)"
    using assms(1) unfolding guarded_def by blast
  obtain y where y: "t2 = y @ t1" "\<And>n1 e n0. y = n1 @ e # n0 \<Longrightarrow> P e (n0 @ t1)"
    using assms(2) unfolding guarded_def by blast
  have "P e (n0 @ t)" if "y @ x = n1 @ e # n0" for n1 e n0
  proof -
    from that obtain us where "y = n1 @ us \<and> us @ x = e # n0 \<or> y @ us = n1 \<and> x = us @ e # n0"
      by (auto simp: append_eq_append_conv2)
    then consider (x) "x = us @ e # n0" | (y) us' where "y = n1 @ e # us'" "n0 = us' @ x" | (e) "us = []" "x = e # n0"
      by (cases us) auto
    then show ?thesis using x y by cases fastforce+
  qed
  then show ?thesis unfolding guarded_def by (intro exI [of _ "y @ x"]) (simp add: x(1) y(1))
qed

lemma guarded_grown:
  assumes "grown Q t t'" and "\<And>e old. Q e \<Longrightarrow> set t \<subseteq> set old \<Longrightarrow> P e old"
  shows "guarded P t t'"
proof -
  obtain new where new: "t' = new @ t" "list_all Q new" using assms(1) unfolding grown_def by blast
  have "P e (n0 @ t)" if "new = n1 @ e # n0" for n1 e n0
    using new(2) that by (intro assms(2)) simp_all
  then show ?thesis unfolding guarded_def by (intro exI [of _ new]) (simp add: new(1))
qed

lemma guarded_mono:
  "guarded P t t' \<Longrightarrow> (\<And>e old. P e old \<Longrightarrow> Q e old) \<Longrightarrow> guarded Q t t'"
  unfolding guarded_def by blast

text \<open>A secret is revealed to the others of the swap, by a daemon that is not the leader, after the
  indexers have confirmed every lock that was not known to be confirmed.\<close>

definition reveal_due :: "env \<Rightarrow> daemon \<Rightarrow> daemon_event \<Rightarrow> effect \<Rightarrow> trace \<Rightarrow> bool" where
  "reveal_due E d ev e old \<longleftrightarrow> (reveals e \<longrightarrow>
     (\<exists>sid pid s. ev = ChainPoll sid (LockTx pid) \<and> hm_get (sessions d) sid = Some s \<and> reveals_own s e \<and>
        (\<forall>k \<in> set (bt_keys (participants s)).
           k \<in> confirmed_lock_txs s \<or> lock_evidence E (config d) (participants s) k old)))"

lemma wp_quiet:
  assumes "emits (\<lambda>e. \<not> reveals e) m"
  shows "wp m (\<lambda>_ t'. guarded (reveal_due E d ev) t t') (\<lambda>_ t'. guarded (reveal_due E d ev) t t') t"
proof -
  have "guarded (reveal_due E d ev) t t'" if "grown (\<lambda>e. \<not> reveals e) t t'" for t'
    by (rule guarded_grown [OF that]) (simp add: reveal_due_def)
  then show ?thesis by (intro wp_mono [OF wp_emits_only [OF assms]])
qed

lemma reveals_polled:
  "lock_polled E cfg pid s s1 t \<Longrightarrow> reveals_own s1 e \<Longrightarrow> reveals_own s e"
  by (auto simp: lock_polled_def reveals_own_def)

lemma wp_lock_poll_reveals:
  assumes s: "hm_get (sessions d) sid = Some s"
  shows "wp (poll_lock_tx E sid pid s d)
     (\<lambda>_ t'. guarded (reveal_due E d (ChainPoll sid (LockTx pid))) t t')
     (\<lambda>_ t'. guarded (reveal_due E d (ChainPoll sid (LockTx pid))) t t') t"
    (is "wp _ (\<lambda>_ t'. ?G t t') _ _")
  unfolding poll_lock_tx_def
proof (rule wp_cases)
  show "wp (ret d) (\<lambda>_ t'. ?G t t') (\<lambda>_ t'. ?G t t') t"
    by (simp add: wp_ret)
next
  have quiet: "?G t t1" if "grown (\<lambda>e. \<not> reveals e) t t1" for t1
    by (rule guarded_grown [OF that]) (simp add: reveal_due_def)
  have conf: "wp (locks_confirmed E sid s1 dd) (\<lambda>_ t'. ?G t t') (\<lambda>_ t'. ?G t t') t1"
    if 1: "lock_polled E (config d) pid s s1 t1" and all: "all_lock_txs_confirmed s1"
      and g: "grown (\<lambda>e. \<not> reveals e) t t1" for s1 t1 dd
  proof -
    have ev: "k \<in> confirmed_lock_txs s \<or> lock_evidence E (config d) (participants s) k old"
      if "k \<in> set (bt_keys (participants s))" "set t1 \<subseteq> set old" for k old
      using that 1 all unfolding lock_polled_def all_lock_txs_confirmed_iff
      by (auto intro: lock_evidence_mono dest!: subsetD [of "members (participants s)"])
    have "reveal_due E d (ChainPoll sid (LockTx pid)) e old"
      if "reveals e \<longrightarrow> reveals_own s1 e" "set t1 \<subseteq> set old" for e old
      unfolding reveal_due_def using that(1) reveals_polled [OF 1] ev [OF _ that(2)] s by blast
    then have "?G t1 t2" if "grown (\<lambda>e. reveals e \<longrightarrow> reveals_own s1 e) t1 t2" for t2
      by (rule guarded_grown [OF that])
    then have "?G t t2" if "grown (\<lambda>e. reveals e \<longrightarrow> reveals_own s1 e) t1 t2" for t2
      using quiet [OF g] that by (blast intro: guarded_trans)
    then show ?thesis
      by (intro wp_mono [OF wp_emits_only [OF emits_locks_confirmed]])
  qed
  have r: "wp (ret x) (\<lambda>_ t'. ?G t t') (\<lambda>_ t'. ?G t t') t1" if "grown (\<lambda>e. \<not> reveals e) t t1" for x t1
    using quiet [OF that] by (simp add: wp_ret)
  show "wp (bind (check_lock_tx_confirmed E s pid (config d)) (\<lambda>s1.
        let d1 = put_session sid s1 d;
            d2 = (if pid \<in> confirmed_lock_txs s1
                  then d1\<lparr>active_pollers := hm_remove (sid, LockTx pid) (active_pollers d1)\<rparr>
                  else d1) in
        if all_lock_txs_confirmed s1 then locks_confirmed E sid s1 d2 else ret d2))
      (\<lambda>_ t'. ?G t t') (\<lambda>_ t'. ?G t t') t"
    unfolding wp_bind Let_def
    by (rule wp_mono [OF wp_lock_polled]) (blast intro: wp_cases conf r quiet)+
qed

lemma wp_reveals:
  "wp (handle_event E ev d) (\<lambda>_ t'. guarded (reveal_due E d ev) t t')
     (\<lambda>_ t'. guarded (reveal_due E d ev) t t') t"
proof (cases ev)
  case (PeerMessage v a)
  have "emits (\<lambda>e. \<not> reveals e) (on_peer_message E v d)"
    unfolding on_peer_message_def Let_def
    by (intro emits_rules message_handler.op_discreet emits_mono [OF emits_cancel] emits_mono [OF emits_maybe_spawn])
      (auto dest: poller_effect_simps(3))
  then show ?thesis by (simp add: PeerMessage handle_event_def wp_quiet)
next
  case (ChainPoll sid target)
  let ?G = "guarded (reveal_due E d ev)"
  have spawn: "emits (\<lambda>e. \<not> reveals e) (maybe_spawn_pollers sid d')" for d'
    by (rule emits_mono [OF emits_maybe_spawn]) (rule poller_effect_simps(3))
  have cancel: "emits (\<lambda>e. \<not> reveals e) (cancel_session_pollers sid d')" for d'
    by (rule emits_mono [OF emits_cancel]) (rule poller_effect_simps(3))
  have 1: "emits (\<lambda>e. \<not> reveals e) (poll_leader_spend E sid l s d)" for l s
    unfolding poll_leader_spend_def
    by (intro emits_rules emits_check_leader_spend emits_extract spend_broadcast.op_discreet cancel) simp_all
  have 2: "emits (\<lambda>e. \<not> reveals e) (poll_refund_window E sid p s d)" for p s
    unfolding poll_refund_window_def
    by (intro emits_rules emits_refund_window emits_broadcast_refund cancel) simp_all
  have "wp (on_chain_poll E sid target d) (\<lambda>_ t'. ?G t t') (\<lambda>_ t'. ?G t t') t"
    unfolding on_chain_poll_def wp_bind
  proof (rule wp_mono)
    show "wp (case hm_get (sessions d) sid of None \<Rightarrow> ret d
           | Some s \<Rightarrow>
               (case target of
                  LockTx pid \<Rightarrow> poll_lock_tx E sid pid s d
                | LeaderSpendTx leader_id \<Rightarrow> poll_leader_spend E sid leader_id s d
                | RefundWindow pid \<Rightarrow> poll_refund_window E sid pid s d))
        (\<lambda>_ t'. ?G t t') (\<lambda>_ t'. ?G t t') t"
      by (cases "hm_get (sessions d) sid"; cases target)
        (simp_all add: ChainPoll wp_ret wp_lock_poll_reveals wp_quiet [OF 1] wp_quiet [OF 2])
  next
    fix d1 t1 assume g: "?G t t1"
    show "wp (maybe_spawn_pollers sid d1) (\<lambda>_ t'. ?G t t') (\<lambda>_ t'. ?G t t') t1"
      by (rule wp_mono [OF wp_quiet [OF spawn]]) (rule guarded_trans [OF g], assumption)+
  qed simp
  then show ?thesis by (simp add: handle_event_def ChainPoll)
qed

end
