(* ===== verification/Daemon_Runs.thy ===== *)
theory Daemon_Runs
  imports Daemon_Safety
begin

text \<open>
  The runs of a daemon: sessions are created and started by the program that embeds it, and its
  event loop handles the messages of the peers, with any content, and the ticks of the pollers
  that were spawned. The invariant of the sessions and pollers holds in every reachable daemon.
\<close>

section \<open>Runs\<close>

text \<open>A new session is inserted after the embedding program has set its collaterals and its refund
  window, which are public fields. A task that polls a target ticks as long as nothing aborts it,
  so any target that was ever spawned may tick. A step that panics has no successor.\<close>

inductive daemon_step :: "env \<Rightarrow> daemon \<times> trace \<Rightarrow> daemon \<times> trace \<Rightarrow> bool" for E where
  create: "session_new E sid ps sblock sslot bfee cfee t = (Inr s, t') \<Longrightarrow> bt_ok ps \<Longrightarrow>
    daemon_step E (d, t)
      (insert_session (s\<lparr>cardano_collaterals := col, refund_window_secs := w\<rparr>) d, t')"
| start: "start_swap_session E d sid t = (Inr (ok, d'), t') \<Longrightarrow> daemon_step E (d, t) (d', t')"
| peer: "handle_event E (PeerMessage v addr) d t = (Inr d', t') \<Longrightarrow> daemon_step E (d, t) (d', t')"
| poll: "PollerSpawned sid target \<in> set t \<Longrightarrow>
    handle_event E (ChainPoll sid target) d t = (Inr d', t') \<Longrightarrow> daemon_step E (d, t) (d', t')"

inductive_cases daemon_stepE: "daemon_step E (d, t) (d', t')"
inductive_simps daemon_step_iff: "daemon_step E (d, t) (d', t')"

inductive reachable :: "env \<Rightarrow> swap_keys \<Rightarrow> daemon_config \<Rightarrow> daemon \<times> trace \<Rightarrow> bool" for E keys cfg where
  init: "reachable E keys cfg (daemon_new keys cfg, [])"
| step: "reachable E keys cfg c \<Longrightarrow> daemon_step E c c' \<Longrightarrow> reachable E keys cfg c'"

section \<open>The invariant\<close>

text \<open>Participants stored under their own ids.\<close>

definition own_keyed :: "participants \<Rightarrow> bool" where
  "own_keyed ps \<longleftrightarrow> (\<forall>(k, p) \<in> set ps. p_id p = k)"

text \<open>The ordered maps are ordered, the daemon finds itself among the participants, and its own point
  and secret are there.\<close>

definition stores_ok :: "session \<Rightarrow> bool" where
  "stores_ok s \<longleftrightarrow> bt_ok (leader_commitments s) \<and> bt_ok (leader_nonces s) \<and>
     (\<exists>me. get_my_id (participants s) = Inr me \<and>
        (own_keyed (participants s) \<longrightarrow> hm_contains (adaptor_points s) me \<and> hm_contains (adaptor_secrets s) me))"

definition session_ok :: "env \<Rightarrow> daemon_config \<Rightarrow> trace \<Rightarrow> session_id \<Rightarrow> session \<Rightarrow> bool" where
  "session_ok E cfg t sid s \<longleftrightarrow>
     sess_id s = sid \<and> bt_ok (participants s) \<and> check_cyclic (participants s) = Inr True \<and>
     state_history s \<noteq> [] \<and> hd (state_history s) = Initialized \<and> last (state_history s) = state s \<and>
     (\<forall>l. leader s = Some l \<longrightarrow> l \<in> members (participants s)) \<and> stores_ok s \<and>
     (\<forall>k \<in> confirmed_lock_txs s. lock_evidence E cfg (participants s) k t)"

definition daemon_ok :: "env \<Rightarrow> daemon \<Rightarrow> trace \<Rightarrow> bool" where
  "daemon_ok E d t \<longleftrightarrow>
     (\<forall>sid s. hm_get (sessions d) sid = Some s \<longrightarrow> session_ok E (config d) t sid s) \<and>
     pollers_traced d t"

lemma session_ok_mono: "session_ok E cfg t sid s \<Longrightarrow> set t \<subseteq> set t' \<Longrightarrow> session_ok E cfg t' sid s"
  by (auto simp: session_ok_def intro: lock_evidence_mono)

lemma session_ok_evolves:
  "session_ok E cfg t sid s \<Longrightarrow> evolves s s' \<Longrightarrow> session_ok E cfg t sid s'"
proof -
  assume s: "session_ok E cfg t sid s" and e: "evolves s s'"
  have "stores_ok s'"
    using s evolves_D(1,8) [OF e] unfolding session_ok_def stores_ok_def stores_step_def by auto
  then show ?thesis
    using s e unfolding session_ok_def evolves_def setup_of_def history_step_def leader_step_def by auto
qed

lemma session_ok_advanced:
  assumes s: "session_ok E cfg t sid s" and a: "advanced E cfg t' s s'" and t: "set t \<subseteq> set t'"
  shows "session_ok E cfg t' sid s'"
proof -
  obtain C where C: "evolves (s\<lparr>confirmed_lock_txs := C\<rparr>) s'"
    "\<forall>k \<in> C - confirmed_lock_txs s. lock_evidence E cfg (participants s) k t'"
    using a unfolding advanced_def by blast
  have "session_ok E cfg t' sid (s\<lparr>confirmed_lock_txs := C\<rparr>)"
    using session_ok_mono [OF s t] C(2) by (auto simp: session_ok_def stores_ok_def)
  then show ?thesis using C(1) by (rule session_ok_evolves)
qed

lemma daemon_ok_post: "daemon_ok E d t \<Longrightarrow> event_post E d t d' t' \<Longrightarrow> daemon_ok E d' t'"
  unfolding daemon_ok_def event_post_def advances_def
  by (metis not_None_eq session_ok_advanced)

lemma wp_start_swap_session:
  "wp (start_swap_session E d sid) (\<lambda>_ _. True) (\<lambda>x t'. event_post E d t (snd x) t') t"
proof (cases "hm_get (sessions d) sid")
  case None
  then show ?thesis by (simp add: start_swap_session_def wp_ret written_post)
next
  case (Some s)
  let ?Q = "\<lambda>x t'. event_post E d t (snd x) t'"
  have announce: "wp (bind (broadcast_adaptor_point E s) (\<lambda>s1.
      let s2 = (if state s1 = Initialized then transition_to AwaitingAdaptorPoints s1 else s1) in
      ret (True, put_session sid s2 d))) (\<lambda>_ _. True) ?Q t1" if t1: "set t \<subseteq> set t1" for t1
    unfolding wp_bind Let_def wp_ret
  proof (rule wp_mono [OF wp_op [OF adaptor_announcement.session_op_axioms]])
    fix s1 t2
    assume 1: "evolves s s1 \<and> set t1 \<subseteq> set t2"
    have "evolves s (if state s1 = Initialized then transition_to AwaitingAdaptorPoints s1 else s1)"
      using evolves_transition_from conjunct1 [OF 1] by (cases "state s1 = Initialized") simp_all
    from written_post [OF written_put [OF Some this subset_trans [OF t1 conjunct2 [OF 1]]]]
    show "?Q (True, put_session sid
        (if state s1 = Initialized then transition_to AwaitingAdaptorPoints s1 else s1) d) t2"
      by simp
  qed simp
  have failed: "wp (ret (True, put_session sid (transition_to Failed s) d)) (\<lambda>_ _. True) ?Q t1"
    if "set t \<subseteq> set t1" for t1
    using written_post [OF written_put [OF Some evolves_transition that]] by (simp add: wp_ret)
  have validate: "wp (if validate_utxos (config d) then validate_funding_utxos E s (config d) else ret True)
      (\<lambda>_ _. True) (\<lambda>_ t1. set t \<subseteq> set t1) t"
    by (rule wp_cases [OF wp_grows [OF emits_validate [of "\<lambda>_. True"]]]) (simp_all add: wp_ret)
  show ?thesis
    unfolding start_swap_session_def Some option.case
      wp_bind [of "if validate_utxos (config d) then validate_funding_utxos E s (config d) else ret True"]
    by (rule wp_mono [OF validate]) (simp, intro wp_cases failed announce, assumption+)
qed

text \<open>The first participant that is marked as the daemon itself.\<close>

lemma find_me_first:
  "List.find is_me (bt_values ps) = Some me \<Longrightarrow>
     \<exists>k. find_me ps = Some (k, me) \<and> (own_keyed ps \<longrightarrow> k = p_id me)"
proof -
  assume "List.find is_me (bt_values ps) = Some me"
  then have "\<exists>k. find_me ps = Some (k, me)"
    by (induction ps rule: find_me.induct) (auto simp: bt_values_def split: if_splits)
  then show ?thesis using find_me_Some unfolding own_keyed_def by fast
qed

lemma session_new_fields:
  assumes "session_new E sid ps sblock sslot bfee cfee t = (Inr s, t')"
  shows "check_cyclic ps = Inr True" "\<exists>b. t' = RandomBytes b # t"
    "\<exists>me sec pnt. List.find is_me (bt_values ps) = Some me \<and>
       s = session_literal sid ps sblock sslot bfee cfee (hm_insert (p_id me) sec []) (hm_insert (p_id me) pnt [])"
  using assms
  by (auto simp: session_new_def Let_def bind_def lift_def ret_def random_bytes_def unwrap_def
      split: sum.splits if_splits prod.splits option.splits)

lemma session_ok_new:
  assumes "session_new E sid ps sblock sslot bfee cfee t = (Inr s, t')" and "bt_ok ps"
  shows "session_ok E cfg t' sid (s\<lparr>cardano_collaterals := col, refund_window_secs := w\<rparr>)"
proof -
  obtain me sec pnt where me: "List.find is_me (bt_values ps) = Some me"
    and s: "s = session_literal sid ps sblock sslot bfee cfee (hm_insert (p_id me) sec []) (hm_insert (p_id me) pnt [])"
    using session_new_fields(3) [OF assms(1)] by blast
  obtain k where k: "find_me ps = Some (k, me)" "own_keyed ps \<longrightarrow> k = p_id me"
    using find_me_first [OF me] by blast
  have "stores_ok (s\<lparr>cardano_collaterals := col, refund_window_secs := w\<rparr>)"
    using k by (auto simp: stores_ok_def s session_literal_def get_my_id_def bt_ok_def)
  then show ?thesis
    using assms(2) session_new_fields(1) [OF assms(1)] by (simp add: session_ok_def s session_literal_def)
qed

lemma daemon_ok_insert:
  assumes "daemon_ok E d t" and "session_ok E (config d) t' (sess_id s) s" and "set t \<subseteq> set t'"
  shows "daemon_ok E (insert_session s d) t'"
  using assms unfolding daemon_ok_def pollers_traced_def insert_session_def
  by (auto intro: session_ok_mono)

lemma daemon_ok_step:
  assumes ok: "daemon_ok E d t" and step: "daemon_step E (d, t) (d', t')"
  shows "daemon_ok E d' t' \<and> config d' = config d \<and> swap_keys d' = swap_keys d \<and> set t \<subseteq> set t'"
  using step
proof (cases rule: daemon_stepE [consumes 1, case_names create start peer poll])
  case (create sid ps sblock sslot bfee cfee s w col)
  let ?s = "s\<lparr>cardano_collaterals := col, refund_window_secs := w\<rparr>"
  have new: "session_ok E (config d) t' sid ?s"
    by (rule session_ok_new [OF create(2,3)])
  then have id: "sess_id ?s = sid" by (simp only: session_ok_def)
  have t: "set t \<subseteq> set t'" using session_new_fields(2) [OF create(2)] by auto
  show ?thesis
    using daemon_ok_insert [OF ok _ t, of ?s] new create(1) t id by (simp add: insert_session_def)
next
  case (start sid b)
  then have "event_post E d t d' t'"
    using wp_Inr [OF wp_start_swap_session start] by simp
  then show ?thesis using daemon_ok_post [OF ok] by (simp add: event_post_def advances_def)
next
  case (peer v a)
  then have "event_post E d t d' t'"
    using wp_Inr [OF wp_handle_event] by blast
  then show ?thesis using daemon_ok_post [OF ok] by (simp add: event_post_def advances_def)
next
  case (poll sid target)
  then have "event_post E d t d' t'"
    using wp_Inr [OF wp_handle_event] by blast
  then show ?thesis using daemon_ok_post [OF ok] by (simp add: event_post_def advances_def)
qed

lemma reachable_ok:
  assumes "reachable E keys cfg (d, t)"
  shows "daemon_ok E d t \<and> config d = cfg \<and> swap_keys d = keys"
proof -
  have "daemon_ok E (fst c) (snd c) \<and> config (fst c) = cfg \<and> swap_keys (fst c) = keys"
    if "reachable E keys cfg c" for c
    using that
  proof (induction rule: reachable.induct)
    case init
    then show ?case by (simp add: daemon_ok_def daemon_new_def pollers_traced_def hm_contains_def)
  next
    case (step c c')
    then show ?case
      using daemon_ok_step [of E "fst c" "snd c" "fst c'" "snd c'"] by simp
  qed
  from this [OF assms] show ?thesis by simp
qed

end
