(* ===== verification/Sample_Env.thy ===== *)
theory Sample_Env
  imports Daemon_Runs
begin

text \<open>
  A concrete environment on which the properties are evaluated: a cyclic group of order 7, JSON
  values with the accessors of \<open>serde_json\<close>, hexadecimal text, and encodings small enough to
  compute with. The answers of the HTTP services are an argument. Nothing else in the development
  depends on these choices.
\<close>

section \<open>Code equations over binary integers\<close>

text \<open>The natural numbers of the definitions are evaluated as binary integers, so that evaluation does
  not count to \<open>2 ^ 64\<close>.\<close>

lemma nat_le_power_iff: "2 ^ n \<le> (m :: nat) \<longleftrightarrow> (2 :: int) ^ n \<le> int m"
  by (metis of_nat_le_iff of_nat_numeral of_nat_power)

lemma add_chk_code [code]:
  "add_chk ov a (b :: 'a::len word) =
     (if ov \<and> (2 :: int) ^ LENGTH('a) \<le> uint a + uint b then Inl ArithOverflow else Inr (a + b))"
  by (simp add: add_chk_def nat_le_power_iff)

lemma mul_chk_code [code]:
  "mul_chk ov a (b :: 'a::len word) =
     (if ov \<and> (2 :: int) ^ LENGTH('a) \<le> uint a * uint b then Inl ArithOverflow else Inr (a * b))"
  by (simp add: mul_chk_def nat_le_power_iff)

lemma parse_u64_code [code]:
  "parse_u64 s =
     (let ds = (case s of c # cs \<Rightarrow> if c = CHR ''+'' then cs else s | [] \<Rightarrow> s) in
      if ds = [] then None
      else case read_digits 0 ds of
             None \<Rightarrow> None
           | Some n \<Rightarrow> if int n < 2 ^ 64 then Some (of_int (int n)) else None)"
proof -
  have "n < 2 ^ 64 \<longleftrightarrow> int n < 2 ^ 64" for n
    using nat_le_power_iff [of 64 n] by linarith
  then show ?thesis by (simp add: parse_u64_def Let_def split: option.split)
qed

lemma be_u64_code [code]:
  "be_u64 bs = of_int (foldl (\<lambda>acc b. 256 * acc + uint b) 0 bs)"
proof -
  have "int (foldl (\<lambda>acc b. 256 * acc + unat b) n bs) = foldl (\<lambda>acc b. 256 * acc + uint b) (int n) bs" for n
    by (induction bs arbitrary: n) simp_all
  from this [of 0] have "int (foldl (\<lambda>acc b. 256 * acc + unat b) 0 bs) =
      foldl (\<lambda>acc b. 256 * acc + uint b) 0 bs" by simp
  moreover have "be_u64 bs = of_int (int (foldl (\<lambda>acc b. 256 * acc + unat b) 0 bs))"
    unfolding be_u64_def by (rule of_int_of_nat_eq [symmetric])
  ultimately show ?thesis by simp
qed

lemma leader_index_code [code]:
  "leader_index seed n =
     (if length seed < 8 then Inl OutOfBounds
      else if n = 0 then Inl DivByZero
      else Inr (nat (uint (be_u64 (take 8 seed)) mod int n)))"
proof -
  have "unat w mod n = nat (uint w mod int n)" for w :: u64
    by (simp add: nat_mod_distrib)
  then show ?thesis by (simp add: leader_index_def)
qed

section \<open>JSON and hexadecimal text\<close>

definition sample_field :: "json \<Rightarrow> string \<Rightarrow> json option" where
  "sample_field j k = (case j of JObject kvs \<Rightarrow> map_of kvs k | _ \<Rightarrow> None)"

definition sample_json :: json_lib where
  "sample_json =
     \<lparr>j_index = (\<lambda>j k. case sample_field j k of None \<Rightarrow> JNull | Some v \<Rightarrow> v),
      j_nth = (\<lambda>j n. case j of JArray xs \<Rightarrow> if n < length xs then xs ! n else JNull | _ \<Rightarrow> JNull),
      j_get = sample_field,
      as_bool = (\<lambda>j. case j of JBool b \<Rightarrow> Some b | _ \<Rightarrow> None),
      as_u64 = (\<lambda>j. case j of JNumber n \<Rightarrow> if 0 \<le> n \<and> n < 2 ^ 64 then Some (of_int n) else None
                       | _ \<Rightarrow> None),
      as_str = (\<lambda>j. case j of JString s \<Rightarrow> Some s | _ \<Rightarrow> None),
      as_array = (\<lambda>j. case j of JArray xs \<Rightarrow> Some xs | _ \<Rightarrow> None)\<rparr>"

definition hex_digits :: string where
  "hex_digits = ''0123456789abcdef''"

fun hex_value :: "string \<Rightarrow> nat \<Rightarrow> char \<Rightarrow> nat option" where
  "hex_value [] n c = None"
| "hex_value (d # ds) n c = (if c = d then Some n else hex_value ds (Suc n) c)"

definition sample_hex_encode :: "bytes \<Rightarrow> hex_string" where
  "sample_hex_encode bs = concat (map (\<lambda>b. [hex_digits ! (unat b div 16), hex_digits ! (unat b mod 16)]) bs)"

fun sample_hex_decode :: "hex_string \<Rightarrow> bytes option" where
  "sample_hex_decode [] = Some []"
| "sample_hex_decode [c] = None"
| "sample_hex_decode (c # d # cs) =
     (case (hex_value hex_digits 0 c, hex_value hex_digits 0 d, sample_hex_decode cs) of
        (Some x, Some y, Some bs) \<Rightarrow> Some (of_nat (16 * x + y) # bs)
      | _ \<Rightarrow> None)"

section \<open>The group and the signatures\<close>

definition to_scalar :: "nat \<Rightarrow> scalar option" where
  "to_scalar n = (if n mod 7 = 0 then None else Some (Scalar (n mod 7)))"

definition to_point :: "nat \<Rightarrow> point option" where
  "to_point n = (if n mod 7 = 0 then None else Some (Point (n mod 7)))"

fun scalar_log :: "scalar \<Rightarrow> nat" where
  "scalar_log (Scalar n) = n"

fun point_log :: "point option \<Rightarrow> nat" where
  "point_log None = 0"
| "point_log (Some (Point n)) = n"

definition first_byte :: "bytes \<Rightarrow> nat" where
  "first_byte bs = (case bs of [] \<Rightarrow> 0 | b # _ \<Rightarrow> unat b)"

definition second_byte :: "bytes \<Rightarrow> nat" where
  "second_byte bs = (case bs of _ # b # _ \<Rightarrow> unat b | _ \<Rightarrow> 0)"

fun key_bytes :: "pubkey \<Rightarrow> bytes" where
  "key_bytes (PubKey bs) = bs"

definition to_key :: "nat \<Rightarrow> pubkey option" where
  "to_key n = (if n mod 7 = 0 then None else Some (PubKey [of_nat (n mod 7)]))"

definition key_of_text :: "string \<Rightarrow> pubkey option" where
  "key_of_text s = (case read_digits 0 s of None \<Rightarrow> None | Some n \<Rightarrow> to_key n)"

definition bytes_of_text :: "string \<Rightarrow> bytes" where
  "bytes_of_text s = map of_char s"

definition sample_musig :: musig_lib where
  "sample_musig =
     \<lparr>pk_parse = key_of_text,
      pk_to_string = (\<lambda>pk. show_nat (first_byte (key_bytes pk))),
      pk_serialize = (\<lambda>pk. 2 # key_bytes pk),
      pk_combine = (\<lambda>a b. to_key (first_byte (key_bytes a) + first_byte (key_bytes b))),
      scalar_from_slice = (\<lambda>bs. to_scalar (first_byte bs)),
      scalar_serialize = (\<lambda>a. [of_nat (scalar_log a)]),
      scalar_add = (\<lambda>a b. to_scalar (scalar_log a + scalar_log b)),
      scalar_sub = (\<lambda>a b. to_scalar (scalar_log a + 7 - scalar_log b)),
      scalar_neg = (\<lambda>a. Scalar (7 - scalar_log a)),
      base_point_mul = (\<lambda>a. case a of None \<Rightarrow> None | Some x \<Rightarrow> Some (Point (scalar_log x))),
      point_add = (\<lambda>p q. to_point (point_log p + point_log q)),
      point_sub = (\<lambda>p q. to_point (point_log p + 7 - point_log q)),
      point_to_string = (\<lambda>p. show_nat (point_log (Some p))),
      nonce_parse = (\<lambda>s. case sample_hex_decode s of None \<Rightarrow> None | Some bs \<Rightarrow> Some (PubNonce bs)),
      nonce_to_string = (\<lambda>n. case n of PubNonce bs \<Rightarrow> sample_hex_encode bs),
      nonce_sum = (\<lambda>ns. AggNonce (concat (map (\<lambda>n. case n of PubNonce bs \<Rightarrow> bs) ns))),
      key_agg_new = (\<lambda>pks. Some (KeyAggCtx (concat (map key_bytes pks)))),
      key_agg_pubkey = (\<lambda>ctx. case ctx of KeyAggCtx bs \<Rightarrow> PubKey bs),
      key_agg_with_tweak = (\<lambda>ctx x. Some ctx),
      sec_nonce_build = (\<lambda>seed sk m. SecNonce [of_nat (first_byte seed)]),
      sec_nonce_public = (\<lambda>n. case n of SecNonce bs \<Rightarrow> PubNonce bs),
      sec_nonce_serialize = (\<lambda>n. case n of SecNonce bs \<Rightarrow> bs),
      sec_nonce_from_bytes = (\<lambda>bs. Some (SecNonce bs)),
      sign_partial = (\<lambda>ctx sk n agg m. Some (PartialSig [1])),
      adaptor_sign_partial = (\<lambda>ctx sk n agg ap m. Some (PartialSig [2])),
      psig_serialize = (\<lambda>p. case p of PartialSig bs \<Rightarrow> bs),
      psig_from_slice = (\<lambda>bs. Some (PartialSig bs)),
      aggregate_sigs = (\<lambda>ctx agg ps m. Some [1, 1]),
      adaptor_aggregate_sigs = (\<lambda>ctx agg ap ps m. Some (AdaptorSig [2, 3])),
      adaptor_serialize = (\<lambda>a. case a of AdaptorSig bs \<Rightarrow> bs),
      adaptor_from_bytes = (\<lambda>bs. Some (AdaptorSig bs)),
      adaptor_unzip = (\<lambda>a. case a of AdaptorSig bs \<Rightarrow> (to_point (first_byte bs), to_scalar (second_byte bs))),
      adaptor_adapt = (\<lambda>a x. case a of AdaptorSig bs \<Rightarrow>
         Some (LiftedSig [of_nat ((first_byte bs + scalar_log x) mod 7),
                          of_nat ((second_byte bs + scalar_log x) mod 7)])),
      lifted_serialize = (\<lambda>l. case l of LiftedSig bs \<Rightarrow> bs),
      lifted_from_bytes = (\<lambda>bs. Some (LiftedSig bs)),
      lifted_unzip = (\<lambda>l. case l of LiftedSig bs \<Rightarrow> (to_point (first_byte bs), to_scalar (second_byte bs)))\<rparr>"

text \<open>The order of the group is odd and its operations are the ones the crates document.\<close>

definition sample_scalars :: "scalar set" where
  "sample_scalars = Scalar ` {1, 2, 3, 4, 5, 6}"

definition sample_points :: "point option set" where
  "sample_points = insert None ((Some \<circ> Point) ` {1, 2, 3, 4, 5, 6})"

lemma sample_group:
  "cyclic_group sample_musig 7 sample_scalars sample_points (int \<circ> scalar_log) (int \<circ> point_log)"
proof -
  have s: "(\<forall>a \<in> sample_scalars. P a) \<longleftrightarrow> (\<forall>n \<in> {1, 2, 3, 4, 5, 6}. P (Scalar n))" for P
    by (simp add: sample_scalars_def)
  have p: "(\<forall>a \<in> sample_points. P a) \<longleftrightarrow> P None \<and> (\<forall>n \<in> {1, 2, 3, 4, 5, 6}. P (Some (Point n)))" for P
    by (simp add: sample_points_def)
  have inj: "inj_on (int \<circ> scalar_log) sample_scalars" "inj_on (int \<circ> point_log) sample_points"
    by (auto simp: sample_scalars_def sample_points_def inj_on_def)
  have mem: "Scalar n \<in> sample_scalars \<longleftrightarrow> n \<in> {1, 2, 3, 4, 5, 6}"
    "Some (Point n) \<in> sample_points \<longleftrightarrow> n \<in> {1, 2, 3, 4, 5, 6}" "None \<in> sample_points" for n
    by (auto simp: sample_scalars_def sample_points_def)
  show ?thesis
    unfolding cyclic_group_def using inj
    by (simp add: s p mem sample_musig_def to_scalar_def to_point_def)
qed

section \<open>Transactions\<close>

definition sample_btc_tx :: "bytes list \<Rightarrow> btc_tx" where
  "sample_btc_tx w =
     \<lparr>tx_version = 2, lock_time = 0,
      tx_input = [\<lparr>previous_output = \<lparr>op_txid = ''f1'', op_vout = 0\<rparr>, script_sig = [], sequence = 0,
                   witness = w\<rparr>],
      tx_output = [\<lparr>out_value = 100000, script_pubkey = [1]\<rparr>]\<rparr>"

definition sample_btc :: btc_lib where
  "sample_btc =
     \<lparr>btc_deserialize_hex = (\<lambda>h. if h = ''b1'' then Some (sample_btc_tx [])
         else if h = ''b2'' then Some (sample_btc_tx [[5, 6]]) else None),
      btc_serialize_hex = (\<lambda>tx. ''b1''),
      compute_txid = (\<lambda>tx. ''t1''),
      txid_from_str = Some,
      xonly_from_slice = Some,
      p2tr_script = (\<lambda>k n. k),
      lock_time_from_height = (\<lambda>h. if h < 500000000 then Some h else None),
      taproot_sighash = (\<lambda>tx i outs. Some [7]),
      sign_keyspend = (\<lambda>sk m. m),
      tap_tweak_hash = (\<lambda>k. k),
      enable_rbf_no_locktime = 4294967293\<rparr>"

definition sample_car_tx :: "u64 \<Rightarrow> car_tx" where
  "sample_car_tx val =
     \<lparr>ct_body = \<lparr>cb_inputs = [([4], 0)],
                 cb_outputs = [\<lparr>co_address = [9], co_value = val, co_datum = None\<rparr>],
                 cb_fee = 2000000, cb_collateral = Some [([3], 1)], cb_validity_start = Some 700,
                 cb_script_data_hash = None\<rparr>,
      ct_witness = no_witness\<rparr>"

text \<open>Hexadecimal text of the bytes 1 and 2 is a transaction with one output, of 900 ADA and of 50
  ADA.\<close>

definition sample_csl :: csl_lib where
  "sample_csl =
     \<lparr>car_to_bytes = (\<lambda>tx. if cb_script_data_hash (ct_body tx) = None then [1] else [3]),
      car_from_bytes = (\<lambda>b. if b = [1] then Some (sample_car_tx 900000000)
                            else if b = [2] then Some (sample_car_tx 50000000)
                            else if b = [3] then Some (sample_car_tx 1) else None),
      fixed_tx_hash = Some,
      body_to_bytes = (\<lambda>b. []),
      tx_hash_from_hex = (\<lambda>s. Some [5]),
      script_enterprise_address = (\<lambda>n s. [n]),
      key_enterprise_address = (\<lambda>n k. Some (n # k)),
      address_to_bech32 = (\<lambda>a. Some ''addr''),
      output_build = (\<lambda>a d v. Some \<lparr>co_address = a, co_value = v, co_datum = d\<rparr>),
      ed25519_sign = (\<lambda>sk m. m),
      ed25519_pubkey = Some,
      hash_script_data = (\<lambda>rs cm. [6]),
      big_int_from_str = Some\<rparr>"

lemma sample_csl_keeps: "builder_keeps sample_csl"
  by (auto simp: builder_keeps_def sample_csl_def)

section \<open>The environment\<close>

definition sample_env :: "(http_request \<Rightarrow> http_response option) \<Rightarrow> env" where
  "sample_env net =
     \<lparr>musig = sample_musig, btc = sample_btc, csl = sample_csl, json = sample_json,
      hex_encode = sample_hex_encode, hex_decode = sample_hex_decode,
      sha256 = (\<lambda>b. take 32 (b @ replicate 32 0)), blake2b256 = (\<lambda>b. take 32 (b @ replicate 32 0)),
      serde_to_vec = (\<lambda>v. Some [env_participant_id v]),
      serde_from_str = (\<lambda>line. if line = ''lock'' then Some (envelope_new 7 2 LockTxBroadcast) else None),
      utf8_valid = (\<lambda>b. True),
      epoch_params_of_json = (\<lambda>j. None),
      exec_fee_f64 = (\<lambda>pm ps m c. 500000),
      parse_f64 = Some,
      hash_order = (\<lambda>ks. ks),
      overflow_checks = True,
      grpc_uri_ok = (\<lambda>u. True),
      net_answer = (\<lambda>t rq. net rq),
      grpc_answer = (\<lambda>t u b. True),
      rng_answer = (\<lambda>t n. replicate n 3),
      connect_answer = (\<lambda>t a. True),
      write_answer = (\<lambda>t a b. True)\<rparr>"

text \<open>Services that never answer, and services that answer every request with one JSON value.\<close>

definition offline :: "http_request \<Rightarrow> http_response option" where
  "offline rq = None"

definition answering :: "json \<Rightarrow> string \<Rightarrow> http_request \<Rightarrow> http_response option" where
  "answering j body rq = Some \<lparr>rs_success = True, rs_text = Some body, rs_json = Some j\<rparr>"

definition sample_keys :: swap_keys where
  "sample_keys = \<lparr>secret_key = SecKey [1], public_key = PubKey [1],
     wallet_secret_key = replicate 32 1, wallet_public_key = replicate 32 2\<rparr>"

definition sample_config :: daemon_config where
  "sample_config = \<lparr>cfg_tcp_address = ''me'', bitcoin_network = BtcCustom ''btc'',
     cardano_network = CarPreprod, blockfrost_api_key = ''key'', validate_utxos = True\<rparr>"

section \<open>A swap of two\<close>

definition swap_member :: "participant_id \<Rightarrow> participant_id \<Rightarrow> bool \<Rightarrow> participant" where
  "swap_member i tgt me =
     \<lparr>p_id = i, blockchain = Bitcoin, tcp_address = ''peer'' @ show_nat (unat i),
      target_participant = tgt, amount_locking = 100000, amount_claiming = 100000, is_me = me,
      secp256k1_public_key = show_nat (unat i), p_wallet_public_key = [i],
      funding_utxo_txid = ''f1'', funding_utxo_vout = 0\<rparr>"

definition ring2 :: participants where
  "ring2 = [(1, swap_member 1 2 True), (2, swap_member 2 1 False)]"

text \<open>The session that \<open>SwapSession::new\<close> makes of it: the random bytes give the secret 3.\<close>

definition new_session :: session where
  "new_session = session_literal 7 ring2 1000 50000 5000 2000000 [(1, ''03'')] [(1, ''3'')]"

end
