(* ===== verification/Sample_Run.thy ===== *)
theory Sample_Run
  imports Sample_Env
begin

text \<open>
  A whole swap of two Bitcoin participants in the concrete environment: the daemon's session is
  created and started, the peer's messages and the ticks of the pollers follow in the order of an
  honest run, up to the leader's spend. The daemons it passes through are reachable, and the
  properties are evaluated on them.
\<close>

text \<open>Events in a row, each poller tick only of a poller that was spawned.\<close>

fun run_events :: "env \<Rightarrow> daemon_event list \<Rightarrow> daemon \<times> trace \<Rightarrow> (daemon \<times> trace) option" where
  "run_events E [] c = Some c"
| "run_events E (ev # evs) (d, t) =
     (if (case ev of ChainPoll sid target \<Rightarrow> PollerSpawned sid target \<in> set t | PeerMessage _ _ \<Rightarrow> True)
      then (case handle_event E ev d t of
              (Inl _, _) \<Rightarrow> None
            | (Inr d', t') \<Rightarrow> run_events E evs (d', t'))
      else None)"

lemma run_events_loop: "run_events E evs (d, t) = Some (d', t') \<Longrightarrow> event_loop E d evs t = (Inr d', t')"
proof (induction evs arbitrary: d t)
  case Nil
  then show ?case by (simp add: event_loop_def ret_def)
next
  case (Cons ev evs)
  then obtain d1 t1 where "handle_event E ev d t = (Inr d1, t1)" "run_events E evs (d1, t1) = Some (d', t')"
    by (auto split: if_splits prod.splits sum.splits)
  with Cons.IH [of d1 t1] show ?case by (simp add: event_loop_def bind_def)
qed

lemma run_events_reachable:
  "reachable E keys cfg c \<Longrightarrow> run_events E evs c = Some c' \<Longrightarrow> reachable E keys cfg c'"
proof (induction E evs c rule: run_events.induct)
  case (1 E c)
  then show ?case by simp
next
  case (2 E ev evs d t)
  from 2(3) obtain d1 t1 where
    ok: "case ev of ChainPoll sid target \<Rightarrow> PollerSpawned sid target \<in> set t | PeerMessage _ _ \<Rightarrow> True"
    and h: "handle_event E ev d t = (Inr d1, t1)" and rest: "run_events E evs (d1, t1) = Some c'"
    by (auto split: if_splits prod.splits sum.splits)
  have "daemon_step E (d, t) (d1, t1)"
  proof (cases ev)
    case (PeerMessage v a)
    then show ?thesis using h by (intro daemon_step.peer) simp
  next
    case (ChainPoll sid target)
    then show ?thesis using h ok by (intro daemon_step.poll [of sid target]) simp_all
  qed
  then have "reachable E keys cfg (d1, t1)" using 2(2) by (rule reachable.step [rotated])
  then show ?case using 2(1) [OF ok] h rest by simp
qed

section \<open>The swap\<close>

text \<open>One JSON value that answers every request: an unspent funding output, confirmed
  transactions.\<close>

definition tx_json :: json where
  "tx_json = JObject [(''vout'', JArray [JObject [(''scriptpubkey'', JString ''01''), (''value'', JNumber 100000)]]),
     (''spent'', JBool False), (''confirmed'', JBool True)]"

definition swap_env :: env where
  "swap_env = sample_env (answering tx_json ''2000'')"

definition swap_created :: daemon where
  "swap_created = insert_session new_session (daemon_new sample_keys sample_config)"

definition swap_started :: "daemon \<times> trace" where
  "swap_started =
     (case start_swap_session swap_env swap_created 7 [RandomBytes (replicate 32 3)] of
        (Inr (_, d), t) \<Rightarrow> (d, t)
      | (Inl _, _) \<Rightarrow> (swap_created, [RandomBytes (replicate 32 3)]))"

definition from_peer :: "wire_message \<Rightarrow> daemon_event" where
  "from_peer m = PeerMessage (envelope_new 7 2 m) ''peer2''"

definition swap_events :: "daemon_event list" where
  "swap_events =
     [from_peer (AdaptorPoint ''2''), from_peer (LeaderElectionCommitment (9 # replicate 31 0)),
      from_peer (LeaderElectionNonce [9])] @
     concat (map (\<lambda>r. [from_peer (SchnorrNonce r ''05''), from_peer (PartialSignature r ''06'')])
       [Refund 1, Refund 2, Spend 1, Spend 2]) @
     [from_peer LockTxBroadcast, ChainPoll 7 (LockTx 1), ChainPoll 7 (LockTx 2)]"

text \<open>The daemon after the given number of events.\<close>

definition swap_after :: "nat \<Rightarrow> daemon \<times> trace" where
  "swap_after n = (case run_events swap_env (take n swap_events) swap_started of
     None \<Rightarrow> swap_started | Some c \<Rightarrow> c)"

lemma new_session_made:
  "session_new swap_env 7 ring2 1000 50000 5000 2000000 [] = (Inr new_session, [RandomBytes (replicate 32 3)])"
  by code_simp

lemma ring2_ok: "bt_ok ring2"
  by code_simp

lemma swap_started_reachable: "reachable swap_env sample_keys sample_config swap_started"
proof -
  have "reachable swap_env sample_keys sample_config (swap_created, [RandomBytes (replicate 32 3)])"
    using daemon_step.create [OF new_session_made ring2_ok, of "daemon_new sample_keys sample_config"
        "refund_window_secs new_session" "cardano_collaterals new_session"]
    by (intro reachable.step [OF reachable.init]) (simp add: swap_created_def)
  moreover have "daemon_step swap_env (swap_created, [RandomBytes (replicate 32 3)]) swap_started"
    if "start_swap_session swap_env swap_created 7 [RandomBytes (replicate 32 3)] = (Inr (ok, d), t)" for ok d t
    using daemon_step.start [OF that] that by (simp add: swap_started_def)
  ultimately show ?thesis
    by (cases "start_swap_session swap_env swap_created 7 [RandomBytes (replicate 32 3)]";
        cases "fst (start_swap_session swap_env swap_created 7 [RandomBytes (replicate 32 3)])")
      (auto simp: swap_started_def intro: reachable.step)
qed

lemma swap_after_reachable: "reachable swap_env sample_keys sample_config (swap_after n)"
  using run_events_reachable [OF swap_started_reachable] swap_started_reachable
  by (auto simp: swap_after_def split: option.splits)

text \<open>The session of the swap, which is always there.\<close>

definition swap_session :: "nat \<Rightarrow> session" where
  "swap_session n = the (hm_get (sessions (fst (swap_after n))) 7)"

text \<open>The honest run goes through the states in their order.\<close>

lemma honest_run:
  "state_history (swap_session 14) =
     [Initialized, AwaitingAdaptorPoints, AwaitingLeaderElectionCommitments,
      AwaitingLeaderElectionNonces, RefundAndSpendTxsSigning, Funding, AwaitingLockConfirmations,
      AwaitingLeaderSpend]"
  by code_simp

end
