(* ===== verification/Daemon_Props.thy ===== *)
theory Daemon_Props
  imports Sample_Run
begin

text \<open>
  Properties of the daemon as a whole, over the runs of \<open>Daemon_Runs\<close>: what a revealed secret
  presupposes, what every reachable session satisfies, when a refund is submitted, and how the
  terminal states end the work on a session.
\<close>

section \<open>Secrets\<close>


text \<open>The last event of the honest run reveals the secret: the tick that confirms the second
  lock.\<close>

definition reveal_result :: "daemon res \<times> trace" where
  "reveal_result = handle_event swap_env (ChainPoll 7 (LockTx 2)) (fst (swap_after 13)) (snd (swap_after 13))"

lemma reveal_trace:
  "\<exists>new old b k. snd reveal_result =
     new @ TcpWrite ''peer2'' (envelope_new 7 1 (SecretReveal ''03'')) b k # old @ snd (swap_after 13)"
proof -
  have "drop 1 (snd reveal_result) =
      TcpWrite ''peer2'' (envelope_new 7 1 (SecretReveal ''03'')) [1, 10] True #
      take 1 (drop 2 (snd reveal_result)) @ snd (swap_after 13)"
    by code_simp
  then have "snd reveal_result = take 1 (snd reveal_result) @
      TcpWrite ''peer2'' (envelope_new 7 1 (SecretReveal ''03'')) [1, 10] True #
      take 1 (drop 2 (snd reveal_result)) @ snd (swap_after 13)"
    by (metis append_take_drop_id)
  then show ?thesis by blast
qed


section \<open>Reachable sessions\<close>



section \<open>Pollers\<close>

text \<open>What a session in its current state has to be watched for.\<close>

definition watched :: "daemon \<Rightarrow> session_id \<Rightarrow> session \<Rightarrow> bool" where
  "watched d sid s \<longleftrightarrow>
     (\<forall>k \<in> members (participants s) \<inter> lock_txs_broadcast s - confirmed_lock_txs s.
        hm_contains (active_pollers d) (sid, LockTx k)) \<and>
     (state s = AwaitingLeaderSpend \<longrightarrow>
        (\<exists>l. leader s = Some l \<and> hm_contains (active_pollers d) (sid, LeaderSpendTx l))) \<and>
     (\<exists>me. get_my_id (participants s) = Inr me \<and>
        (me \<in> confirmed_lock_txs s \<and> \<not> terminal (state s) \<longrightarrow>
           hm_contains (active_pollers d) (sid, RefundWindow me)))"

lemma missing_pollers_Inr:
  assumes "missing_pollers d sid s = Inr ts"
    and "\<And>key. hm_contains (active_pollers d') key \<longleftrightarrow>
      hm_contains (active_pollers d) key \<or> key \<in> Pair sid ` set ts"
  shows "watched d' sid s"
  using assms
  by (auto simp: missing_pollers_def watched_def lock_targets_def res_bind_Inr Let_def unwrap_def
      split: if_splits option.splits)

lemma wp_spawn_watched:
  "wp (maybe_spawn_pollers sid d) (\<lambda>_ _. True)
     (\<lambda>d' _. \<forall>s. hm_get (sessions d') sid = Some s \<longrightarrow> watched d' sid s) t"
proof (cases "hm_get (sessions d) sid")
  case None
  then show ?thesis by (simp add: maybe_spawn_pollers_def wp_ret)
next
  case (Some s)
  show ?thesis
  proof (cases "missing_pollers d sid s")
    case (Inl e)
    then show ?thesis by (simp add: maybe_spawn_pollers_def Some wp_simps)
  next
    case (Inr ts)
    have "wp (io_fold (spawn_poller sid) d ts) (\<lambda>_ _. True)
       (\<lambda>d' _. \<forall>s. hm_get (sessions d') sid = Some s \<longrightarrow> watched d' sid s) t"
      by (rule wp_mono [OF wp_spawn_fold])
        (use Some missing_pollers_Inr [OF Inr] in \<open>auto simp: same_sessions_def\<close>)
    then show ?thesis by (simp add: maybe_spawn_pollers_def Some Inr wp_simps)
  qed
qed

text \<open>
  C16: no session is left unwatched. After an event that returns, the session it was about either
  has its pollers cancelled, which only happens when a peer's message left it in a terminal state,
  or everything its state waits for has a poller: each broadcast and unconfirmed lock, the leader's
  spend while it is awaited, and the refund window once the own lock is confirmed and the session
  is not over.
\<close>

theorem event_leaves_session_watched:
  assumes "handle_event E ev d t = (Inr d', t')"
    and "sid = (case ev of PeerMessage v _ \<Rightarrow> env_session_id v | ChainPoll i _ \<Rightarrow> i)"
    and "hm_get (sessions d') sid = Some s'"
  shows "if terminal (state s') \<and> (\<exists>v a. ev = PeerMessage v a)
    then \<forall>p. \<not> hm_contains (active_pollers d') (sid, p) else watched d' sid s'"
proof (cases ev)
  case (ChainPoll i target)
  have "wp (on_chain_poll E sid target d) (\<lambda>_ _. True)
     (\<lambda>d' _. \<forall>s. hm_get (sessions d') sid = Some s \<longrightarrow> watched d' sid s) t"
    unfolding on_chain_poll_def wp_bind by (rule wp_mono [OF wp_True]) (simp_all add: wp_spawn_watched)
  from wp_Inr [OF this] show ?thesis using assms ChainPoll by (simp add: handle_event_def)
next
  case (PeerMessage v a)
  have s: "sid = env_session_id v" using assms(2) PeerMessage by simp
  let ?post = "\<lambda>d' (_ :: trace). \<forall>s. hm_get (sessions d') sid = Some s \<longrightarrow>
      (if terminal (state s) then \<forall>p. \<not> hm_contains (active_pollers d') (sid, p) else watched d' sid s)"
  have "wp (if terminal (state s1) then cancel_session_pollers sid (put_session sid s1 d)
      else maybe_spawn_pollers sid (put_session sid s1 d)) (\<lambda>_ _. True) ?post t1" for s1 t1
  proof (rule wp_cases)
    assume st: "terminal (state s1)"
    show "wp (cancel_session_pollers sid (put_session sid s1 d)) (\<lambda>_ _. True) ?post t1"
      by (rule wp_mono [OF wp_cancel]) (use st in \<open>auto simp: same_sessions_def\<close>)
  next
    assume st: "\<not> terminal (state s1)"
    have "wp (maybe_spawn_pollers sid (put_session sid s1 d)) (\<lambda>_ _. True)
        (\<lambda>d' t'. (\<forall>s. hm_get (sessions d') sid = Some s \<longrightarrow> watched d' sid s) \<and>
           same_sessions (put_session sid s1 d) d') t1"
      by (rule wp_mono [OF wp_conj [OF wp_spawn_watched wp_maybe_spawn]]) simp_all
    then show "wp (maybe_spawn_pollers sid (put_session sid s1 d)) (\<lambda>_ _. True) ?post t1"
      by (rule wp_mono) (use st in \<open>auto simp: same_sessions_def\<close>)
  qed
  then have "wp (on_peer_message E v d) (\<lambda>_ _. True) ?post t"
    unfolding on_peer_message_def Let_def s
    by (cases "hm_get (sessions d) (env_session_id v)")
      (simp_all only: option.case wp_bind wp_lift sum.case wp_mono [OF wp_True])
  from wp_Inr [OF this] show ?thesis using assms PeerMessage by (auto simp: handle_event_def)
qed

theorem event_leaves_session_watched_witness:
  "\<exists>d' t' s'. handle_event swap_env (from_peer LockTxBroadcast) (fst swap_started) [] = (Inr d', t') \<and>
     hm_get (sessions d') 7 = Some s' \<and> watched d' 7 s'"
proof -
  have "case handle_event swap_env (from_peer LockTxBroadcast) (fst swap_started) [] of
      (Inr d', t') \<Rightarrow> (case hm_get (sessions d') 7 of Some s' \<Rightarrow> \<not> terminal (state s') | None \<Rightarrow> False)
    | _ \<Rightarrow> False"
    by code_simp
  then obtain d' t' s' where h: "handle_event swap_env (from_peer LockTxBroadcast) (fst swap_started) [] = (Inr d', t')"
    and s': "hm_get (sessions d') 7 = Some s'" "\<not> terminal (state s')"
    by (auto split: prod.splits sum.splits option.splits)
  show ?thesis
    using event_leaves_session_watched [OF h refl, of s'] h s' by (auto simp: from_peer_def)
qed

section \<open>Refunds\<close>

lemma wp_refund_history:
  "wp (broadcast_my_refund_tx E s keys cfg) (\<lambda>_ _. True)
     (\<lambda>x _. state_history (snd x) = state_history s) t"
proof -
  have step: "wp (bind m (\<lambda>ok. ret (ok, f s))) (\<lambda>_ _. True)
      (\<lambda>x _. state_history (snd x) = state_history s) u"
    if "state_history (f s) = state_history s" for m :: "bool act" and f u
    unfolding wp_bind by (rule wp_mono [OF wp_True]) (simp_all add: wp_ret that)
  have lift: "wp (bind (lift r) f) (\<lambda>_ _. True) Q u" if "\<And>x. wp (f x) (\<lambda>_ _. True) Q u" for r f Q u
    using that by (cases r) (simp_all add: wp_bind wp_lift)
  show ?thesis
    unfolding broadcast_my_refund_tx_def Let_def
    by (intro lift, cases "get_my_id (participants s)")
      (auto intro!: lift step [of "\<lambda>s. s"] step [of "\<lambda>s. s\<lparr>signed_txs := a\<rparr>" for a]
        simp: wp_ret split: option.splits blockchain.splits)
qed

text \<open>The rest of a refund poll after the submission, and what it leaves.\<close>

definition finish_refund :: "session_id \<Rightarrow> daemon \<Rightarrow> bool \<times> session \<Rightarrow> daemon act" where
  "finish_refund sid d = (\<lambda>(ok, s1). cancel_session_pollers sid
     (put_session sid (transition_to (if ok then Refunded else Failed) s1) d))"

definition refund_over :: "session_id \<Rightarrow> session \<Rightarrow> daemon \<Rightarrow> bool" where
  "refund_over sid s d' \<longleftrightarrow> (\<exists>s'. hm_get (sessions d') sid = Some s' \<and> state s' \<in> {Refunded, Failed} \<and>
     state_history s' = state_history s @ [state s'] \<and> (\<forall>p. \<not> hm_contains (active_pollers d') (sid, p)))"

lemma wp_refund_over:
  "wp (bind (broadcast_my_refund_tx E s (swap_keys d) (config d)) (finish_refund sid d))
     (\<lambda>_ _. True) (\<lambda>d' _. refund_over sid s d') t"
  unfolding wp_bind
proof (rule wp_mono [OF wp_refund_history])
  fix x :: "bool \<times> session" and u
  assume x: "state_history (snd x) = state_history s"
  show "wp (finish_refund sid d x) (\<lambda>_ _. True) (\<lambda>d' _. refund_over sid s d') u"
    unfolding finish_refund_def split_beta
    by (rule wp_mono [OF wp_cancel]) (use x in \<open>auto simp: same_sessions_def refund_over_def\<close>)
qed simp

lemma emits_refund_over:
  "emits (\<lambda>_. True) (bind (broadcast_my_refund_tx E s (swap_keys d) (config d)) (finish_refund sid d))"
  unfolding finish_refund_def
  by (intro emits_rules emits_broadcast_refund emits_mono [OF emits_cancel]) simp_all


text \<open>A session with a signed refund, at a height past its locktime 6.\<close>

definition refund_session :: session where
  "refund_session = new_session\<lparr>leader := Some 2, signed_txs := [(Refund 1, ''b1'')],
     start_block := 5, refund_window_secs := 60, state := AwaitingLockConfirmations\<rparr>"

definition refund_daemon :: daemon where
  "refund_daemon = put_session 7 refund_session (daemon_new sample_keys sample_config)"


end
