(* ===== verification/Peer_Props.thy ===== *)
theory Peer_Props
  imports Sample_Run
begin

text \<open>
  Properties of the messages of the peers: what a terminal session does with them, which of them
  can make the daemon submit a transaction, the election, and the behaviours a peer can provoke.
\<close>

section \<open>Terminal sessions\<close>

text \<open>
  A session that is over ignores its peers. Any message to a session in a terminal state
  returns, leaves every session as it was and sends nothing to a peer or a chain; the pollers of
  that session are cancelled and all others are kept.
\<close>

theorem terminal_session_ignores_peers:
  assumes "hm_get (sessions d) (env_session_id v) = Some s" and "terminal (state s)"
  shows "\<exists>d' t'. handle_event E (PeerMessage v a) d t = (Inr d', t') \<and>
    hm_get (sessions d') = hm_get (sessions d) \<and> filter outward t' = filter outward t \<and>
    (\<forall>sid p. hm_contains (active_pollers d') (sid, p) \<longleftrightarrow>
       hm_contains (active_pollers d) (sid, p) \<and> sid \<noteq> env_session_id v)"
proof -
  let ?sid = "env_session_id v"
  have m: "on_peer_message E v d = cancel_session_pollers ?sid (put_session ?sid s d)"
    using assms by (simp add: on_peer_message_def Let_def handle_session_message_def bind_def ret_def fun_eq_iff)
  obtain r t' where run: "cancel_session_pollers ?sid (put_session ?sid s d) t = (r, t')"
    by (cases "cancel_session_pollers ?sid (put_session ?sid s d) t")
  obtain new where new: "t' = new @ t" "list_all (poller_effect ?sid) new"
    using emits_trace [OF emits_cancel run] by blast
  have "\<not> outward e" if "poller_effect ?sid e" for e
    using that by (cases e) (simp_all add: poller_effect_def outward_def)
  then have quiet: "filter outward t' = filter outward t"
    using new by (auto simp: list_all_iff filter_empty_conv)
  obtain d' where "r = Inr d'" "same_sessions (put_session ?sid s d) d'"
    "\<forall>key. hm_contains (active_pollers d') key \<longleftrightarrow>
       hm_contains (active_pollers (put_session ?sid s d)) key \<and> fst key \<noteq> ?sid"
    using wp_cancel [of ?sid "put_session ?sid s d" t] run by (cases r) (auto simp: wp_def)
  then show ?thesis
    using assms(1) run m quiet by (auto simp: handle_event_def same_sessions_def)
qed

definition over_session :: session where
  "over_session = new_session\<lparr>state := Refunded\<rparr>"

theorem terminal_session_ignores_peers_witness:
  "\<exists>d' t'. handle_event swap_env (from_peer LockTxBroadcast)
       (put_session 7 over_session (daemon_new sample_keys sample_config)) [] = (Inr d', t') \<and>
     hm_get (sessions d') 7 = Some over_session \<and> filter outward t' = []"
  using terminal_session_ignores_peers
    [of "put_session 7 over_session (daemon_new sample_keys sample_config)" "envelope_new 7 2 LockTxBroadcast"
      over_session swap_env "''peer2''" "[]"]
  by (auto simp: over_session_def from_peer_def)

lemma maybe_spawn_returns:
  assumes "hm_get (sessions d) sid = Some s" and "missing_pollers d sid s = Inr ts"
  shows "\<exists>d' t'. maybe_spawn_pollers sid d t = (Inr d', t') \<and> same_sessions d d' \<and> set t \<subseteq> set t'"
proof -
  have "wp (maybe_spawn_pollers sid d) (\<lambda>_ _. False) (\<lambda>d' t'. same_sessions d d' \<and> set t \<subseteq> set t') t"
    by (simp add: maybe_spawn_pollers_def assms wp_simps) (rule wp_mono [OF wp_spawn_fold], auto)
  then show ?thesis by (auto simp: wp_def split: prod.splits sum.splits)
qed

text \<open>
  C32: a session that is over can be revived by a lock poller. Only the messages of the peers are
  guarded by the terminal states: when the tick of a lock poller finds the last unconfirmed lock of
  a session confirmed, a daemon that is not the leader moves on to \<open>AwaitingLeaderSpend\<close> and sends
  its secret to the others, even when the session was already \<open>Refunded\<close>, \<open>Failed\<close> or \<open>Completed\<close>.
\<close>

theorem lock_poll_revives_terminal_session:
  assumes "terminal (state s)" and "pid \<notin> confirmed_lock_txs s"
    and "members (participants s) \<subseteq> insert pid (confirmed_lock_txs s)"
    and "get_my_id (participants s) = Inr me" and "hm_get (adaptor_secrets s) me = Some sec"
    and "leader s \<noteq> Some me" and "leader s \<noteq> None" and "serde_to_vec E (envelope_new (sess_id s) me (SecretReveal sec)) \<noteq> None"
    and "check_lock_tx_confirmed E s pid (config d) t =
      (Inr (s\<lparr>confirmed_lock_txs := insert pid (confirmed_lock_txs s)\<rparr>), t1)"
    and "\<And>t a. connect_answer E t a" and "\<And>t a b. write_answer E t a b"
  shows "\<exists>d' t' s'. poll_lock_tx E sid pid s d t = (Inr d', t') \<and>
    hm_get (sessions d') sid = Some s' \<and> state s' = AwaitingLeaderSpend \<and>
    (\<forall>a \<in> set (get_other_addresses (participants s)).
       \<exists>b. TcpWrite a (envelope_new (sess_id s) me (SecretReveal sec)) b True \<in> set t')"
proof -
  let ?s1 = "s\<lparr>confirmed_lock_txs := insert pid (confirmed_lock_txs s)\<rparr>"
  let ?v = "envelope_new (sess_id s) me (SecretReveal sec)"
  let ?as = "get_other_addresses (participants s)"
  let ?dd = "put_session sid ?s1 d\<lparr>active_pollers :=
      hm_remove (sid, LockTx pid) (active_pollers (put_session sid ?s1 d))\<rparr>"
  obtain payload where p: "serde_to_vec E ?v = Some payload" using assms(8) by blast
  obtain new where new: "io_fold (send_one E ?v (payload @ [10])) (connection_pool s) ?as t1 =
      (Inr (set ?as \<union> connection_pool s), new @ t1)" "delivered ?v (new @ t1) = set ?as \<union> delivered ?v t1"
    using io_fold_send_delivers [of E ?v "payload @ [10]" "connection_pool s" ?as t1] assms(10,11) by blast
  define s' where "s' = (transition_to AwaitingLeaderSpend ?s1)\<lparr>connection_pool := set ?as \<union> connection_pool s\<rparr>"
  have ann: "announce E (transition_to AwaitingLeaderSpend ?s1) me (SecretReveal sec) t1 = (Inr s', new @ t1)"
    using new(1) p by (simp add: announce_def broadcast_def bind_def ret_def s'_def)
  have all: "all_lock_txs_confirmed ?s1" using assms(3) by (simp add: all_lock_txs_confirmed_iff)
  have poll: "poll_lock_tx E sid pid s d t = maybe_spawn_pollers sid (put_session sid s' ?dd) (new @ t1)"
    using assms(2,4-6,9) ann all
    by (simp add: poll_lock_tx_def locks_confirmed_def bind_def lift_def Let_def)
  have "\<exists>ts. missing_pollers (put_session sid s' ?dd) sid s' = Inr ts"
    using assms(4,7) by (auto simp: missing_pollers_def Let_def s'_def)
  then obtain ts where ts: "missing_pollers (put_session sid s' ?dd) sid s' = Inr ts" by blast
  have "hm_get (sessions (put_session sid s' ?dd)) sid = Some s'" by simp
  from maybe_spawn_returns [OF this ts] obtain d' t' where
    d': "maybe_spawn_pollers sid (put_session sid s' ?dd) (new @ t1) = (Inr d', t')"
      "same_sessions (put_session sid s' ?dd) d'" and t': "set (new @ t1) \<subseteq> set t'" by blast
  have sent: "\<exists>b. TcpWrite a ?v b True \<in> set t'" if "a \<in> set ?as" for a
    using new(2) that t' unfolding delivered_def by blast
  have "hm_get (sessions d') sid = Some s'" "state s' = AwaitingLeaderSpend"
    using d'(2) by (simp_all add: same_sessions_def s'_def)
  then show ?thesis using poll d'(1) sent by metis
qed

text \<open>A refunded session whose second lock is confirmed late.\<close>

definition late_session :: session where
  "late_session = new_session\<lparr>leader := Some 2, lock_txs := [(1, ''b1''), (2, ''b1'')],
     confirmed_lock_txs := {1}, state := Refunded\<rparr>"

theorem lock_poll_revives_terminal_session_witness:
  "\<exists>d' t' s'. poll_lock_tx swap_env 7 2 late_session (daemon_new sample_keys sample_config) [] = (Inr d', t') \<and>
     hm_get (sessions d') 7 = Some s' \<and> state s' = AwaitingLeaderSpend"
proof -
  let ?d = "daemon_new sample_keys sample_config"
  have "get_my_id (participants late_session) = Inr 1 \<and>
      hm_get (adaptor_secrets late_session) 1 = Some ''03'' \<and>
      fst (check_lock_tx_confirmed swap_env late_session 2 (config ?d) []) =
        Inr (late_session\<lparr>confirmed_lock_txs := insert 2 (confirmed_lock_txs late_session)\<rparr>)"
    by code_simp
  then have f: "get_my_id (participants late_session) = Inr 1"
    "hm_get (adaptor_secrets late_session) 1 = Some ''03''"
    "fst (check_lock_tx_confirmed swap_env late_session 2 (config ?d) []) =
        Inr (late_session\<lparr>confirmed_lock_txs := insert 2 (confirmed_lock_txs late_session)\<rparr>)" by blast+
  obtain t1 where c: "check_lock_tx_confirmed swap_env late_session 2 (config ?d) [] =
      (Inr (late_session\<lparr>confirmed_lock_txs := insert 2 (confirmed_lock_txs late_session)\<rparr>), t1)"
    using f(3) by (metis prod.collapse)
  have m: "members (participants late_session) \<subseteq> insert 2 (confirmed_lock_txs late_session)"
    by (simp add: late_session_def new_session_def session_literal_def ring2_def bt_keys_def)
  have x: "terminal (state late_session)" "2 \<notin> confirmed_lock_txs late_session"
    "leader late_session \<noteq> Some 1" "leader late_session \<noteq> None" "sess_id late_session = 7"
    by (simp_all add: late_session_def new_session_def session_literal_def)
  show ?thesis
    using lock_poll_revives_terminal_session [OF x(1,2) m f(1,2) x(3,4) _ c, of 7] x(5)
    by (force simp: swap_env_def sample_env_def)
qed

section \<open>Which messages submit transactions\<close>

text \<open>A submission to a chain: a gRPC submission, or a POST other than Blockfrost's evaluation of a
  script.\<close>

definition submits :: "effect \<Rightarrow> bool" where
  "submits e = (case e of
       GrpcSubmit _ _ _ \<Rightarrow> True
     | Http rq _ \<Rightarrow> rq_method rq = POST \<and>
         list_all (\<lambda>n. case blockfrost_base_url n of
             Inl _ \<Rightarrow> True
           | Inr base \<Rightarrow> rq_url rq \<noteq> url_path base [''api'', ''v0'', ''utils'', ''txs'', ''evaluate''])
           [CarMainnet, CarPreprod, CarPreview]
     | _ \<Rightarrow> False)"

lemma submits_simps [simp]:
  "\<not> submits (TcpConnect a k)" "\<not> submits (TcpWrite a v b k)" "\<not> submits (RandomBytes b)"
  "\<not> submits (PollerSpawned i p)" "\<not> submits (PollerAborted i p)"
  "\<not> submits (Http \<lparr>rq_method = GET, rq_url = u, rq_headers = h, rq_body = x\<rparr> resp)"
  by (simp_all add: submits_def)

abbreviation no_submission :: "'a act \<Rightarrow> bool" where
  "no_submission m \<equiv> emits (\<lambda>e. \<not> submits e) m"

lemma no_submission_announce: "no_submission (announce E s me m)"
  by (rule emits_announce) simp_all

lemma no_submission_evaluate: "no_submission (evaluate_redeemer_units E cfg h)"
proof -
  have post: "no_submission (http_post E (url_path base [''api'', ''v0'', ''utils'', ''txs'', ''evaluate'']) hs b)"
    if "blockfrost_base_url n = Inr base" for n base hs b
    unfolding http_post_def by (rule emits_http_send) (use that in \<open>cases n; auto simp: submits_def\<close>)
  show ?thesis
    unfolding evaluate_redeemer_units_def
    by (cases "cardano_network cfg"; simp only: cardano_network.case;
        (intro emits_ret emits_bind_lift emits_option emits_bind post; assumption)?)
qed

lemma no_submission_attach: "no_submission (attach_sig E cfg cfee c h b r)"
  unfolding attach_sig_def attach_final_sig_def fetch_protocol_params_def
  by (intro emits_rules emits_http_get no_submission_evaluate) simp_all

lemma no_submission_finalize: "no_submission (finalize_role E s keys role cfg)"
  unfolding finalize_role_def
  by (auto intro!: emits_bind_lift emits_bind no_submission_attach
      split: option.splits musig_runtime.splits crypto_result.splits)

lemma no_submission_round_two: "no_submission (transition_to_round_two E s keys role)"
  unfolding transition_to_round_two_def
  by (auto intro!: emits_bind_lift no_submission_announce split: option.splits musig_runtime.splits)

lemma no_submission_signing:
  "no_submission (begin_refund_signing E s keys)" "no_submission (begin_spend_signing E s keys)"
proof -
  have "no_submission (open_signing_round E keys me pks idx role tw h m s)" for me pks idx role tw h m s
    unfolding open_signing_round_def Let_def
    by (intro emits_bind emits_random no_submission_announce) simp
  then show "no_submission (begin_refund_signing E s keys)" "no_submission (begin_spend_signing E s keys)"
    unfolding begin_refund_signing_def begin_spend_signing_def refund_step_def spend_step_def Let_def
    by (intro emits_rules emits_fold; simp)+
qed

lemma no_submission_election:
  "no_submission (start_leader_election E s)" "no_submission (broadcast_leader_nonce E s n)"
  unfolding start_leader_election_def broadcast_leader_nonce_def Let_def
  by (intro emits_rules emits_random no_submission_announce; simp)+

lemma no_submission_setup:
  "no_submission (on_adaptor_point E s pnt pid)" "no_submission (on_leader_commitment E s c pid)"
  "no_submission (on_leader_nonce E cfg keys s n pid)" "no_submission (on_schnorr_nonce E keys s role str pid)"
  unfolding on_adaptor_point_def on_leader_commitment_def on_leader_nonce_def on_schnorr_nonce_def Let_def
  by (intro emits_rules no_submission_election no_submission_signing no_submission_round_two; simp)+

lemma wp_lift_any: "(\<And>x. r = Inr x \<Longrightarrow> wp (f x) (\<lambda>_ _. True) Q t) \<Longrightarrow> wp (bind (lift r) f) (\<lambda>_ _. True) Q t"
  by (cases r) (simp_all add: wp_simps)

lemma wp_finalize_keeps:
  "wp (finalize_role E s keys role cfg) (\<lambda>_ _. True)
     (\<lambda>s' _. partial_sigs s' = partial_sigs s \<and> participants s' = participants s) t"
proof -
  have "wp (bind m (\<lambda>h. ret (s\<lparr>signed_txs := f h\<rparr>))) (\<lambda>_ _. True)
     (\<lambda>s' _. partial_sigs s' = partial_sigs s \<and> participants s' = participants s) u" for m f u
    unfolding wp_bind by (rule wp_mono [OF wp_True]) (simp_all add: wp_ret)
  then show ?thesis
    unfolding finalize_role_def
    by (auto intro!: wp_lift_any simp: wp_ret split: option.splits musig_runtime.splits crypto_result.splits)
qed

lemma no_submission_partial_sig:
  assumes "k \<in> members (participants s)"
    and "\<not> all_partial_sigs_received_for (s\<lparr>partial_sigs := hm_insert2 pid role sg (partial_sigs s)\<rparr>) (Refund k)"
  shows "no_submission (on_partial_signature E cfg keys s role sg pid)"
proof -
  let ?s1 = "s\<lparr>partial_sigs := hm_insert2 pid role sg (partial_sigs s)\<rparr>"
  let ?J = "\<lambda>x :: session. partial_sigs x = partial_sigs ?s1 \<and> participants x = participants s"
  have J: "wp (if all_partial_sigs_received_for ?s1 role then finalize_role E ?s1 keys role cfg else ret ?s1)
      (\<lambda>_ _. True) (\<lambda>x _. ?J x) t" for t
    using wp_finalize_keeps [of E ?s1 keys role cfg t] by (intro wp_cases) (simp_all add: wp_ret)
  have "all_partial_sigs_received_for x (Refund k) \<longleftrightarrow> all_partial_sigs_received_for ?s1 (Refund k)"
    if "?J x" for x
    using that by (simp add: all_partial_sigs_received_for_def)
  then have "\<not> all_partial_sigs_received_for_all_refund_and_spend_txs x" if "?J x" for x
    using that assms by (auto simp: all_refund_and_spend_iff)
  then show ?thesis
    unfolding on_partial_signature_def Let_def
    by (intro emits_bind_post [OF _ J] emits_if no_submission_finalize) auto
qed

lemma no_submission_message:
  assumes neg: "\<not> (\<not> terminal (state s) \<and>
    ((\<exists>role sg. m = PartialSignature role sg \<and>
        (\<forall>k \<in> members (participants s). all_partial_sigs_received_for
           (s\<lparr>partial_sigs := hm_insert2 pid role sg (partial_sigs s)\<rparr>) (Refund k))) \<or>
     (\<exists>sec. m = SecretReveal sec \<and> (\<exists>me. get_my_id (participants s) = Inr me \<and> leader s = Some me) \<and>
        (\<forall>k \<in> members (participants s). k = pid \<or> hm_get (adaptor_secrets s) k \<noteq> None))))"
  shows "no_submission (handle_session_message E cfg keys s m pid)"
proof (cases "terminal (state s)")
  case True
  then show ?thesis by (simp add: handle_session_message_def)
next
  case False
  show ?thesis
  proof (cases m)
    case (PartialSignature role sg)
    then show ?thesis
      using False neg no_submission_partial_sig by (auto simp: handle_session_message_def)
  next
    case (SecretReveal sec)
    let ?s1 = "s\<lparr>adaptor_secrets := hm_insert pid sec (adaptor_secrets s)\<rparr>"
    have "all_adaptor_secrets_received ?s1 \<longleftrightarrow>
        (\<forall>k \<in> members (participants s). k = pid \<or> hm_get (adaptor_secrets s) k \<noteq> None)"
      by (auto simp: all_adaptor_secrets_iff)
    then have "no_submission (on_secret_reveal E cfg keys s sec pid)"
      using False neg SecretReveal unfolding on_secret_reveal_def Let_def
      by (auto intro!: emits_if emits_bind_lift simp: unwrap_def split: option.splits)
    then show ?thesis using False SecretReveal by (simp add: handle_session_message_def)
  qed (use False in \<open>simp_all add: handle_session_message_def no_submission_setup\<close>)
qed

text \<open>
  C17: the messages that can make a daemon submit a transaction. If handling a message submits
  anything, the session was not over, and the message was either a partial signature with which the
  partial signatures of all refunds by all other participants have been received, or a revealed
  secret with which all secrets are known, at the leader. No message of the setup, no nonce and no
  announcement ever submits anything.
\<close>

theorem submission_gate:
  assumes "handle_session_message E cfg keys s m pid t = (r, t')"
    and "e \<in> set (new_effects t t')" and "submits e"
  shows "\<not> terminal (state s) \<and>
    ((\<exists>role sg. m = PartialSignature role sg \<and>
        (\<forall>k \<in> members (participants s). all_partial_sigs_received_for
           (s\<lparr>partial_sigs := hm_insert2 pid role sg (partial_sigs s)\<rparr>) (Refund k))) \<or>
     (\<exists>sec. m = SecretReveal sec \<and> (\<exists>me. get_my_id (participants s) = Inr me \<and> leader s = Some me) \<and>
        (\<forall>k \<in> members (participants s). k = pid \<or> hm_get (adaptor_secrets s) k \<noteq> None)))"
proof (rule ccontr)
  assume "\<not> ?thesis"
  from emits_new [OF no_submission_message [OF this] assms(1)] show False
    using assms(2,3) by (auto simp: list_all_iff)
qed

text \<open>The honest run submits its lock with the last partial signature.\<close>

theorem submission_gate_witness:
  "\<exists>s1. s1 = (swap_session 10)\<lparr>partial_sigs := hm_insert2 2 (Spend 2) ''06'' (partial_sigs (swap_session 10))\<rparr> \<and>
     all_partial_sigs_received_for s1 (Refund 1) \<and> all_partial_sigs_received_for s1 (Refund 2)"
proof -
  let ?s = "swap_session 10"
  let ?x = "handle_session_message swap_env sample_config sample_keys ?s (PartialSignature (Spend 2) ''06'') 2 []"
  have "list_ex submits (new_effects [] (snd ?x)) \<and> participants ?s = ring2"
    by code_simp
  then obtain e where e: "e \<in> set (new_effects [] (snd ?x))" "submits e" and p: "participants ?s = ring2"
    by (auto simp: list_ex_iff)
  show ?thesis
    using submission_gate [of swap_env sample_config sample_keys ?s "PartialSignature (Spend 2) ''06''" 2 "[]"
        "fst ?x" "snd ?x" e] e p
    by (simp add: ring2_def bt_keys_def)
qed

end
