(* ===== verification/Protocol_Props.thy ===== *)
theory Protocol_Props
  imports Peer_Props
begin

text \<open>
  Properties of the steps of the protocol: the election of the leader, the validation of the
  funding outputs, the funding step and the leader's claim, with what a peer can provoke in each.
\<close>

section \<open>The election\<close>

text \<open>
  The participants agree on the leader. With a hash of 32 bytes and at least one participant
  the election never panics and picks a participant, and two daemons with the same participant ids
  and the same nonces, in whatever order they received them, pick the same one.
\<close>

theorem election_agreement:
  assumes "\<And>b. length (sha256 E b) = 32" and "participants s \<noteq> []"
    and "bt_ok (leader_nonces s)" and "bt_ok (leader_nonces s')"
    and "\<And>k. bt_get (leader_nonces s) k = bt_get (leader_nonces s') k"
    and "bt_keys (participants s) = bt_keys (participants s')"
  shows "\<exists>l \<in> members (participants s). compute_leader E s = Inr (s\<lparr>leader := Some l\<rparr>) \<and>
    compute_leader E s' = Inr (s'\<lparr>leader := Some l\<rparr>)"
proof -
  obtain l where l: "l \<in> members (participants s)" "compute_leader E s = Inr (s\<lparr>leader := Some l\<rparr>)"
    using compute_leader_picks [OF assms(1,2)] by blast
  have "map_sum id leader (compute_leader E s) = map_sum id leader (compute_leader E s')"
    by (rule compute_leader_agreement) (use assms in \<open>auto simp: fun_eq_iff\<close>)
  then obtain x where x: "compute_leader E s' = Inr x" "leader x = Some l"
    using l(2) by (cases "compute_leader E s'") auto
  then have "x = s'\<lparr>leader := Some l\<rparr>" using compute_leader_fields [OF x(1)] by auto
  then show ?thesis using l x by blast
qed

definition nonces_by :: "(participant_id \<times> bytes) list \<Rightarrow> session" where
  "nonces_by kns = new_session\<lparr>leader_nonces := fold (\<lambda>(k, n). bt_insert k n) kns []\<rparr>"

theorem election_agreement_witness:
  "\<exists>l \<in> {1, 2}. compute_leader swap_env (nonces_by [(1, [3]), (2, [9])]) =
       Inr ((nonces_by [(1, [3]), (2, [9])])\<lparr>leader := Some l\<rparr>) \<and>
     compute_leader swap_env (nonces_by [(2, [9]), (1, [3])]) =
       Inr ((nonces_by [(2, [9]), (1, [3])])\<lparr>leader := Some l\<rparr>)"
proof -
  have p: "participants (nonces_by kns) = ring2" for kns
    by (simp add: nonces_by_def new_session_def session_literal_def)
  have n: "leader_nonces (nonces_by [(1, [3]), (2, [9])]) = [(1, [3]), (2, [9])]"
    "leader_nonces (nonces_by [(2, [9]), (1, [3])]) = [(1, [3]), (2, [9])]"
    by (simp_all add: nonces_by_def)
  have "length (sha256 swap_env b) = 32" for b
    by (simp add: swap_env_def sample_env_def)
  then show ?thesis
    using election_agreement [of swap_env "nonces_by [(1, [3]), (2, [9])]" "nonces_by [(2, [9]), (1, [3])]"]
    by (simp add: p n ring2_def bt_keys_def bt_ok_def)
qed

text \<open>
  C38: a message can end the daemon. A message for a session the daemon does not have, and a
  leader-election nonce in a session that is not over whose hash is not the stored commitment of
  the sender the envelope names, or for which there is no commitment, panic inside the event loop,
  before anything is sent; the sender is not authenticated.
\<close>

theorem peer_message_panics:
  assumes "case hm_get (sessions d) (env_session_id v) of
      None \<Rightarrow> True
    | Some s \<Rightarrow> \<not> terminal (state s) \<and> (\<exists>n. env_msg v = LeaderElectionNonce n \<and>
        bt_get (leader_commitments s) (env_participant_id v) \<noteq> Some (sha256 E n))"
  shows "\<exists>p. handle_event E (PeerMessage v a) d t = (Inl p, t)"
proof (cases "hm_get (sessions d) (env_session_id v)")
  case None
  then show ?thesis by (simp add: handle_event_def on_peer_message_def Let_def lift_def)
next
  case (Some s)
  then obtain n where n: "env_msg v = LeaderElectionNonce n" "\<not> terminal (state s)"
    "bt_get (leader_commitments s) (env_participant_id v) \<noteq> Some (sha256 E n)"
    using assms by auto
  then obtain p where "received_leader_nonce E s n (env_participant_id v) = Inl p"
    using received_leader_nonce_Inr [of E s n "env_participant_id v"]
    by (cases "received_leader_nonce E s n (env_participant_id v)") auto
  then show ?thesis
    using Some n by (simp add: handle_event_def on_peer_message_def Let_def handle_session_message_def
        on_leader_nonce_def bind_def lift_def)
qed

theorem peer_message_panics_witness:
  "\<exists>p. handle_event swap_env (from_peer (LeaderElectionNonce [1])) swap_created [] = (Inl p, [])"
proof -
  have "hm_get (sessions swap_created) 7 = Some new_session" "state new_session = Initialized"
    "leader_commitments new_session = []"
    by (simp_all add: swap_created_def insert_session_def new_session_def session_literal_def)
  then show ?thesis
    using peer_message_panics [where E = swap_env and d = swap_created and t = "[]" and a = "''peer2''"
        and v = "envelope_new 7 2 (LeaderElectionNonce [1])"]
    by (simp add: from_peer_def)
qed

text \<open>
  C34: a late commitment reopens the election. In any session that is not over and not already in
  \<open>AwaitingLeaderElectionNonces\<close>, in which the own nonce and commitment and the commitments of the
  other participants are present, a further commitment of any sender is accepted: it replaces the
  stored commitment, and the session goes back to \<open>AwaitingLeaderElectionNonces\<close>, however far the
  swap had come.
\<close>

theorem late_commitment_reopens_election:
  assumes "\<not> terminal (state s)" and "state s \<noteq> AwaitingLeaderElectionNonces"
    and "get_my_id (participants s) = Inr me"
    and "bt_get (leader_nonces s) me = Some nonce" and "bt_get (leader_commitments s) me \<noteq> None"
    and "\<And>k. k \<in> members (participants s) \<Longrightarrow> k = pid \<or> bt_get (leader_commitments s) k \<noteq> None"
  shows "\<exists>s' t'. handle_session_message E cfg keys s (LeaderElectionCommitment c) pid t = (Inr s', t') \<and>
    state s' = AwaitingLeaderElectionNonces \<and> bt_get (leader_commitments s') pid = Some c \<and>
    state_history s' = state_history s @ [AwaitingLeaderElectionNonces]"
proof -
  let ?s2 = "received_leader_commitment s c pid"
  have f: "participants ?s2 = participants s" "state ?s2 = state s" "leader_nonces ?s2 = leader_nonces s"
    "state_history ?s2 = state_history s" "bt_get (leader_commitments ?s2) pid = Some c"
    by (simp_all add: received_leader_commitment_def)
  have own: "bt_contains (leader_commitments s) me" using assms(5) by (simp add: bt_contains_def)
  have all: "all_leader_commitments_received ?s2"
    using assms(6) by (auto simp: all_leader_commitments_iff received_leader_commitment_def)
  obtain pool t' where "announce E ?s2 me (LeaderElectionNonce nonce) t = (Inr (?s2\<lparr>connection_pool := pool\<rparr>), t')"
    using announce_returns by blast
  then have run: "handle_session_message E cfg keys s (LeaderElectionCommitment c) pid t =
      (Inr (transition_to AwaitingLeaderElectionNonces (?s2\<lparr>connection_pool := pool\<rparr>)), t')"
    using assms(1-4) own all f
    by (simp add: handle_session_message_def on_leader_commitment_def Let_def bind_def lift_def ret_def
        broadcast_leader_nonce_def)
  show ?thesis
    by (intro exI conjI, rule run) (simp_all add: f)
qed

text \<open>In the honest run, after the daemon has funded its lock.\<close>

theorem late_commitment_reopens_election_witness:
  "state (swap_session 11) = AwaitingLockConfirmations \<and>
   (\<exists>s' t'. handle_session_message swap_env sample_config sample_keys (swap_session 11)
       (LeaderElectionCommitment [0]) 2 [] = (Inr s', t') \<and> state s' = AwaitingLeaderElectionNonces)"
proof -
  have "state (swap_session 11) = AwaitingLockConfirmations \<and> participants (swap_session 11) = ring2 \<and>
      leader_nonces (swap_session 11) = [(1, replicate 32 3), (2, [9])] \<and>
      map fst (leader_commitments (swap_session 11)) = [1, 2]"
    by code_simp
  then have f: "state (swap_session 11) = AwaitingLockConfirmations" "participants (swap_session 11) = ring2"
    "leader_nonces (swap_session 11) = [(1, replicate 32 3), (2, [9])]"
    "map fst (leader_commitments (swap_session 11)) = [1, 2]" by blast+
  have me: "get_my_id ring2 = Inr 1" by code_simp
  have "bt_get (leader_commitments (swap_session 11)) k \<noteq> None" if "k \<in> {1, 2}" for k
    using f(4) that by (metis bt_get_def list.set(1,2) map_of_eq_None_iff list.set_map)
  then show ?thesis
    using late_commitment_reopens_election [of "swap_session 11" 1 "replicate 32 3" 2 swap_env sample_config sample_keys "[0]" "[]"]
      f me by (auto simp: bt_get_def ring2_def bt_keys_def)
qed

section \<open>Funding\<close>



lemma wp_finalize_adaptor_sigs:
  "wp (finalize_role E s keys role cfg) (\<lambda>_ _. True)
     (\<lambda>s' _. \<forall>r. hm_get (adaptor_sigs s) r \<noteq> None \<longrightarrow> hm_get (adaptor_sigs s') r \<noteq> None) t"
proof -
  have "wp (bind m (\<lambda>h. ret (s\<lparr>signed_txs := f h\<rparr>))) (\<lambda>_ _. True)
     (\<lambda>s' _. \<forall>r. hm_get (adaptor_sigs s) r \<noteq> None \<longrightarrow> hm_get (adaptor_sigs s') r \<noteq> None) u" for m f u
    unfolding wp_bind by (rule wp_mono [OF wp_True]) (simp_all add: wp_ret)
  then show ?thesis
    unfolding finalize_role_def
    by (auto intro!: wp_lift_any simp: wp_ret split: option.splits musig_runtime.splits crypto_result.splits)
qed

lemma wp_finalize_history:
  "wp (finalize_role E s keys role cfg) (\<lambda>_ _. True) (\<lambda>s' _. state_history s' = state_history s) t"
proof -
  have "wp (bind m (\<lambda>h. ret (s\<lparr>signed_txs := f h\<rparr>))) (\<lambda>_ _. True)
     (\<lambda>s' _. state_history s' = state_history s) u" for m f u
    unfolding wp_bind by (rule wp_mono [OF wp_True]) (simp_all add: wp_ret)
  then show ?thesis
    unfolding finalize_role_def
    by (auto intro!: wp_lift_any simp: wp_ret split: option.splits musig_runtime.splits crypto_result.splits)
qed

lemma wp_lock_history:
  "wp (broadcast_my_lock_tx E s keys cfg) (\<lambda>_ _. True) (\<lambda>x _. state_history (snd x) = state_history s) t"
proof -
  have ann: "wp (announce E s1 me m) (\<lambda>_ _. True) (\<lambda>s' _. state_history s' = state_history s1) u"
    for s1 me m u by (rule wp_mono [OF wp_announce]) auto
  have "wp (bind m (\<lambda>ok. if \<not> ok then ret (False, s)
      else bind (announce E (s\<lparr>lock_txs_broadcast := b\<rparr>) me msg) (\<lambda>s'. ret (True, s')))) (\<lambda>_ _. True)
      (\<lambda>x _. state_history (snd x) = state_history s) u" for m b me msg u
    unfolding wp_bind [of m]
    by (rule wp_mono [OF wp_True], simp, intro wp_cases)
      (auto simp: wp_ret wp_bind intro: wp_mono [OF ann])
  then show ?thesis
    unfolding broadcast_my_lock_tx_def by (intro wp_lift_any) simp
qed

lemma wp_fund:
  "wp (fund E cfg keys s) (\<lambda>_ _. True) (\<lambda>s' _. \<exists>st \<in> {AwaitingLockConfirmations, Failed}.
     state_history s' = state_history s @ [Funding, st] \<and> state s' = st) t"
  unfolding fund_def Let_def wp_bind
  by (rule wp_mono [OF wp_lock_history]) (auto simp: wp_ret split: prod.splits)



section \<open>The leader's claim\<close>

text \<open>
  The leader completes whether or not it has claimed. When the last secret reaches the leader
  and handling it returns, the session has gone through \<open>Claiming\<close> to \<open>Completed\<close>; without an
  adaptor signature and without a signed spend of its own it does so without submitting anything,
  and it never panics then.
\<close>

theorem leader_completes_without_claim:
  assumes "\<not> terminal (state s)" and "leader s = Some me" and "get_my_id (participants s) = Inr me"
    and "\<And>k. k \<in> members (participants s) \<Longrightarrow> k = pid \<or> hm_get (adaptor_secrets s) k \<noteq> None"
    and "hm_get (adaptor_sigs s) (Spend me) = None" and "hm_get (signed_txs s) (Spend me) = None"
  shows "\<exists>s' t'. handle_session_message E cfg keys s (SecretReveal sec) pid t = (Inr s', t') \<and>
    state s' = Completed \<and> state_history s' = state_history s @ [Claiming, Completed] \<and>
    list_all (\<lambda>e. \<not> submits e) (new_effects t t')"
proof -
  let ?s1 = "s\<lparr>adaptor_secrets := hm_insert pid sec (adaptor_secrets s)\<rparr>"
  have all: "all_adaptor_secrets_received ?s1" using assms(4) by (auto simp: all_adaptor_secrets_iff)
  obtain pool t' where ann: "announce E (transition_to Claiming ?s1) me SpendTxBroadcast t =
      (Inr ((transition_to Claiming ?s1)\<lparr>connection_pool := pool\<rparr>), t')"
    using announce_returns by blast
  have "handle_session_message E cfg keys s (SecretReveal sec) pid t =
      (Inr (transition_to Completed ((transition_to Claiming ?s1)\<lparr>connection_pool := pool\<rparr>)), t')"
    using assms all ann
    by (simp add: handle_session_message_def on_secret_reveal_def Let_def leader_claims_def
        broadcast_my_spend_tx_def bind_def lift_def ret_def hm_contains_def)
  moreover have "list_all (\<lambda>e. \<not> submits e) (new_effects t t')"
    by (rule emits_new [OF no_submission_announce ann])
  ultimately show ?thesis by simp
qed

definition leader_session :: session where
  "leader_session = new_session\<lparr>leader := Some 1, state := AwaitingSecrets\<rparr>"

theorem leader_completes_without_claim_witness:
  "\<exists>s' t'. handle_session_message swap_env sample_config sample_keys leader_session (SecretReveal ''02'') 2 [] =
       (Inr s', t') \<and> state s' = Completed \<and> list_all (\<lambda>e. \<not> submits e) (new_effects [] t')"
proof -
  have me: "get_my_id (participants leader_session) = Inr 1" by code_simp
  have x: "\<not> terminal (state leader_session)" "leader leader_session = Some 1"
    "adaptor_sigs leader_session = []" "signed_txs leader_session = []"
    by (simp_all add: leader_session_def new_session_def session_literal_def)
  have k: "k = 2 \<or> hm_get (adaptor_secrets leader_session) k \<noteq> None"
    if "k \<in> members (participants leader_session)" for k
    using that by (auto simp: leader_session_def new_session_def session_literal_def ring2_def bt_keys_def hm_get_def)
  from leader_completes_without_claim [OF x(1,2) me k, of swap_env sample_config sample_keys "''02''" "[]"]
  show ?thesis by (simp add: x) blast
qed

end
