(* ===== verification/Dashboard.thy ===== *)
theory Dashboard
  imports Swap_Daemon
begin

text \<open>
  \<open>src/swap-daemon/src/dashboard.rs\<close>: the state that the HTTP endpoint \<open>/api/state\<close> reports of a
  list of daemons. The session shown of a daemon is the first in the iteration order of its map, a
  parameter. The server answers that one path through the middleware that adds the CORS header.
\<close>

section \<open>Debug formats\<close>

fun debug_state :: "swap_state \<Rightarrow> string" where
  "debug_state Initialized = ''Initialized''"
| "debug_state AwaitingAdaptorPoints = ''AwaitingAdaptorPoints''"
| "debug_state AwaitingLeaderElectionCommitments = ''AwaitingLeaderElectionCommitments''"
| "debug_state AwaitingLeaderElectionNonces = ''AwaitingLeaderElectionNonces''"
| "debug_state RefundAndSpendTxsSigning = ''RefundAndSpendTxsSigning''"
| "debug_state Funding = ''Funding''"
| "debug_state AwaitingLockConfirmations = ''AwaitingLockConfirmations''"
| "debug_state AwaitingSecrets = ''AwaitingSecrets''"
| "debug_state AwaitingLeaderSpend = ''AwaitingLeaderSpend''"
| "debug_state Claiming = ''Claiming''"
| "debug_state Completed = ''Completed''"
| "debug_state Refunded = ''Refunded''"
| "debug_state Failed = ''Failed''"

fun debug_blockchain :: "blockchain \<Rightarrow> string" where
  "debug_blockchain Bitcoin = ''Bitcoin''"
| "debug_blockchain Cardano = ''Cardano''"

section \<open>The reported state\<close>

record participant_info =
  pi_id :: u8
  pi_blockchain :: string
  pi_target :: u8

record daemon_view =
  dv_my_id :: u8
  dv_state :: string
  dv_state_history :: "string list"
  dv_leader :: "u8 option"
  dv_confirmed_lock_txs :: "u8 list"
  dv_broadcast_lock_txs :: "u8 list"
  dv_secrets_received :: "u8 list"

record api_view =
  av_session_id :: u64
  av_participants :: "participant_info list"
  av_daemons :: "daemon_view list"

definition participant_infos :: "session \<Rightarrow> participant_info list" where
  "participant_infos s =
     sort_key pi_id (map (\<lambda>p. \<lparr>pi_id = p_id p, pi_blockchain = debug_blockchain (blockchain p),
                             pi_target = target_participant p\<rparr>) (bt_values (participants s)))"

definition view_of_session :: "session \<Rightarrow> daemon_view res" where
  "view_of_session s =
     res_bind (get_my_id (participants s)) (\<lambda>my_id.
     Inr \<lparr>dv_my_id = my_id, dv_state = debug_state (state s),
          dv_state_history = map debug_state (state_history s), dv_leader = leader s,
          dv_confirmed_lock_txs = sorted_list_of_set (confirmed_lock_txs s),
          dv_broadcast_lock_txs = sorted_list_of_set (lock_txs_broadcast s),
          dv_secrets_received = sort (hm_keys (adaptor_secrets s))\<rparr>)"

text \<open>The loop over the daemons: the id of the last session seen, the participants of the first, and
  the views so far.\<close>

fun api_loop ::
  "((session_id, session) hmap \<Rightarrow> (session_id \<times> session) option) \<Rightarrow> daemon list \<Rightarrow>
   u64 \<times> participant_info list option \<times> daemon_view list \<Rightarrow>
   (u64 \<times> participant_info list option \<times> daemon_view list) res" where
  "api_loop first_of [] acc = Inr acc"
| "api_loop first_of (d # ds) (sid, infos, views) =
     (case first_of (sessions d) of
        None \<Rightarrow> api_loop first_of ds (sid, infos, views)
      | Some (sid', s) \<Rightarrow>
          res_bind (view_of_session s) (\<lambda>v.
          api_loop first_of ds
            (sid', (case infos of None \<Rightarrow> Some (participant_infos s) | Some i \<Rightarrow> Some i),
             views @ [v])))"

definition api_state ::
  "((session_id, session) hmap \<Rightarrow> (session_id \<times> session) option) \<Rightarrow> daemon list \<Rightarrow> api_view res" where
  "api_state first_of daemons =
     res_bind (api_loop first_of daemons (0, None, [])) (\<lambda>(sid, infos, views).
     Inr \<lparr>av_session_id = sid,
          av_participants = (case infos of None \<Rightarrow> [] | Some i \<Rightarrow> i),
          av_daemons = sort_key dv_my_id views\<rparr>)"

section \<open>The server\<close>

text \<open>A response with its headers by lower-case name; the body is what the handler reports. A panic of the
  handler ends the request without a response.\<close>

record web_response =
  web_headers :: "(string \<times> string) list"
  web_body :: api_view

text \<open>Inserting a header replaces every value it had.\<close>

definition cors :: "web_response \<Rightarrow> web_response" where
  "cors res = res\<lparr>web_headers := (''access-control-allow-origin'', ''*'') #
     filter (\<lambda>(k, _). k \<noteq> ''access-control-allow-origin'') (web_headers res)\<rparr>"

text \<open>Without a listener the dashboard is skipped; else this is what answers \<open>GET /api/state\<close>, over the daemons as
  they are at that time.\<close>

definition serve ::
  "bool \<Rightarrow> ((session_id, session) hmap \<Rightarrow> (session_id \<times> session) option) \<Rightarrow>
   (daemon list \<Rightarrow> web_response res) option" where
  "serve bound first_of =
     (if \<not> bound then None
      else Some (\<lambda>daemons. res_bind (api_state first_of daemons) (\<lambda>view.
        Inr (cors \<lparr>web_headers = [(''content-type'', ''application/json'')], web_body = view\<rparr>))))"

section \<open>What the dashboard can show\<close>

text \<open>Two sessions look alike when they agree on everything the dashboard is meant to report; the
  values of the secrets, the nonces, the signatures and the transactions are free.\<close>

definition looks_alike :: "session \<Rightarrow> session \<Rightarrow> bool" where
  "looks_alike s s' \<longleftrightarrow>
     participants s = participants s' \<and> state s = state s' \<and> state_history s = state_history s' \<and>
     leader s = leader s' \<and> confirmed_lock_txs s = confirmed_lock_txs s' \<and>
     lock_txs_broadcast s = lock_txs_broadcast s' \<and>
     hm_keys (adaptor_secrets s) = hm_keys (adaptor_secrets s')"

lemma view_alike: "looks_alike s s' \<Longrightarrow> view_of_session s = view_of_session s'"
  by (simp add: looks_alike_def view_of_session_def)

lemma infos_alike: "looks_alike s s' \<Longrightarrow> participant_infos s = participant_infos s'"
  by (simp add: looks_alike_def participant_infos_def)

definition same_view ::
  "((session_id, session) hmap \<Rightarrow> (session_id \<times> session) option) \<Rightarrow> daemon \<Rightarrow> daemon \<Rightarrow> bool" where
  "same_view first_of d d' \<longleftrightarrow>
     rel_option (rel_prod (=) looks_alike) (first_of (sessions d)) (first_of (sessions d'))"

lemma api_loop_alike:
  "list_all2 (same_view first_of) ds ds' \<Longrightarrow> api_loop first_of ds acc = api_loop first_of ds' acc"
proof (induction arbitrary: acc rule: list_all2_induct)
  case Nil
  then show ?case by simp
next
  case (Cons d ds d' ds')
  obtain sid infos views where acc: "acc = (sid, infos, views)" by (cases acc) auto
  show ?case
  proof (cases "first_of (sessions d)")
    case None
    then have "first_of (sessions d') = None" using Cons(1) by (simp add: same_view_def)
    then show ?thesis using None Cons(3) by (simp add: acc)
  next
    case (Some entry)
    moreover obtain i s where "entry = (i, s)" by (cases entry)
    ultimately obtain s' where s: "first_of (sessions d) = Some (i, s)"
      "first_of (sessions d') = Some (i, s')" "looks_alike s s'"
      using Cons(1) by (cases "first_of (sessions d')") (auto simp: same_view_def rel_prod_sel)
    show ?thesis
      using s(1,2) Cons(3) view_alike [OF s(3)] infos_alike [OF s(3)] by (cases infos) (simp_all add: acc)
  qed
qed

end
