(* ===== verification/Tx_Props.thy ===== *)
theory Tx_Props
  imports Sample_Run Dashboard
begin

text \<open>
  Properties of the transactions and of the cryptographic and network primitives around them: the
  extraction of the leader's secret, what the transactions pay and when they become valid, what the
  collateral witness changes, how messages are sent and read, and what the dashboard shows.
\<close>

section \<open>The leader's secret\<close>

text \<open>
  C3: the leader's claim gives everybody the aggregate secret. In a group as the crates document
  it, when the lock of the leader's target was consumed with a signature adapted from the adaptor
  signature the session holds, by the secret \<open>x\<close>, with either parity of the final nonce, then the
  extraction goes on with exactly \<open>x\<close>: it stores \<open>x\<close> and adapts the daemon's own spend with it.
\<close>

theorem extraction_recovers_secret:
  assumes "cyclic_group (musig E) q SC PT sc pt" and "adapts_to (musig E) q sc pt SC PT asig x full"
    and "hm_get (unsigned_txs s) (Spend l) = Some utx"
    and "leader_signature E s l utx cfg t = (Inr (Some sig_bytes), t1)"
    and "lifted_from_bytes (musig E) sig_bytes = Some full"
    and "hm_get (adaptor_sigs s) (Spend l) = Some h" and "hex_decode E h = Some b"
    and "adaptor_from_bytes (musig E) b = Some asig"
  shows "extract_secret_and_adapt E s l cfg t =
    bind (adapt_with_secret E s l x cfg) (\<lambda>s'. ret (True, s')) t1"
  using assms(3-8) extract_adapted [OF assms(1,2)]
  by (simp add: extract_secret_and_adapt_def Let_def bind_def lift_def)

text \<open>The lock of participant 1 is spent on chain with the signature (5, 6), adapted from (2, 3) by
  the secret 3.\<close>

definition extract_session :: session where
  "extract_session = new_session\<lparr>leader := Some 2, unsigned_txs := [(Spend 2, ''b1'')],
     adaptor_sigs := [(Spend 2, ''0203'')]\<rparr>"

lemma sample_adapts:
  "adapts_to sample_musig 7 (int \<circ> scalar_log) (int \<circ> point_log) sample_scalars sample_points
     (AdaptorSig [2, 3]) (Scalar 3) (LiftedSig [5, 6])"
  unfolding adapts_to_def
  by (rule exI [of _ "Some (Point 2)"], rule exI [of _ "Scalar 3"], rule exI [of _ "Some (Point 5)"],
      rule exI [of _ "Scalar 6"])
    (simp add: sample_musig_def first_byte_def second_byte_def to_point_def to_scalar_def
      sample_scalars_def sample_points_def)

theorem extraction_recovers_secret_witness:
  "\<exists>t1. extract_secret_and_adapt (sample_env (answering JNull ''b2'')) extract_session 2 sample_config [] =
     bind (adapt_with_secret (sample_env (answering JNull ''b2'')) extract_session 2 (Scalar 3) sample_config)
       (\<lambda>s'. ret (True, s')) t1"
proof -
  let ?E = "sample_env (answering JNull ''b2'')"
  have "fst (leader_signature ?E extract_session 2 ''b1'' sample_config []) = Inr (Some [5, 6]) \<and>
      sample_hex_decode ''0203'' = Some [2, 3]"
    by code_simp
  then have sg: "leader_signature ?E extract_session 2 ''b1'' sample_config [] =
      (Inr (Some [5, 6]), snd (leader_signature ?E extract_session 2 ''b1'' sample_config []))"
    and hex: "hex_decode ?E ''0203'' = Some [2, 3]"
    by (metis prod.collapse, simp add: sample_env_def)
  have m: "musig ?E = sample_musig" by (simp add: sample_env_def)
  have x: "hm_get (unsigned_txs extract_session) (Spend 2) = Some ''b1''"
    "hm_get (adaptor_sigs extract_session) (Spend 2) = Some ''0203''"
    by (simp_all add: extract_session_def hm_get_def)
  have lib: "lifted_from_bytes (musig ?E) [5, 6] = Some (LiftedSig [5, 6])"
    "adaptor_from_bytes (musig ?E) [2, 3] = Some (AdaptorSig [2, 3])"
    by (simp_all add: m sample_musig_def)
  have G: "cyclic_group (musig ?E) 7 sample_scalars sample_points (int \<circ> scalar_log) (int \<circ> point_log)"
    and A: "adapts_to (musig ?E) 7 (int \<circ> scalar_log) (int \<circ> point_log) sample_scalars sample_points
     (AdaptorSig [2, 3]) (Scalar 3) (LiftedSig [5, 6])"
    unfolding m by (rule sample_group, rule sample_adapts)
  from extraction_recovers_secret [OF G A x(1) sg lib(1) x(2) hex lib(2)] show ?thesis by blast
qed



section \<open>Bitcoin transactions\<close>

text \<open>
  C24: the unsigned refund of a Bitcoin lock spends the first output of the participant's own lock
  transaction, has exactly the participant's refund locktime, pays the locked amount less the fee
  in a single output, and the message to sign is its taproot sighash over the spent output. The
  conversion of heights is the documented one of the crate: a height that is accepted is kept.
\<close>

theorem bitcoin_refund_transaction:
  assumes "refund_unsigned_btc E s pid p = Inr (h, m)" and "bitcoin_fee s \<le> amount_locking p"
    and "\<And>x l. lock_time_from_height (btc E) x = Some l \<Longrightarrow> l = x"
  shows "\<exists>lt lock_hex lock tx. refund_locktime_btc (overflow_checks E) s pid = Inr lt \<and>
    hm_get (lock_txs s) pid = Some lock_hex \<and> btc_deserialize_hex (btc E) lock_hex = Some lock \<and>
    h = btc_serialize_hex (btc E) tx \<and> lock_time tx = lt \<and>
    map previous_output (tx_input tx) = [\<lparr>op_txid = compute_txid (btc E) lock, op_vout = 0\<rparr>] \<and>
    map (unat \<circ> out_value) (tx_output tx) = [unat (amount_locking p) - unat (bitcoin_fee s)] \<and>
    taproot_sighash (btc E) tx 0 [hd (tx_output lock)] = Some m"
  by (rule refund_unsigned_btc_fields [OF assms])

definition locked_session :: session where
  "locked_session = new_session\<lparr>leader := Some 2, lock_txs := [(1, ''b1''), (2, ''b1'')]\<rparr>"

theorem bitcoin_refund_transaction_witness:
  "\<exists>h m tx. refund_unsigned_btc swap_env locked_session 1 (swap_member 1 2 True) = Inr (h, m) \<and>
     h = btc_serialize_hex (btc swap_env) tx \<and> lock_time tx = 2008"
proof -
  let ?x = "refund_unsigned_btc swap_env locked_session 1 (swap_member 1 2 True)"
  have "(case ?x of Inr _ \<Rightarrow> True | Inl _ \<Rightarrow> False) \<and> refund_locktime_btc True locked_session 1 = Inr 2008 \<and>
      bitcoin_fee locked_session \<le> amount_locking (swap_member 1 2 True)"
    by code_simp
  then obtain h m where x: "?x = Inr (h, m)" and lt: "refund_locktime_btc True locked_session 1 = Inr 2008"
    and fee: "bitcoin_fee locked_session \<le> amount_locking (swap_member 1 2 True)"
    by (auto split: sum.splits)
  have lib: "l = x" if "lock_time_from_height (btc swap_env) x = Some l" for x l
    using that by (simp add: swap_env_def sample_env_def sample_btc_def split: if_split_asm)
  have ov: "overflow_checks swap_env = True" by (simp add: swap_env_def sample_env_def)
  obtain lt tx where "refund_locktime_btc (overflow_checks swap_env) locked_session 1 = Inr lt"
    "h = btc_serialize_hex (btc swap_env) tx" "lock_time tx = lt"
    using bitcoin_refund_transaction [OF x fee lib] by blast
  then show ?thesis using x lt ov by (intro exI conjI) simp_all
qed

section \<open>Cardano transactions\<close>

text \<open>
  C25: what a Cardano lock holds comes back. With the output builder as documented and overflow
  checks, the lock transaction has one output, at the script's address, and the refund built for the
  same participant with the same fee pays exactly that value less its own fee.
\<close>

theorem cardano_lock_refund_value:
  assumes "builder_keeps (csl E)" and "overflow_checks E"
    and "build_lock_tx E txid i (amount_locking p) pk fee net dl = Inr lock"
    and "build_refund_tx E p txh slot fee c = Inr refund"
  shows "(\<exists>out. cb_outputs (ct_body lock) = [out] \<and> co_address out = script_address E net) \<and>
    cb_inputs (ct_body refund) = [(txh, 0)] \<and> cb_validity_start (ct_body refund) = Some slot \<and>
    map (unat \<circ> co_value) (cb_outputs (ct_body lock)) =
     [sum_list (map (unat \<circ> co_value) (cb_outputs (ct_body refund))) + unat (cb_fee (ct_body refund))]"
proof -
  obtain o1 where "cb_outputs (ct_body lock) = [o1]" "co_address o1 = script_address E net"
    using build_lock_tx_fields [OF assms(1,3)] assms(2) by blast
  moreover obtain o2 where "cb_inputs (ct_body refund) = [(txh, 0)]" "cb_validity_start (ct_body refund) = Some slot"
    using build_refund_tx_fields [OF assms(1,4)] assms(2) by blast
  ultimately show ?thesis using lock_then_refund_value [OF assms] by blast
qed

definition car_member :: participant where
  "car_member = (swap_member 1 2 True)\<lparr>blockchain := Cardano, amount_locking := 5000000\<rparr>"

theorem cardano_lock_refund_value_witness:
  "\<exists>lock refund. build_lock_tx swap_env ''f1'' 0 5000000 (PubKey [1]) 2000000 0 9 = Inr lock \<and>
     build_refund_tx swap_env car_member [4] 700 2000000 None = Inr refund \<and>
     map (unat \<circ> co_value) (cb_outputs (ct_body lock)) =
       [sum_list (map (unat \<circ> co_value) (cb_outputs (ct_body refund))) + 2000000]"
proof -
  have r: "\<exists>lock. build_lock_tx swap_env ''f1'' 0 (amount_locking car_member) (PubKey [1]) 2000000 0 9 = Inr lock"
    "\<exists>refund. build_refund_tx swap_env car_member [4] 700 2000000 None = Inr refund \<and>
       cb_fee (ct_body refund) = 2000000"
    by (simp_all add: build_lock_tx_def build_refund_tx_def swap_env_def sample_env_def sample_csl_def
        build_output_def cardano_address_from_ed25519_def set_collateral_opt_def new_tx_body_def
        sub_chk_def mul_chk_def car_member_def swap_member_def Let_def)
  then obtain lock refund where lr: "build_lock_tx swap_env ''f1'' 0 (amount_locking car_member) (PubKey [1]) 2000000 0 9 = Inr lock"
    "build_refund_tx swap_env car_member [4] 700 2000000 None = Inr refund" "cb_fee (ct_body refund) = 2000000" by blast
  have "builder_keeps (csl swap_env)" "overflow_checks swap_env"
    using sample_csl_keeps by (simp_all add: swap_env_def sample_env_def)
  from cardano_lock_refund_value [OF this lr(1,2)] lr show ?thesis
    by (auto simp: car_member_def)
qed

text \<open>
  C26: attaching the final signature conserves the value. With the output builder as documented and
  overflow checks, the transaction that carries the signature has the inputs, the collateral and the
  validity start of the unsigned one; its single output goes to the address of the first output and
  takes what the new fee leaves of that output and the old fee; the witness has the swap script and
  one redeemer, with the given units and the signature under constructor 1 for a refund and 0 for a
  spend.
\<close>

theorem final_transaction_conserves_value:
  assumes "builder_keeps (csl E)" and "overflow_checks E" and "decode_car_tx E hex = Inr tx"
    and "attach_final_sig_with_units E hex sig mem cpu fee cm r = Inr h"
  shows "\<exists>tx' out o0. h = encode_car_tx E tx' \<and> cb_outputs (ct_body tx') = [out] \<and>
    o0 = hd (cb_outputs (ct_body tx)) \<and> co_address out = co_address o0 \<and>
    unat (co_value out) + unat fee = unat (co_value o0) + unat (cb_fee (ct_body tx)) \<and>
    cb_inputs (ct_body tx') = cb_inputs (ct_body tx) \<and> cb_fee (ct_body tx') = fee \<and>
    cb_collateral (ct_body tx') = cb_collateral (ct_body tx) \<and>
    cb_validity_start (ct_body tx') = cb_validity_start (ct_body tx) \<and>
    ct_witness tx' = \<lparr>cw_vkeys = None, cw_scripts = Some [SWAP_SCRIPT_BYTES],
      cw_redeemers = Some [\<lparr>rd_data = PConstr (if r then 1 else 0) [PBytes sig], rd_mem = mem, rd_cpu = cpu\<rparr>]\<rparr>"
proof -
  let ?rd = "\<lparr>rd_data = redeemer_data sig r, rd_mem = mem, rd_cpu = cpu\<rparr>"
  from assms(3,4) obtain body where body: "final_body E (ct_body tx) ?rd fee cm = Inr body"
    and h: "h = encode_car_tx E \<lparr>ct_body = body, ct_witness = \<lparr>cw_vkeys = None,
        cw_scripts = Some [SWAP_SCRIPT_BYTES], cw_redeemers = Some [?rd]\<rparr>\<rparr>"
    by (auto simp: attach_final_sig_with_units_def Let_def res_bind_Inr)
  then obtain o0 os where o0: "cb_outputs (ct_body tx) = o0 # os"
    by (cases "cb_outputs (ct_body tx)") (auto simp: final_body_def Let_def index_list_def)
  show ?thesis
    by (rule final_body_Inr [OF assms(1) body o0]) (use assms(2) h o0 in \<open>auto simp: redeemer_data_def\<close>)
qed

lemma sample_decode: "decode_car_tx swap_env ''01'' = Inr (sample_car_tx 900000000)"
  "decode_car_tx swap_env ''02'' = Inr (sample_car_tx 50000000)"
proof -
  have "sample_hex_decode ''01'' = Some [1]" "sample_hex_decode ''02'' = Some [2]" by code_simp+
  then show "decode_car_tx swap_env ''01'' = Inr (sample_car_tx 900000000)"
    "decode_car_tx swap_env ''02'' = Inr (sample_car_tx 50000000)"
    by (simp_all add: decode_car_tx_def swap_env_def sample_env_def sample_csl_def)
qed

theorem final_transaction_conserves_value_witness:
  "\<exists>h tx' out. attach_final_sig_with_units swap_env ''01'' [9] 5 6 300000 (PlutusV3Costs []) True = Inr h \<and>
     h = encode_car_tx swap_env tx' \<and> cb_outputs (ct_body tx') = [out] \<and> unat (co_value out) = 901700000"
proof -
  have lib: "builder_keeps (csl swap_env)" "overflow_checks swap_env"
    using sample_csl_keeps by (simp_all add: swap_env_def sample_env_def)
  have "\<exists>h. attach_final_sig_with_units swap_env ''01'' [9] 5 6 300000 (PlutusV3Costs []) True = Inr h"
    using lib by (simp add: attach_final_sig_with_units_def sample_decode sample_car_tx_def final_body_def
        index_list_def Let_def add_chk_def sub_chk_def build_output_def)
      (simp add: swap_env_def sample_env_def sample_csl_def)
  then obtain h where h: "attach_final_sig_with_units swap_env ''01'' [9] 5 6 300000 (PlutusV3Costs []) True = Inr h" by blast
  from final_transaction_conserves_value [OF lib sample_decode(1) h] h show ?thesis
    by (auto simp: sample_car_tx_def)
qed

text \<open>
  C39: a Cardano lock of less than about 616 ADA is never signed in a build with overflow checks.
  The draft with which the script is evaluated is given a fee of 616,155,381 lovelace; when the
  unsigned transaction's first output and fee together are below that, computing the draft's output
  underflows, and the attachment of the final signature panics after fetching the protocol
  parameters, for refunds and for spends.
\<close>

theorem small_cardano_locks_cannot_be_signed:
  assumes "overflow_checks E" and "decode_car_tx E hex = Inr tx"
    and "cb_inputs (ct_body tx) = i # is" and "cb_outputs (ct_body tx) = o0 # os"
    and "unat (co_value o0) + unat (cb_fee (ct_body tx)) < 616155381"
  shows "\<exists>t'. attach_final_sig E hex sig cfg fee0 r t = (Inl ArithOverflow, t')"
  by (rule attach_final_sig_underflow [OF assms])

theorem small_cardano_locks_cannot_be_signed_witness:
  "\<exists>t'. attach_final_sig swap_env ''02'' [9] sample_config 2000000 True [] = (Inl ArithOverflow, t')"
proof -
  have "overflow_checks swap_env" by (simp add: swap_env_def sample_env_def)
  from small_cardano_locks_cannot_be_signed [OF this sample_decode(2)] show ?thesis
    by (simp add: sample_car_tx_def)
qed

text \<open>
  The collateral's witness is added to a signed transaction without touching anything else: the
  body, the script and the redeemer are kept, the new key witness is appended to the existing ones,
  and its signature is over the hash of the same body.
\<close>

theorem collateral_witness_only_appends:
  assumes "add_collateral_witness E hex sk vk = Inr h" and "decode_car_tx E hex = Inr tx"
  shows "\<exists>key sig. h = encode_car_tx E (tx\<lparr>ct_witness := (ct_witness tx)\<lparr>cw_vkeys :=
      Some (unwrap_or [] (cw_vkeys (ct_witness tx)) @ [(key, sig)])\<rparr>\<rparr>) \<and>
    sig = ed25519_sign (csl E) sk (compute_cardano_sighash E tx) \<and> length sk = 32"
proof -
  have "length sk = 32"
    using assms by (auto simp: add_collateral_witness_def res_bind_Inr vkey_witness_def Let_def split: if_splits)
  then show ?thesis using add_collateral_witness_Inr [OF assms] by blast
qed

theorem collateral_witness_only_appends_witness:
  "\<exists>h key sig. add_collateral_witness swap_env ''01'' (replicate 32 1) [2] = Inr h \<and>
     h = encode_car_tx swap_env ((sample_car_tx 900000000)\<lparr>ct_witness :=
       no_witness\<lparr>cw_vkeys := Some [(key, sig)]\<rparr>\<rparr>)"
proof -
  have "\<exists>h. add_collateral_witness swap_env ''01'' (replicate 32 1) [2] = Inr h"
    by (simp add: add_collateral_witness_def sample_decode vkey_witness_def Let_def)
      (simp add: swap_env_def sample_env_def sample_csl_def)
  then obtain h where h: "add_collateral_witness swap_env ''01'' (replicate 32 1) [2] = Inr h" by blast
  from collateral_witness_only_appends [OF h sample_decode(1)] h show ?thesis
    by (auto simp: sample_car_tx_def no_witness_def unwrap_or_def)
qed

end
