(* ===== verification/System_Props.thy ===== *)
theory System_Props
  imports Sample_Run Dashboard
begin

text \<open>
  Properties of the parts around the protocol: the network, the lock transactions every daemon
  builds, the chain monitor's failure cases, the isolation of the sessions of one daemon, and the
  dashboard.
\<close>

section \<open>Network\<close>


text \<open>An environment whose serialization is the text that its parser reads.\<close>

definition line_env :: env where
  "line_env = swap_env\<lparr>serde_to_vec := (\<lambda>v. Some (bytes_of_text ''lock''))\<rparr>"


text \<open>
  A connection is read line by line up to the first that cannot be read or is no envelope. The
  events are exactly the envelopes of the lines before it, in their order, and the connection ends
  without an error exactly when every line is an envelope and the peer has closed it.
\<close>

theorem connection_yields_prefix:
  assumes "handle_connection E sender bs closed = (evs, ok)" and "lines = connection_lines E bs closed"
  shows "\<exists>n \<le> length lines. map (\<lambda>l. Option.bind l (parse_envelope E)) (take n lines) =
      map (\<lambda>e. case e of PeerMessage v _ \<Rightarrow> Some v | _ \<Rightarrow> None) evs \<and>
    (ok \<longleftrightarrow> n = length lines) \<and> (n < length lines \<longrightarrow> Option.bind (lines ! n) (parse_envelope E) = None)"
  using handle_lines_prefix assms unfolding handle_connection_def by blast

theorem connection_yields_prefix_witness:
  "\<exists>n \<le> 3. n < 3 \<and> Option.bind ([Some ''lock'', Some ''?'', Some ''lock''] ! n) (parse_envelope swap_env) = None"
proof -
  let ?bs = "bytes_of_text ''lock'' @ [10] @ bytes_of_text ''?'' @ [13, 10] @ bytes_of_text ''lock''"
  have lines: "connection_lines swap_env ?bs True = [Some ''lock'', Some ''?'', Some ''lock'']"
    by code_simp
  then have "handle_connection swap_env ''p'' ?bs True = ([PeerMessage (envelope_new 7 2 LockTxBroadcast) ''p''], False)"
    by (simp add: handle_connection_def parse_envelope_def swap_env_def sample_env_def)
  from connection_yields_prefix [OF this lines [symmetric]] obtain n where
    "n \<le> length [Some ''lock'', Some ''?'', Some ''lock'']" "n \<noteq> length [Some ''lock'', Some ''?'', Some ''lock'']"
    "n < length [Some ''lock'', Some ''?'', Some ''lock''] \<longrightarrow>
       Option.bind ([Some ''lock'', Some ''?'', Some ''lock''] ! n) (parse_envelope swap_env) = None"
    by blast
  then show ?thesis by (intro exI [of _ n]) simp
qed

section \<open>Lock transactions\<close>

text \<open>
  Every daemon builds the lock transaction of every participant. When the step returns, the
  session holds for each participant the transaction that \<open>lock_tx_hex_for\<close> builds from the session
  as it was before the step: building one lock does not change another, and the order does not
  matter.
\<close>

theorem lock_transactions_for_all:
  assumes "bt_ok (participants s)" and "build_lock_txs E s cfg = Inr s'"
    and "bt_get (participants s) pid = Some p"
  shows "\<exists>addr agg h. aggregate_pubkey E (participants s) = Inr agg \<and>
    lock_tx_hex_for E s cfg addr agg pid p = Inr h \<and> hm_get (lock_txs s') pid = Some h"
  by (rule build_lock_txs_all [OF assms])

theorem lock_transactions_for_all_witness:
  "\<exists>s' h. build_lock_txs swap_env (new_session\<lparr>leader := Some 2\<rparr>) sample_config = Inr s' \<and>
     hm_get (lock_txs s') 2 = Some h"
proof -
  let ?s = "new_session\<lparr>leader := Some 2\<rparr>"
  have "case build_lock_txs swap_env ?s sample_config of Inr _ \<Rightarrow> True | Inl _ \<Rightarrow> False" by code_simp
  then obtain s' where s': "build_lock_txs swap_env ?s sample_config = Inr s'"
    by (auto split: sum.splits)
  have p: "participants ?s = ring2" by (simp add: new_session_def session_literal_def)
  have "bt_ok (participants ?s)" "bt_get (participants ?s) 2 = Some (swap_member 2 1 False)"
    unfolding p by (rule ring2_ok, simp add: ring2_def bt_get_def)
  from lock_transactions_for_all [OF this(1) s' this(2)] s' show ?thesis by blast
qed

section \<open>When the services fail\<close>

text \<open>
  Without an answer from the chain nothing is refunded. When the request for the tip is not
  answered, the refund window does not count as open; the one exception is a Bitcoin participant
  whose locktime is zero, since a missing tip counts as height zero.
\<close>

theorem no_tip_no_refund:
  assumes "\<And>t rq. net_answer E t rq = None"
    and "check_refund_window_open E s pid cfg t = (Inr True, t')"
  shows "\<exists>p. bt_get (participants s) pid = Some p \<and> blockchain p = Bitcoin \<and>
    refund_locktime_btc (overflow_checks E) s pid = Inr 0"
proof -
  have e: "emits (\<lambda>e. \<forall>rq r. e = Http rq r \<longrightarrow> r = None) (check_refund_window_open E s pid cfg)"
  proof -
    have h: "emits (\<lambda>e. \<forall>rq r. e = Http rq r \<longrightarrow> r = None) (http_send E rq)" for rq
      by (simp add: emits_def http_send_def assms(1))
    show ?thesis
      unfolding check_refund_window_open_def fetch_bitcoin_tip_height_def fetch_cardano_tip_slot_def
        fetch_cardano_tip_slot_dolos_def fetch_cardano_tip_slot_blockfrost_def http_get_def http_get_key_def
      by (intro emits_rules h)
  qed
  obtain rq r where r: "t' = Http rq r # t" "window_reached E s pid r"
    using wp_Inr [OF wp_refund_window assms(2)] by blast
  have "r = None" using emits_trace [OF e assms(2)] r(1) by auto
  then show ?thesis using window_closed_on_failure r(2) by blast
qed

theorem no_tip_no_refund_witness:
  "\<exists>p. bt_get ring2 1 = Some p \<and> blockchain p = Bitcoin"
proof -
  let ?s = "new_session\<lparr>leader := Some 2, start_block := 0, refund_window_secs := 0\<rparr>"
  have n: "net_answer (sample_env offline) t rq = None" for t rq
    by (simp add: sample_env_def offline_def)
  have "fst (check_refund_window_open (sample_env offline) ?s 1 sample_config []) = Inr True" by code_simp
  then have "check_refund_window_open (sample_env offline) ?s 1 sample_config [] =
      (Inr True, snd (check_refund_window_open (sample_env offline) ?s 1 sample_config []))"
    by (metis prod.collapse)
  from no_tip_no_refund [OF n this] show ?thesis
    by (auto simp: new_session_def session_literal_def)
qed

text \<open>
  C40: an error of the indexer counts as a spent lock. On Cardano, any answer with an error status
  (a rate limit, a rejected key, a server error) to the request for the unspent outputs of the
  script's address makes the watcher report that the lock was spent.
\<close>

theorem indexer_error_counts_as_spent:
  assumes "address_to_bech32 (csl E) (script_address E CARDANO_TESTNET) = Some addr"
    and "\<And>t rq. \<exists>r. net_answer E t rq = Some r \<and> \<not> rs_success r"
  shows "\<exists>t1 t2. check_cardano_lock_utxo_spent_blockfrost E lock_txid base key t = (Inr True, t1) \<and>
    check_cardano_lock_utxo_spent_dolos E lock_txid rest t = (Inr True, t2)"
proof -
  have "case net_answer E t rq of None \<Rightarrow> False | Some r \<Rightarrow> if \<not> rs_success r then True else P r"
    for t rq P using assms(2) [of t rq] by auto
  then show ?thesis
    by (simp add: check_cardano_lock_utxo_spent_blockfrost_def check_cardano_lock_utxo_spent_dolos_def
        assms(1) bind_def lift_def ret_def http_get_def http_get_key_def http_send_def Let_def)
qed

definition rate_limited :: "http_request \<Rightarrow> http_response option" where
  "rate_limited rq = Some \<lparr>rs_success = False, rs_text = None, rs_json = None\<rparr>"

theorem indexer_error_counts_as_spent_witness:
  "\<exists>t1. check_cardano_lock_utxo_spent_blockfrost (sample_env rate_limited) ''aa'' ''base'' ''key'' [] = (Inr True, t1)"
proof -
  have "address_to_bech32 (csl (sample_env rate_limited)) (script_address (sample_env rate_limited) CARDANO_TESTNET) = Some ''addr''"
    "\<exists>r. net_answer (sample_env rate_limited) t rq = Some r \<and> \<not> rs_success r" for t rq
    by (simp_all add: sample_env_def sample_csl_def rate_limited_def)
  from indexer_error_counts_as_spent [OF this] show ?thesis by blast
qed

section \<open>Isolation\<close>

text \<open>Everything that is not about one session.\<close>

definition others_untouched :: "session_id \<Rightarrow> daemon \<Rightarrow> daemon \<Rightarrow> bool" where
  "others_untouched sid d d' \<longleftrightarrow> swap_keys d' = swap_keys d \<and> config d' = config d \<and>
     (\<forall>i. i \<noteq> sid \<longrightarrow> hm_get (sessions d') i = hm_get (sessions d) i \<and>
        (\<forall>p. hm_contains (active_pollers d') (i, p) \<longleftrightarrow> hm_contains (active_pollers d) (i, p)))"

lemma others_untouched_refl [simp]: "others_untouched sid d d"
  by (simp add: others_untouched_def)

lemma others_untouched_put [simp]: "others_untouched sid d (put_session sid s d') \<longleftrightarrow> others_untouched sid d d'"
  by (auto simp: others_untouched_def)

lemma others_untouched_remove:
  "others_untouched sid d d' \<Longrightarrow>
   others_untouched sid d (d'\<lparr>active_pollers := hm_remove (sid, p) (active_pollers d')\<rparr>)"
  by (auto simp: others_untouched_def hm_contains_def)

lemma wp_cancel_others:
  assumes "others_untouched sid d d1"
  shows "wp (cancel_session_pollers sid d1) (\<lambda>_ _. True) (\<lambda>d' _. others_untouched sid d d') t"
  by (rule wp_mono [OF wp_cancel]) (use assms in \<open>auto simp: others_untouched_def same_sessions_def\<close>)

lemma wp_spawn_others:
  assumes "others_untouched sid d d1"
  shows "wp (maybe_spawn_pollers sid d1) (\<lambda>_ _. True) (\<lambda>d' _. others_untouched sid d d') t"
proof -
  have "wp (io_fold (spawn_poller sid) d1 ts) (\<lambda>_ _. True) (\<lambda>d' _. others_untouched sid d d') t" for ts
    by (rule wp_mono [OF wp_spawn_fold]) (use assms in \<open>auto simp: others_untouched_def same_sessions_def\<close>)
  then show ?thesis
    by (auto simp: maybe_spawn_pollers_def wp_simps assms split: option.split sum.split)
qed

lemma wp_ret_others: "others_untouched sid d d1 \<Longrightarrow> wp (ret d1) (\<lambda>_ _. True) (\<lambda>d' _. others_untouched sid d d') t"
  by (simp add: wp_ret)

lemma wp_any_then: "(\<And>x u. wp (f x) (\<lambda>_ _. True) Q u) \<Longrightarrow> wp (bind m f) (\<lambda>_ _. True) Q t"
  unfolding wp_bind by (rule wp_mono [OF wp_True]) simp_all

lemma wp_prod: "(\<And>a b. x = (a, b) \<Longrightarrow> wp (f a b) R Q t) \<Longrightarrow> wp (case x of (a, b) \<Rightarrow> f a b) R Q t"
  by (cases x) simp

lemmas others_rules = wp_any_then wp_prod wp_cases wp_ret_others wp_cancel_others wp_spawn_others

lemma wp_polls_others:
  "wp (poll_leader_spend E sid l s d) (\<lambda>_ _. True) (\<lambda>d' _. others_untouched sid d d') t"
  "wp (poll_refund_window E sid pid s d) (\<lambda>_ _. True) (\<lambda>d' _. others_untouched sid d d') t"
  unfolding poll_leader_spend_def poll_refund_window_def
  by (intro others_rules; simp)+

lemma wp_poll_lock_others:
  "wp (poll_lock_tx E sid pid s d) (\<lambda>_ _. True) (\<lambda>d' _. others_untouched sid d d') t"
proof -
  have c: "wp (locks_confirmed E sid s1 d1) (\<lambda>_ _. True) (\<lambda>d' _. others_untouched sid d d') u"
    if "others_untouched sid d d1" for s1 d1 u
    unfolding locks_confirmed_def by (intro others_rules) (simp_all add: that)
  have r: "others_untouched sid d ((put_session sid x d)\<lparr>active_pollers := hm_remove (sid, p) (active_pollers d)\<rparr>)"
    for x p
    using others_untouched_remove [of sid d "put_session sid x d" p] by simp
  show ?thesis
    unfolding poll_lock_tx_def Let_def by (intro others_rules c) (simp_all add: r)
qed

lemma wp_message_others:
  "wp (on_peer_message E v d) (\<lambda>_ _. True) (\<lambda>d' _. others_untouched (env_session_id v) d d') t"
proof (cases "hm_get (sessions d) (env_session_id v)")
  case None
  then show ?thesis by (simp add: on_peer_message_def Let_def wp_lift)
next
  case (Some s)
  show ?thesis
    unfolding on_peer_message_def Let_def Some option.case by (intro others_rules) simp_all
qed

text \<open>
  C27: the sessions of a daemon do not touch each other. An event that names one session and
  returns leaves every other session, the pollers of every other session, the keys and the
  configuration exactly as they were.
\<close>

theorem sessions_are_isolated:
  assumes "handle_event E ev d t = (Inr d', t')"
    and "sid = (case ev of PeerMessage v _ \<Rightarrow> env_session_id v | ChainPoll i _ \<Rightarrow> i)" and "i \<noteq> sid"
  shows "hm_get (sessions d') i = hm_get (sessions d) i \<and>
    (\<forall>p. hm_contains (active_pollers d') (i, p) \<longleftrightarrow> hm_contains (active_pollers d) (i, p)) \<and>
    swap_keys d' = swap_keys d \<and> config d' = config d"
proof -
  have "wp (handle_event E ev d) (\<lambda>_ _. True) (\<lambda>d' _. others_untouched sid d d') t"
  proof (cases ev)
    case (PeerMessage v a)
    have s: "sid = env_session_id v" using assms(2) PeerMessage by simp
    then show ?thesis using PeerMessage wp_message_others by (simp add: handle_event_def)
  next
    case (ChainPoll j target)
    then have s: "sid = j" using assms(2) by simp
    have "wp (case hm_get (sessions d) sid of None \<Rightarrow> ret d
           | Some s \<Rightarrow> (case target of
                  LockTx pid \<Rightarrow> poll_lock_tx E sid pid s d
                | LeaderSpendTx leader_id \<Rightarrow> poll_leader_spend E sid leader_id s d
                | RefundWindow pid \<Rightarrow> poll_refund_window E sid pid s d))
        (\<lambda>_ _. True) (\<lambda>d' _. others_untouched sid d d') t"
      by (cases "hm_get (sessions d) sid"; cases target)
        (simp_all add: wp_ret_others wp_polls_others wp_poll_lock_others)
    then have "wp (on_chain_poll E sid target d) (\<lambda>_ _. True) (\<lambda>d' _. others_untouched sid d d') t"
      unfolding on_chain_poll_def wp_bind by (rule wp_mono) (simp_all add: wp_spawn_others)
    then show ?thesis using ChainPoll s by (simp add: handle_event_def)
  qed
  from wp_Inr [OF this assms(1)] show ?thesis using assms(3) by (simp add: others_untouched_def)
qed

theorem sessions_are_isolated_witness:
  "\<exists>d' t'. handle_event swap_env (ChainPoll 7 (LockTx 1)) (put_session 8 new_session (daemon_new sample_keys sample_config)) [] =
       (Inr d', t') \<and> hm_get (sessions d') 8 = Some new_session"
proof -
  let ?d = "put_session 8 new_session (daemon_new sample_keys sample_config)"
  have "handle_event swap_env (ChainPoll 7 (LockTx 1)) ?d [] = (Inr ?d, [])"
    by (simp add: handle_event_def on_chain_poll_def maybe_spawn_pollers_def daemon_new_def bind_def ret_def)
  from sessions_are_isolated [OF this refl, of 8] this show ?thesis by simp
qed

section \<open>The dashboard\<close>

text \<open>
  The dashboard discloses no secret. What the server answers for a list of daemons depends only
  on what it is meant to report: when the daemons' first sessions differ in nothing but the values
  of their secrets, nonces, signatures, transactions and connections, the answer is the same.
\<close>

theorem dashboard_discloses_no_secret:
  assumes "serve bound first_of = Some answer" and "list_all2 (same_view first_of) ds ds'"
  shows "answer ds = answer ds'"
proof -
  have "api_state first_of ds = api_state first_of ds'"
    by (simp add: api_state_def api_loop_alike [OF assms(2)])
  then show ?thesis using assms(1) by (auto simp: serve_def split: if_splits)
qed

definition first_entry :: "(session_id, session) hmap \<Rightarrow> (session_id \<times> session) option" where
  "first_entry m = (case m of [] \<Rightarrow> None | x # _ \<Rightarrow> Some x)"

theorem dashboard_discloses_no_secret_witness:
  "\<exists>answer. serve True first_entry = Some answer \<and> answer [swap_created] =
     answer [insert_session (new_session\<lparr>adaptor_secrets := [(1, ''04'')]\<rparr>) (daemon_new sample_keys sample_config)]"
proof -
  obtain answer where a: "serve True first_entry = Some answer" by (simp add: serve_def)
  have "list_all2 (same_view first_entry) [swap_created]
      [insert_session (new_session\<lparr>adaptor_secrets := [(1, ''04'')]\<rparr>) (daemon_new sample_keys sample_config)]"
    by (simp add: same_view_def first_entry_def swap_created_def insert_session_def daemon_new_def
        hm_insert_def looks_alike_def new_session_def session_literal_def hm_keys_def)
  from dashboard_discloses_no_secret [OF a this] a show ?thesis by auto
qed

end
