(* ===== verification/Session_States.thy ===== *)
theory Session_States
  imports Daemon_Runs
begin

text \<open>
  The abstract state machine of a session, and the proof that the handlers and polls refine it: which
  state can follow which, whatever the peers send and the services answer. Most operations of the
  protocol keep the state; they share one interface, an extension of the interface of all operations.
\<close>

section \<open>The abstract machine\<close>

text \<open>\<open>Funding\<close> and \<open>Claiming\<close> are passed through within one event; every other state is one in
  which a session rests between two events.\<close>

definition resting :: "swap_state \<Rightarrow> bool" where
  "resting st \<longleftrightarrow> st \<noteq> Funding \<and> st \<noteq> Claiming"

fun swap_move :: "swap_state \<Rightarrow> swap_state \<Rightarrow> bool" where
  "swap_move Funding b = (b = AwaitingLockConfirmations \<or> b = Failed)"
| "swap_move Claiming b = (b = Completed)"
| "swap_move a b =
     (b \<notin> {Initialized, AwaitingLockConfirmations, Completed} \<and>
      (b = AwaitingAdaptorPoints \<longrightarrow> a = Initialized) \<and>
      (b = AwaitingLeaderElectionNonces \<longrightarrow> a \<noteq> AwaitingLeaderElectionNonces) \<and>
      (terminal a \<longrightarrow> b \<in> {AwaitingSecrets, AwaitingLeaderSpend, Failed}))"

text \<open>From a session at rest, when no terminal state is left.\<close>

lemma swap_move_resting:
  "resting a \<Longrightarrow> swap_move a b \<longleftrightarrow>
     b \<notin> {Initialized, AwaitingLockConfirmations, Completed} \<and>
      (b = AwaitingAdaptorPoints \<longrightarrow> a = Initialized) \<and>
      (b = AwaitingLeaderElectionNonces \<longrightarrow> a \<noteq> AwaitingLeaderElectionNonces) \<and>
      (terminal a \<longrightarrow> b \<in> {AwaitingSecrets, AwaitingLeaderSpend, Failed})"
  by (cases a) (simp_all add: resting_def)

fun swap_path :: "swap_state \<Rightarrow> swap_state list \<Rightarrow> bool" where
  "swap_path a [] = True"
| "swap_path a (b # h) = (swap_move a b \<and> swap_path b h)"

lemma swap_path_append: "swap_path a (h @ h') \<longleftrightarrow> swap_path a h \<and> swap_path (last (a # h)) h'"
  by (induction h arbitrary: a) simp_all

section \<open>Sessions that move\<close>

definition paced :: "session \<Rightarrow> session \<Rightarrow> bool" where
  "paced s s' \<longleftrightarrow> (\<exists>h. state_history s' = state_history s @ h \<and> state s' = last (state s # h) \<and>
     swap_path (state s) h)"

definition same_history :: "session \<Rightarrow> session \<Rightarrow> bool" where
  "same_history s s' \<longleftrightarrow> state_history s' = state_history s \<and> state s' = state s"

lemma same_history_refl [simp]: "same_history s s"
  by (simp add: same_history_def)

lemma same_history_trans: "same_history s s' \<Longrightarrow> same_history s' s'' \<Longrightarrow> same_history s s''"
  by (simp add: same_history_def)

lemma paced_same: "same_history s s' \<Longrightarrow> paced s s'"
  by (simp add: paced_def same_history_def)

lemma paced_refl [simp]: "paced s s"
  by (simp add: paced_same)

lemma paced_trans: "paced s s' \<Longrightarrow> paced s' s'' \<Longrightarrow> paced s s''"
  unfolding paced_def
proof (elim exE conjE)
  fix h h'
  assume h: "state_history s' = state_history s @ h" "state s' = last (state s # h)" "swap_path (state s) h"
    "state_history s'' = state_history s' @ h'" "state s'' = last (state s' # h')" "swap_path (state s') h'"
  show "\<exists>h. state_history s'' = state_history s @ h \<and> state s'' = last (state s # h) \<and> swap_path (state s) h"
    by (rule exI [of _ "h @ h'"]) (use h in \<open>auto simp: swap_path_append\<close>)
qed

lemma paced_move: "swap_move (state s) st \<Longrightarrow> paced s (transition_to st s)"
  unfolding paced_def by (rule exI [of _ "[st]"]) simp

text \<open>As above, after operations that keep the state.\<close>

lemma paced_then_move:
  "paced s s1 \<Longrightarrow> swap_move (state s1) st \<Longrightarrow> paced s (transition_to st s1)"
  by (rule paced_trans [OF _ paced_move])

section \<open>Operations that keep the state\<close>

definition steady :: "('a \<Rightarrow> session) \<Rightarrow> session \<Rightarrow> 'a act \<Rightarrow> bool" where
  "steady pr s0 m \<longleftrightarrow> (\<forall>t. wp m (\<lambda>_ _. True) (\<lambda>x _. same_history s0 (pr x)) t)"

lemma steady_ret: "same_history s0 (pr x) \<Longrightarrow> steady pr s0 (ret x)"
  by (simp add: steady_def wp_ret)

lemma steady_lift: "(\<And>x. r = Inr x \<Longrightarrow> same_history s0 (pr x)) \<Longrightarrow> steady pr s0 (lift r)"
  by (simp add: steady_def wp_lift split: sum.splits)

lemma steady_bind:
  "steady pr s0 m \<Longrightarrow> (\<And>x. same_history s0 (pr x) \<Longrightarrow> steady pr' s0 (f x)) \<Longrightarrow> steady pr' s0 (bind m f)"
  unfolding steady_def wp_bind by (blast intro: wp_mono)

lemma steady_bind_any: "(\<And>x. steady pr s0 (f x)) \<Longrightarrow> steady pr s0 (bind m f)"
  unfolding steady_def wp_bind by (blast intro: wp_mono wp_True)

lemma steady_weaken: "same_history s0 s \<Longrightarrow> steady pr s m \<Longrightarrow> steady pr s0 m"
  unfolding steady_def by (blast intro: wp_mono same_history_trans)

lemma steady_announce: "same_history s0 s \<Longrightarrow> steady (\<lambda>x. x) s0 (announce E s me m)"
  unfolding steady_def by (rule allI, rule wp_mono [OF wp_announce]) (auto simp: same_history_def)

lemma steady_fold:
  assumes "\<And>a x. same_history s0 a \<Longrightarrow> steady (\<lambda>x. x) s0 (f a x)" and "same_history s0 a"
  shows "steady (\<lambda>x. x) s0 (io_fold f a xs)"
  using assms by (auto simp: steady_def intro: wp_io_fold)

lemma steady_if: "steady pr s0 m \<Longrightarrow> steady pr s0 n \<Longrightarrow> steady pr s0 (if b then m else n)"
  by simp

text \<open>The interface: an operation on a session that also keeps the state and the history.\<close>

locale steady_op = session_op f for f +
  assumes steady_f: "steady (\<lambda>x. x) s (f s)"
begin

lemma keeps_state: "f s t = (Inr s', t') \<Longrightarrow> state s' = state s \<and> state_history s' = state_history s"
  using wp_Inr [OF steady_f [unfolded steady_def, rule_format]] by (auto simp: same_history_def)

lemma steady_from: "same_history s0 s \<Longrightarrow> steady (\<lambda>x. x) s0 (f s)"
  by (rule steady_weaken [OF _ steady_f])

lemma wp_paced_from: "paced s0 s \<Longrightarrow> wp (f s) (\<lambda>_ _. True) (\<lambda>s' _. paced s0 s' \<and> state s' = state s) t"
  using steady_f [of s] unfolding steady_def
  by (blast intro: wp_mono [where R = "\<lambda>_ _. True"] paced_trans paced_same same_history_def [THEN iffD1, THEN conjunct2])

end

interpretation steady_adaptor: steady_op "broadcast_adaptor_point E" for E
proof unfold_locales
  show "steady (\<lambda>x. x) s (broadcast_adaptor_point E s)" for s
    unfolding broadcast_adaptor_point_def
    by (auto intro!: steady_bind_any steady_announce split: prod.splits)
qed

interpretation steady_election: steady_op "start_leader_election E" for E
proof unfold_locales
  show "steady (\<lambda>x. x) s (start_leader_election E s)" for s
    unfolding start_leader_election_def Let_def
    by (intro steady_bind_any steady_announce) (simp add: same_history_def)
qed

interpretation steady_nonce: steady_op "\<lambda>s. broadcast_leader_nonce E s nonce" for E nonce
proof unfold_locales
  show "steady (\<lambda>x. x) s (broadcast_leader_nonce E s nonce)" for s
    unfolding broadcast_leader_nonce_def by (intro steady_bind_any steady_announce) simp
qed

interpretation steady_second_round: steady_op "\<lambda>s. transition_to_round_two E s keys role" for E keys role
proof unfold_locales
  show "steady (\<lambda>x. x) s (transition_to_round_two E s keys role)" for s
    unfolding transition_to_round_two_def
    by (auto intro!: steady_bind_any steady_announce steady_ret simp: same_history_def
        split: option.splits musig_runtime.splits)
qed

interpretation steady_finalization: steady_op "\<lambda>s. finalize_role E s keys role cfg" for E keys role cfg
proof unfold_locales
  show "steady (\<lambda>x. x) s (finalize_role E s keys role cfg)" for s
    unfolding finalize_role_def
    by (auto intro!: steady_bind_any steady_ret simp: same_history_def
        split: option.splits musig_runtime.splits crypto_result.splits)
qed

interpretation steady_adaptation: steady_op "\<lambda>s. adapt_role_with E s role secret cfg" for E role secret cfg
proof unfold_locales
  show "steady (\<lambda>x. x) s (adapt_role_with E s role secret cfg)" for s
    unfolding adapt_role_with_def by (intro steady_bind_any steady_ret) (simp add: same_history_def)
qed

lemma steady_adapt_role: "steady (\<lambda>x. x) s (adapt_role E s role cfg)"
  unfolding adapt_role_def by (intro steady_bind_any steady_adaptation.steady_f)

lemma steady_open_round:
  "same_history s0 s \<Longrightarrow> steady (\<lambda>x. x) s0 (open_signing_round E keys me pks idx role tweak h m s)"
  unfolding open_signing_round_def Let_def
  by (intro steady_bind_any steady_announce) (simp add: same_history_def)

interpretation steady_refund_signing: steady_op "\<lambda>s. begin_refund_signing E s keys" for E keys
proof unfold_locales
  show "steady (\<lambda>x. x) s (begin_refund_signing E s keys)" for s
    unfolding begin_refund_signing_def Let_def refund_step_def
    by (intro steady_bind_any steady_fold) (auto intro!: steady_bind_any steady_open_round split: prod.splits)
qed

interpretation steady_spend_signing: steady_op "\<lambda>s. begin_spend_signing E s keys" for E keys
proof unfold_locales
  show "steady (\<lambda>x. x) s (begin_spend_signing E s keys)" for s
    unfolding begin_spend_signing_def Let_def spend_step_def
    by (intro steady_bind_any steady_fold) (auto intro!: steady_bind_any steady_open_round split: prod.splits)
qed

interpretation steady_spend: steady_op "\<lambda>s. broadcast_my_spend_tx E s keys cfg" for E keys cfg
proof unfold_locales
  show "steady (\<lambda>x. x) s (broadcast_my_spend_tx E s keys cfg)" for s
    unfolding broadcast_my_spend_tx_def Let_def
    by (auto intro!: steady_bind_any steady_ret simp: same_history_def split: option.splits blockchain.splits)
qed

lemma steady_lock: "steady snd s (broadcast_my_lock_tx E s keys cfg)"
proof -
  have ann: "steady snd s (bind (announce E (s\<lparr>lock_txs_broadcast := b\<rparr>) me msg) (\<lambda>s'. ret (True, s')))" for b me msg
    by (rule steady_bind [OF steady_announce]) (simp_all add: same_history_def steady_ret)
  show ?thesis
    unfolding broadcast_my_lock_tx_def by (intro steady_bind_any steady_if ann steady_ret) simp
qed

lemma steady_refund: "steady snd s (broadcast_my_refund_tx E s keys cfg)"
  unfolding broadcast_my_refund_tx_def Let_def
  by (auto intro!: steady_bind_any steady_ret simp: same_history_def split: option.splits blockchain.splits)

lemma steady_extract: "steady snd s (extract_secret_and_adapt E s l cfg)"
proof -
  have a: "steady (\<lambda>x. x) s (adapt_with_secret E s l x cfg)" for x
    unfolding adapt_with_secret_def Let_def
    by (auto intro!: steady_bind_any steady_ret steady_adaptation.steady_from simp: same_history_def)
  show ?thesis
    unfolding extract_secret_and_adapt_def Let_def
    by (auto intro!: steady_bind_any [of _ _ _ "lift r" for r] steady_bind_any [of _ _ _ "leader_signature E s l h cfg" for h]
        steady_ret steady_bind [OF a] split: option.splits)
qed

section \<open>The handlers move along the machine\<close>

text \<open>A computation after which the session has moved along a path of the machine and is at rest
  again.\<close>

definition settles :: "('a \<Rightarrow> session) \<Rightarrow> session \<Rightarrow> 'a act \<Rightarrow> bool" where
  "settles pr s0 m \<longleftrightarrow> (\<forall>t. wp m (\<lambda>_ _. True) (\<lambda>x _. paced s0 (pr x) \<and> resting (state (pr x))) t)"

lemma settles_ret: "paced s0 (pr x) \<Longrightarrow> resting (state (pr x)) \<Longrightarrow> settles pr s0 (ret x)"
  by (simp add: settles_def wp_ret)

lemma settles_bind_steady:
  "steady pr s m \<Longrightarrow> (\<And>x. same_history s (pr x) \<Longrightarrow> settles pr' s0 (f x)) \<Longrightarrow> settles pr' s0 (bind m f)"
  unfolding settles_def steady_def wp_bind by (blast intro: wp_mono)

lemma settles_bind_lift: "(\<And>x. r = Inr x \<Longrightarrow> settles pr s0 (f x)) \<Longrightarrow> settles pr s0 (bind (lift r) f)"
  unfolding settles_def by (cases r) (simp_all add: wp_bind wp_lift)

lemma settles_if: "(b \<Longrightarrow> settles pr s0 m) \<Longrightarrow> (\<not> b \<Longrightarrow> settles pr s0 n) \<Longrightarrow> settles pr s0 (if b then m else n)"
  by simp

text \<open>From a session at rest, operations that keep the state settle it.\<close>

lemma settles_steady: "steady pr s m \<Longrightarrow> paced s0 s \<Longrightarrow> resting (state s) \<Longrightarrow> settles pr s0 m"
  unfolding settles_def steady_def
  by (blast intro: wp_mono [where R = "\<lambda>_ _. True"] paced_trans paced_same
      same_history_def [THEN iffD1, THEN conjunct2, THEN ssubst [of _ _ resting]])

lemma same_history_state: "same_history s s' \<Longrightarrow> state s' = state s"
  by (simp add: same_history_def)

lemma resting_simps [simp]:
  "resting Initialized" "resting AwaitingAdaptorPoints" "resting AwaitingLeaderElectionCommitments"
  "resting AwaitingLeaderElectionNonces" "resting RefundAndSpendTxsSigning"
  "resting AwaitingLockConfirmations" "resting AwaitingSecrets" "resting AwaitingLeaderSpend"
  "resting Completed" "resting Refunded" "resting Failed" "\<not> resting Funding" "\<not> resting Claiming"
  by (simp_all add: resting_def)

lemma settles_adaptor_point:
  assumes "resting (state s)" and "\<not> terminal (state s)"
  shows "settles (\<lambda>x. x) s (on_adaptor_point E s pnt pid)"
proof -
  let ?s1 = "s\<lparr>adaptor_points := hm_insert pid pnt (adaptor_points s)\<rparr>"
  have p: "paced s ?s1" by (rule paced_same) (simp add: same_history_def)
  have m: "paced s (transition_to AwaitingLeaderElectionCommitments ?s1)" if "state s = AwaitingAdaptorPoints"
    by (rule paced_then_move [OF p]) (simp add: that)
  show ?thesis
    unfolding on_adaptor_point_def Let_def
    by (intro settles_if settles_bind_lift settles_ret settles_steady [OF steady_election.steady_f])
      (use assms m p in simp_all)
qed

lemma settles_commitment:
  assumes "resting (state s)" and "\<not> terminal (state s)"
  shows "settles (\<lambda>x. x) s (on_leader_commitment E s c pid)"
proof -
  let ?start = "\<lambda>my_id. if \<not> bt_contains (leader_commitments s) my_id
      then bind (start_leader_election E s)
             (\<lambda>s1. ret (transition_to AwaitingLeaderElectionCommitments s1))
      else ret s"
  have start: "wp (?start me) (\<lambda>_ _. True) (\<lambda>s1 _. paced s s1 \<and> resting (state s1) \<and> \<not> terminal (state s1)) t" for me t
  proof (rule wp_cases)
    show "wp (bind (start_leader_election E s) (\<lambda>s1. ret (transition_to AwaitingLeaderElectionCommitments s1)))
        (\<lambda>_ _. True) (\<lambda>s1 _. paced s s1 \<and> resting (state s1) \<and> \<not> terminal (state s1)) t"
      unfolding wp_bind wp_ret
      by (rule wp_mono [OF steady_election.wp_paced_from [OF paced_refl]])
        (use assms in \<open>auto simp: swap_move_resting intro: paced_then_move\<close>)
  qed (use assms in \<open>simp add: wp_ret\<close>)
  have rest: "settles (\<lambda>x. x) s (let s2 = received_leader_commitment s1 c pid in
     if all_leader_commitments_received s2 \<and> state s2 \<noteq> AwaitingLeaderElectionNonces then
       bind (lift (unwrap (bt_get (leader_nonces s2) my_id))) (\<lambda>my_nonce.
       bind (broadcast_leader_nonce E s2 my_nonce) (\<lambda>s3.
       ret (transition_to AwaitingLeaderElectionNonces s3)))
     else ret s2)" if s1: "paced s s1" "resting (state s1)" "\<not> terminal (state s1)" for s1 my_id
  proof -
    let ?s2 = "received_leader_commitment s1 c pid"
    have h: "same_history s1 ?s2" by (simp add: same_history_def received_leader_commitment_def)
    have p: "paced s ?s2" by (rule paced_trans [OF s1(1) paced_same [OF h]])
    have st: "state ?s2 = state s1" using h by (rule same_history_state)
    have fin: "settles (\<lambda>x. x) s (bind (broadcast_leader_nonce E ?s2 n) (\<lambda>s3.
        ret (transition_to AwaitingLeaderElectionNonces s3)))" if "state ?s2 \<noteq> AwaitingLeaderElectionNonces" for n
    proof (rule settles_bind_steady [OF steady_nonce.steady_f])
      fix s3 assume s3: "same_history ?s2 s3"
      have "paced s s3" by (rule paced_trans [OF p paced_same [OF s3]])
      moreover have "swap_move (state s3) AwaitingLeaderElectionNonces"
        using s1 st that same_history_state [OF s3] by (simp add: swap_move_resting)
      ultimately show "settles (\<lambda>x. x) s (ret (transition_to AwaitingLeaderElectionNonces s3))"
        by (intro settles_ret paced_then_move) simp_all
    qed
    show ?thesis
      unfolding Let_def by (intro settles_if settles_bind_lift fin settles_ret) (use p st s1 in simp_all)
  qed
  have "settles (\<lambda>x. x) s (bind (?start me) (\<lambda>s1. let s2 = received_leader_commitment s1 c pid in
     if all_leader_commitments_received s2 \<and> state s2 \<noteq> AwaitingLeaderElectionNonces then
       bind (lift (unwrap (bt_get (leader_nonces s2) me))) (\<lambda>my_nonce.
       bind (broadcast_leader_nonce E s2 my_nonce) (\<lambda>s3.
       ret (transition_to AwaitingLeaderElectionNonces s3)))
     else ret s2))" for me
    unfolding settles_def wp_bind [of "?start me"]
    by (rule allI, rule wp_mono [OF start]) (use rest in \<open>auto simp: settles_def\<close>)
  then show ?thesis unfolding on_leader_commitment_def by (rule settles_bind_lift)
qed

text \<open>Steps that keep the state and the history, before the rest of a handler.\<close>

lemma paced_keep: "paced s0 s \<Longrightarrow> same_history s s' \<Longrightarrow> paced s0 s'"
  by (rule paced_trans [OF _ paced_same])

lemma same_history_lock_txs: "build_lock_txs E s cfg = Inr s' \<Longrightarrow> same_history s s'"
proof -
  assume "build_lock_txs E s cfg = Inr s'"
  then obtain addr agg where fold: "res_fold (\<lambda>st (pid, p).
      res_bind (lock_tx_hex_for E st cfg addr agg pid p) (\<lambda>h.
      Inr (st\<lparr>lock_txs := hm_insert pid h (lock_txs st)\<rparr>))) s (participants s) = Inr s'"
    by (fastforce simp: build_lock_txs_def res_bind_Inr)
  show ?thesis
    by (rule res_fold_invariant [OF _ _ fold]) (auto simp: res_bind_Inr same_history_def)
qed

lemma settles_nonce:
  assumes "resting (state s)" and "\<not> terminal (state s)"
  shows "settles (\<lambda>x. x) s (on_leader_nonce E cfg keys s n pid)"
proof -
  have recv: "same_history s s1" if "received_leader_nonce E s n pid = Inr s1" for s1
    using that by (auto simp: received_leader_nonce_Inr same_history_def)
  have built: "paced s s3 \<and> resting (state s3)" if "received_leader_nonce E s n pid = Inr s1"
      "compute_leader E s1 = Inr s2"
      "build_lock_txs E (transition_to RefundAndSpendTxsSigning s2) cfg = Inr s3" for s1 s2 s3
  proof -
    have 2: "same_history s1 s2" using compute_leader_fields [OF that(2)] by (auto simp: same_history_def)
    have h: "same_history s s2" by (rule same_history_trans [OF recv [OF that(1)] 2])
    have "paced s (transition_to RefundAndSpendTxsSigning s2)"
      by (rule paced_then_move [OF paced_same [OF h]])
        (use assms same_history_state [OF h] in \<open>simp add: swap_move_resting\<close>)
    then show ?thesis
      using paced_keep same_history_lock_txs [OF that(3)] same_history_state [OF same_history_lock_txs [OF that(3)]]
      by auto
  qed
  have sign: "settles (\<lambda>x. x) s (bind (begin_refund_signing E s3 keys) (\<lambda>s4. begin_spend_signing E s4 keys))"
    if "paced s s3 \<and> resting (state s3)" for s3
  proof (rule settles_bind_steady [OF steady_refund_signing.steady_f])
    fix s4 assume 4: "same_history s3 s4"
    show "settles (\<lambda>x. x) s (begin_spend_signing E s4 keys)"
      by (rule settles_steady [OF steady_spend_signing.steady_f])
        (use that paced_keep 4 same_history_state [OF 4] in auto)
  qed
  show ?thesis
    unfolding on_leader_nonce_def
  proof (intro settles_bind_lift settles_if sign built)
    fix s1 assume "received_leader_nonce E s n pid = Inr s1"
    from recv [OF this] show "settles (\<lambda>x. x) s (ret s1)"
      using assms by (intro settles_ret paced_same) (simp_all add: same_history_def)
  qed
qed

lemma settles_schnorr_nonce:
  assumes "resting (state s)"
  shows "settles (\<lambda>x. x) s (on_schnorr_nonce E keys s role n pid)"
  unfolding on_schnorr_nonce_def Let_def
  by (intro settles_if settles_ret settles_steady [OF steady_second_round.steady_f])
    (use assms in \<open>simp_all add: paced_same same_history_def\<close>)

text \<open>\<open>Funding\<close> is entered and left within the event of the last partial signature, \<open>Claiming\<close> within
  the event of the last secret.\<close>

lemma settles_fund:
  assumes "paced s0 s" and "resting (state s)" and "\<not> terminal (state s)"
  shows "settles (\<lambda>x. x) s0 (fund E cfg keys s)"
  unfolding fund_def Let_def
proof (rule settles_bind_steady [OF steady_lock])
  let ?s1 = "transition_to Funding s"
  fix x :: "bool \<times> session"
  assume x: "same_history ?s1 (snd x)"
  have "paced s0 ?s1" by (rule paced_then_move [OF assms(1)]) (use assms in \<open>simp add: swap_move_resting\<close>)
  then have p: "paced s0 (snd x)" using x by (rule paced_keep)
  have "paced s0 (transition_to (if fst x then AwaitingLockConfirmations else Failed) (snd x))"
    by (rule paced_then_move [OF p]) (use same_history_state [OF x] in simp)
  then show "settles (\<lambda>x. x) s0 (case x of (ok, s2) \<Rightarrow>
      ret (transition_to (if ok then AwaitingLockConfirmations else Failed) s2))"
    unfolding case_prod_beta by (rule settles_ret) simp
qed

lemma settles_partial_signature:
  assumes "resting (state s)" and "\<not> terminal (state s)"
  shows "settles (\<lambda>x. x) s (on_partial_signature E cfg keys s role sg pid)"
proof -
  let ?s1 = "s\<lparr>partial_sigs := hm_insert2 pid role sg (partial_sigs s)\<rparr>"
  have 1: "same_history s ?s1" by (simp add: same_history_def)
  have "steady (\<lambda>x. x) s (if all_partial_sigs_received_for ?s1 role
      then finalize_role E ?s1 keys role cfg else ret ?s1)"
    by (intro steady_if steady_finalization.steady_from steady_ret) (rule 1)+
  then show ?thesis
    unfolding on_partial_signature_def Let_def
  proof (rule settles_bind_steady)
    fix s2 assume 2: "same_history s s2"
    show "settles (\<lambda>x. x) s (if all_partial_sigs_received_for_all_refund_and_spend_txs s2
        then fund E cfg keys s2 else ret s2)"
      by (intro settles_if settles_fund settles_ret)
        (use assms paced_same [OF 2] same_history_state [OF 2] in simp_all)
  qed
qed

lemma settles_claim:
  assumes "paced s0 s" and "resting (state s)" and "\<not> terminal (state s)"
  shows "settles (\<lambda>x. x) s0 (leader_claims E cfg keys s me)"
proof -
  have "steady (\<lambda>x. x) s (if hm_contains (adaptor_sigs s) (Spend me) then adapt_role E s (Spend me) cfg else ret s)"
    by (rule steady_if [OF steady_adapt_role steady_ret]) simp
  then show ?thesis
    unfolding leader_claims_def Let_def
  proof (rule settles_bind_steady)
    fix s1 assume 1: "same_history s s1"
    have c: "paced s0 (transition_to Claiming s1)"
      by (rule paced_then_move [OF paced_keep [OF assms(1) 1]])
        (use assms same_history_state [OF 1] in \<open>simp add: swap_move_resting\<close>)
    show "settles (\<lambda>x. x) s0 (bind (broadcast_my_spend_tx E (transition_to Claiming s1) keys cfg) (\<lambda>s2.
        bind (announce E s2 me SpendTxBroadcast) (\<lambda>s3. ret (transition_to Completed s3))))"
    proof (rule settles_bind_steady [OF steady_spend.steady_f])
      fix s2 assume 2: "same_history (transition_to Claiming s1) s2"
      show "settles (\<lambda>x. x) s0 (bind (announce E s2 me SpendTxBroadcast) (\<lambda>s3. ret (transition_to Completed s3)))"
      proof (rule settles_bind_steady [OF steady_announce [OF same_history_refl]])
        fix s3 assume 3: "same_history s2 s3"
        have "paced s0 (transition_to Completed s3)"
          by (rule paced_then_move [OF paced_keep [OF paced_keep [OF c 2] 3]])
            (use same_history_state [OF 2] same_history_state [OF 3] in simp)
        then show "settles (\<lambda>x. x) s0 (ret (transition_to Completed s3))" by (rule settles_ret) simp
      qed
    qed
  qed
qed

lemma settles_secret:
  assumes "resting (state s)" and "\<not> terminal (state s)"
  shows "settles (\<lambda>x. x) s (on_secret_reveal E cfg keys s secret pid)"
proof -
  let ?s1 = "s\<lparr>adaptor_secrets := hm_insert pid secret (adaptor_secrets s)\<rparr>"
  have p: "paced s ?s1" by (rule paced_same) (simp add: same_history_def)
  have m: "paced s (transition_to AwaitingLeaderSpend ?s1)"
    by (rule paced_then_move [OF p]) (use assms in \<open>simp add: swap_move_resting\<close>)
  show ?thesis
    unfolding on_secret_reveal_def Let_def
    by (intro settles_if settles_bind_lift settles_ret settles_claim) (use assms m p in simp_all)
qed

text \<open>Every message of a peer, with any content.\<close>

lemma settles_message:
  assumes "resting (state s)"
  shows "settles (\<lambda>x. x) s (handle_session_message E cfg keys s m pid)"
proof (cases "terminal (state s)")
  case True
  then show ?thesis using assms by (simp add: handle_session_message_def settles_ret)
next
  case False
  note rules = settles_adaptor_point settles_commitment settles_nonce settles_partial_signature settles_secret
  show ?thesis
    using False assms
    by (cases m) (simp_all add: handle_session_message_def on_lock_tx_broadcast_def rules settles_schnorr_nonce
        settles_ret paced_same same_history_def)
qed

end
