(* ===== verification/Session_Course.thy ===== *)
theory Session_Course
  imports Session_States Sample_Run
begin

text \<open>
  The sessions of a running daemon follow the abstract machine: at every point of a run, between two
  events, the history of a session is a path of the machine from \<open>Initialized\<close> to a state at rest.
\<close>

section \<open>Sessions on course\<close>

definition on_course :: "session \<Rightarrow> bool" where
  "on_course s \<longleftrightarrow> (\<exists>h. state_history s = Initialized # h \<and> swap_path Initialized h \<and>
     state s = last (Initialized # h)) \<and> resting (state s)"

lemma on_course_paced: "on_course s \<Longrightarrow> paced s s' \<Longrightarrow> resting (state s') \<Longrightarrow> on_course s'"
  unfolding on_course_def paced_def
proof (elim exE conjE, intro conjI)
  fix h h'
  assume h: "state_history s = Initialized # h" "swap_path Initialized h" "state s = last (Initialized # h)"
    "state_history s' = state_history s @ h'" "state s' = last (state s # h')" "swap_path (state s) h'"
  show "\<exists>h. state_history s' = Initialized # h \<and> swap_path Initialized h \<and> state s' = last (Initialized # h)"
    by (rule exI [of _ "h @ h'"]) (use h in \<open>auto simp: swap_path_append\<close>)
qed

lemma on_course_resting: "on_course s \<Longrightarrow> resting (state s)"
  by (simp add: on_course_def)

definition all_on_course :: "daemon \<Rightarrow> bool" where
  "all_on_course d \<longleftrightarrow> (\<forall>sid s. hm_get (sessions d) sid = Some s \<longrightarrow> on_course s)"

lemma all_on_course_put: "all_on_course d \<Longrightarrow> on_course s \<Longrightarrow> all_on_course (put_session sid s d)"
  by (simp add: all_on_course_def)

lemma all_on_course_same: "all_on_course d \<Longrightarrow> same_sessions d d' \<Longrightarrow> all_on_course d'"
  by (simp add: all_on_course_def same_sessions_def)

section \<open>Computations that keep the daemon on course\<close>

definition keeps_course :: "daemon act \<Rightarrow> bool" where
  "keeps_course m \<longleftrightarrow> (\<forall>t. wp m (\<lambda>_ _. True) (\<lambda>d _. all_on_course d) t)"

lemma keeps_ret: "all_on_course d \<Longrightarrow> keeps_course (ret d)"
  by (simp add: keeps_course_def wp_ret)

lemma keeps_if: "(b \<Longrightarrow> keeps_course m) \<Longrightarrow> (\<not> b \<Longrightarrow> keeps_course n) \<Longrightarrow> keeps_course (if b then m else n)"
  by simp

lemma keeps_bind: "keeps_course m \<Longrightarrow> (\<And>d. all_on_course d \<Longrightarrow> keeps_course (f d)) \<Longrightarrow> keeps_course (bind m f)"
  unfolding keeps_course_def wp_bind by (blast intro: wp_mono)

lemma keeps_bind_any: "(\<And>x. keeps_course (f x)) \<Longrightarrow> keeps_course (bind m f)"
  unfolding keeps_course_def wp_bind by (blast intro: wp_mono wp_True)

lemma keeps_bind_settles:
  "settles pr s m \<Longrightarrow> on_course s \<Longrightarrow> (\<And>x. on_course (pr x) \<Longrightarrow> keeps_course (f x)) \<Longrightarrow> keeps_course (bind m f)"
  unfolding keeps_course_def settles_def wp_bind by (blast intro: wp_mono on_course_paced)

lemma keeps_bind_steady:
  "steady pr s m \<Longrightarrow> (\<And>x. same_history s (pr x) \<Longrightarrow> keeps_course (f x)) \<Longrightarrow> keeps_course (bind m f)"
  unfolding keeps_course_def steady_def wp_bind by (blast intro: wp_mono)

lemma keeps_spawn: "all_on_course d \<Longrightarrow> keeps_course (maybe_spawn_pollers sid d)"
  unfolding keeps_course_def
  by (rule allI, rule wp_mono [OF wp_maybe_spawn]) (blast intro: all_on_course_same)+

lemma keeps_cancel: "all_on_course d \<Longrightarrow> keeps_course (cancel_session_pollers sid d)"
  unfolding keeps_course_def
  by (rule allI, rule wp_mono [OF wp_cancel]) (blast intro: all_on_course_same)+

lemma on_course_same: "on_course s \<Longrightarrow> same_history s s' \<Longrightarrow> on_course s'"
  by (rule on_course_paced [OF _ paced_same]) (auto simp: same_history_def dest: on_course_resting)

lemma on_course_move: "on_course s \<Longrightarrow> swap_move (state s) st \<Longrightarrow> resting st \<Longrightarrow> on_course (transition_to st s)"
  by (rule on_course_paced [OF _ paced_move]) simp_all

section \<open>The events\<close>

lemma keeps_peer_message:
  assumes d: "all_on_course d"
  shows "keeps_course (on_peer_message E v d)"
proof (cases "hm_get (sessions d) (env_session_id v)")
  case None
  then show ?thesis by (simp add: on_peer_message_def Let_def keeps_course_def wp_lift)
next
  case (Some s)
  then have s: "on_course s" using d by (simp add: all_on_course_def)
  show ?thesis
    unfolding on_peer_message_def Let_def Some option.case
    by (rule keeps_bind_settles [OF settles_message [OF on_course_resting [OF s]] s])
      (intro keeps_if keeps_spawn keeps_cancel all_on_course_put d, assumption+)
qed

lemma keeps_locks_confirmed:
  assumes d: "all_on_course d" and s: "on_course s"
  shows "keeps_course (locks_confirmed E sid s d)"
proof -
  have m: "on_course (transition_to st s)" if "st \<in> {AwaitingSecrets, AwaitingLeaderSpend}" for st
    by (rule on_course_move [OF s]) (use that on_course_resting [OF s] in \<open>auto simp: swap_move_resting\<close>)
  have a: "steady (\<lambda>x. x) (transition_to AwaitingLeaderSpend s)
      (announce E (transition_to AwaitingLeaderSpend s) me (SecretReveal sec))" for me sec
    by (rule steady_announce) simp
  show ?thesis
    unfolding locks_confirmed_def
  proof (rule keeps_bind_any, rule keeps_bind_any, rule keeps_if, rule keeps_bind_steady [OF a])
    fix s' assume "same_history (transition_to AwaitingLeaderSpend s) s'"
    from on_course_same [OF m this] show "keeps_course (maybe_spawn_pollers sid (put_session sid s' d))"
      by (intro keeps_spawn all_on_course_put d) simp
  next
    show "keeps_course (ret (put_session sid (transition_to AwaitingSecrets s) d))"
      by (intro keeps_ret all_on_course_put d m) simp
  qed
qed

lemma keeps_poll_lock:
  assumes d: "all_on_course d" and s: "on_course s"
  shows "keeps_course (poll_lock_tx E sid pid s d)"
proof -
  have p: "steady (\<lambda>x. x) s (check_lock_tx_confirmed E s pid cfg)" for cfg
    unfolding steady_def
    by (rule allI, rule wp_mono [OF wp_lock_polled]) (auto simp: lock_polled_def same_history_def)
  have put: "all_on_course (if b then put_session sid s1 d\<lparr>active_pollers := m\<rparr> else put_session sid s1 d)"
    if "same_history s s1" for b s1 m
    using all_on_course_put [OF d on_course_same [OF s that], of sid]
    by (cases b) (simp_all add: all_on_course_def)
  show ?thesis
    unfolding poll_lock_tx_def Let_def
  proof (rule keeps_if [OF keeps_ret [OF d]], rule keeps_bind_steady [OF p], rule keeps_if)
    fix s1 assume 1: "same_history s s1"
    show "keeps_course (locks_confirmed E sid s1 (if pid \<in> confirmed_lock_txs s1
        then put_session sid s1 d\<lparr>active_pollers := hm_remove (sid, LockTx pid)
          (active_pollers (put_session sid s1 d))\<rparr> else put_session sid s1 d))"
      by (rule keeps_locks_confirmed [OF put [OF 1] on_course_same [OF s 1]])
    show "keeps_course (ret (if pid \<in> confirmed_lock_txs s1
        then put_session sid s1 d\<lparr>active_pollers := hm_remove (sid, LockTx pid)
          (active_pollers (put_session sid s1 d))\<rparr> else put_session sid s1 d))"
      by (rule keeps_ret [OF put [OF 1]])
  qed
qed

lemma keeps_poll_spend:
  assumes d: "all_on_course d" and s: "on_course s"
  shows "keeps_course (poll_leader_spend E sid l s d)"
proof -
  have claimed: "on_course (transition_to Completed s2)"
    if st: "state s = AwaitingLeaderSpend" and 1: "same_history s s1" and 2: "same_history (transition_to Claiming s1) s2"
    for s1 s2
  proof -
    have "paced s (transition_to Claiming s1)"
      by (rule paced_then_move [OF paced_same [OF 1]]) (use st same_history_state [OF 1] in simp)
    then have "paced s (transition_to Completed s2)"
      by (rule paced_then_move [OF paced_keep [OF _ 2]]) (use same_history_state [OF 2] in simp)
    then show ?thesis by (rule on_course_paced [OF s]) simp
  qed
  show ?thesis
    unfolding poll_leader_spend_def
  proof (rule keeps_if [OF keeps_ret [OF d]], rule keeps_bind_any, rule keeps_if [OF keeps_ret [OF d]],
      rule keeps_bind_steady [OF steady_extract])
    fix x :: "bool \<times> session"
    assume st: "\<not> state s \<noteq> AwaitingLeaderSpend" and x: "same_history s (snd x)"
    show "keeps_course (case x of (extracted, s1) \<Rightarrow> if \<not> extracted then ret (put_session sid s1 d)
        else bind (broadcast_my_spend_tx E (transition_to Claiming s1) (swap_keys d) (config d)) (\<lambda>s2.
          cancel_session_pollers sid (put_session sid (transition_to Completed s2) d)))"
      unfolding case_prod_beta
    proof (rule keeps_if [OF keeps_ret], rule all_on_course_put [OF d on_course_same [OF s x]],
        rule keeps_bind_steady [OF steady_spend.steady_f], rule keeps_cancel, rule all_on_course_put [OF d])
      show "on_course (transition_to Completed s2)" if "same_history (transition_to Claiming (snd x)) s2" for s2
        by (rule claimed [OF _ x that]) (use st in simp)
    qed
  qed
qed

lemma keeps_poll_window:
  assumes d: "all_on_course d" and s: "on_course s"
  shows "keeps_course (poll_refund_window E sid pid s d)"
proof -
  have m: "on_course (transition_to (if b then Refunded else Failed) s1)"
    if "same_history s s1" "\<not> terminal (state s)" for b s1
    by (rule on_course_move [OF on_course_same [OF s that(1)]])
      (use that on_course_resting [OF s] same_history_state [OF that(1)] in \<open>simp_all add: swap_move_resting\<close>)
  show ?thesis
    unfolding poll_refund_window_def
  proof (rule keeps_if [OF keeps_ret [OF d]], rule keeps_bind_any, rule keeps_if [OF keeps_ret [OF d]],
      rule keeps_bind_steady [OF steady_refund])
    fix x :: "bool \<times> session"
    assume "\<not> terminal (state s)" "same_history s (snd x)"
    then show "keeps_course (case x of (ok, s1) \<Rightarrow> cancel_session_pollers sid
        (put_session sid (transition_to (if ok then Refunded else Failed) s1) d))"
      unfolding case_prod_beta by (intro keeps_cancel all_on_course_put d m)
  qed
qed

lemma keeps_event: "all_on_course d \<Longrightarrow> keeps_course (handle_event E ev d)"
proof -
  assume d: "all_on_course d"
  have s: "on_course s" if "hm_get (sessions d) sid = Some s" for sid s
    using d that by (simp add: all_on_course_def)
  have "keeps_course (case hm_get (sessions d) sid of None \<Rightarrow> ret d | Some s \<Rightarrow>
     (case target of LockTx pid \<Rightarrow> poll_lock_tx E sid pid s d
      | LeaderSpendTx leader_id \<Rightarrow> poll_leader_spend E sid leader_id s d
      | RefundWindow pid \<Rightarrow> poll_refund_window E sid pid s d))" for sid target
    by (simp add: keeps_ret d s keeps_poll_lock keeps_poll_spend keeps_poll_window
        split: option.split chain_poll_target.split)
  then show ?thesis
    unfolding handle_event_def on_chain_poll_def
    by (cases ev) (simp_all add: keeps_peer_message d keeps_bind keeps_spawn)
qed

lemma start_on_course:
  assumes d: "all_on_course d" and run: "start_swap_session E d sid t = (Inr (ok, d'), t')"
  shows "all_on_course d'"
proof -
  have "wp (start_swap_session E d sid) (\<lambda>_ _. True) (\<lambda>x _. all_on_course (snd x)) t"
  proof (cases "hm_get (sessions d) sid")
    case None
    then show ?thesis by (simp add: start_swap_session_def wp_ret d)
  next
    case (Some s)
    have s: "on_course s" using d Some by (simp add: all_on_course_def)
    have f: "all_on_course (put_session sid (transition_to Failed s) d)"
      by (intro all_on_course_put d on_course_move [OF s])
        (use on_course_resting [OF s] in \<open>simp_all add: swap_move_resting\<close>)
    have a: "wp (bind (broadcast_adaptor_point E s) (\<lambda>s1.
        let s2 = (if state s1 = Initialized then transition_to AwaitingAdaptorPoints s1 else s1) in
        ret (True, put_session sid s2 d))) (\<lambda>_ _. True) (\<lambda>x _. all_on_course (snd x)) t1" for t1
      unfolding wp_bind Let_def wp_ret
    proof (rule wp_mono [OF steady_adaptor.steady_f [unfolded steady_def, rule_format]])
      fix s1 t2 assume 1: "same_history s s1"
      have "on_course (if state s1 = Initialized then transition_to AwaitingAdaptorPoints s1 else s1)"
        using on_course_same [OF s 1] on_course_move [of s1 AwaitingAdaptorPoints] by (cases "state s1 = Initialized") simp_all
      then show "all_on_course (snd (True, put_session sid
          (if state s1 = Initialized then transition_to AwaitingAdaptorPoints s1 else s1) d))"
        unfolding snd_conv by (rule all_on_course_put [OF d])
    qed simp
    show ?thesis
      unfolding start_swap_session_def Some option.case
        wp_bind [of "if validate_utxos (config d) then validate_funding_utxos E s (config d) else ret True"]
      by (rule wp_mono [OF wp_True], rule TrueI, rule wp_cases [OF _ a]) (simp add: wp_ret f)
  qed
  from wp_Inr [OF this run] show ?thesis by simp
qed

lemma on_course_new:
  assumes "session_new E sid ps sblock sslot bfee cfee t = (Inr s, t')"
  shows "on_course (s\<lparr>cardano_collaterals := col, refund_window_secs := w\<rparr>)"
proof -
  obtain secrets points where "s = session_literal sid ps sblock sslot bfee cfee secrets points"
    using session_new_fields(3) [OF assms] by blast
  then have "state_history s = [Initialized]" "state s = Initialized"
    by (simp_all add: session_literal_def)
  then show ?thesis by (simp add: on_course_def)
qed

lemma all_on_course_step:
  assumes "all_on_course d" and "daemon_step E (d, t) (d', t')"
  shows "all_on_course d'"
  using assms(2)
proof (cases rule: daemon_stepE [consumes 1, case_names create start peer poll])
  case (create sid ps sblock sslot bfee cfee s w col)
  then show ?thesis
    using assms(1) on_course_new [OF create(2)] by (simp add: insert_session_def all_on_course_def)
next
  case (start sid b)
  then show ?thesis using start_on_course [OF assms(1)] by blast
next
  case (peer v a)
  then show ?thesis using wp_Inr [OF keeps_event [OF assms(1), unfolded keeps_course_def, rule_format]] by blast
next
  case (poll sid target)
  then show ?thesis using wp_Inr [OF keeps_event [OF assms(1), unfolded keeps_course_def, rule_format]] by blast
qed

end
