(* ===== verification/Course_Props.thy ===== *)
theory Course_Props
  imports Session_Course Daemon_Props Peer_Props
begin

text \<open>
  Properties of whole runs: the sessions refine the abstract machine, a refund that is due goes
  through, and the search for a participant's place in the cycle ends on any participants.
\<close>

section \<open>The abstract machine\<close>

lemma reachable_on_course:
  assumes "reachable E keys cfg c"
  shows "all_on_course (fst c)"
  using assms
proof (induction rule: reachable.induct)
  case init
  then show ?case by (simp add: all_on_course_def daemon_new_def)
next
  case (step c c')
  then show ?case by (cases c; cases c') (auto intro: all_on_course_step)
qed

text \<open>
  C6: the sessions of a daemon refine the abstract state machine. Whatever the peers send, the
  services answer and the pollers tick, in every reachable daemon the history of a session is a path
  of \<open>swap_move\<close> that starts at \<open>Initialized\<close> and ends at its state, and this state is one in which a
  session rests: \<open>Funding\<close> is left within the event that entered it for \<open>AwaitingLockConfirmations\<close> or
  \<open>Failed\<close>, \<open>Claiming\<close> for \<open>Completed\<close>, no state leads back to \<open>Initialized\<close>, \<open>AwaitingAdaptorPoints\<close>
  follows it only, and from a terminal state only a late lock poll or a failed start leads on.
\<close>

theorem sessions_follow_machine:
  assumes "reachable E keys cfg (d, t)" and "hm_get (sessions d) sid = Some s"
  shows "resting (state s) \<and> (\<exists>h. state_history s = Initialized # h \<and>
    swap_path Initialized h \<and> state s = last (Initialized # h))"
  using reachable_on_course [OF assms(1)] assms(2) by (auto simp: all_on_course_def on_course_def)

theorem sessions_follow_machine_witness:
  "\<exists>s h. hm_get (sessions (fst (swap_after 14))) 7 = Some s \<and> state_history s = Initialized # h \<and>
     swap_path Initialized h \<and> length h = 7 \<and> state s = AwaitingLeaderSpend"
proof -
  have "hm_get (sessions (fst (swap_after 14))) 7 \<noteq> None" by code_simp
  then have s: "hm_get (sessions (fst (swap_after 14))) 7 = Some (swap_session 14)"
    by (simp add: swap_session_def)
  have "reachable swap_env sample_keys sample_config (fst (swap_after 14), snd (swap_after 14))"
    using swap_after_reachable [of 14] by simp
  from sessions_follow_machine [OF this s] obtain h where
    "state_history (swap_session 14) = Initialized # h" "swap_path Initialized h"
    "state (swap_session 14) = last (Initialized # h)" by blast
  then show ?thesis using s honest_run by auto
qed

section \<open>A refund that is due\<close>

lemma cancel_returns: "\<exists>d' t'. cancel_session_pollers sid d t = (Inr d', t') \<and> same_sessions d d' \<and> set t \<subseteq> set t'"
  using wp_cancel [of sid d t] emits_trace [OF emits_cancel [of sid d], of t]
  by (cases "cancel_session_pollers sid d t") (auto simp: wp_def split: sum.splits)

lemma settled_pollers:
  assumes "get_my_id (participants s) = Inr me" and "state s \<noteq> AwaitingLeaderSpend"
  shows "\<exists>ts. missing_pollers d sid s = Inr ts"
  using assms by (simp add: missing_pollers_def Let_def)

text \<open>The end of a poll that closes a session: its pollers are cancelled, those of late locks spawned
  again, and neither panics.\<close>

lemma closing_returns:
  assumes "get_my_id (participants s') = Inr me" and "state s' \<noteq> AwaitingLeaderSpend"
  obtains d1 t1 d' t' where "cancel_session_pollers sid (put_session sid s' d) t = (Inr d1, t1)"
    "maybe_spawn_pollers sid d1 t1 = (Inr d', t')" "hm_get (sessions d') sid = Some s'" "set t \<subseteq> set t'"
proof -
  obtain d1 t1 where 1: "cancel_session_pollers sid (put_session sid s' d) t = (Inr d1, t1)"
    "same_sessions (put_session sid s' d) d1" "set t \<subseteq> set t1"
    using cancel_returns by blast
  have s: "hm_get (sessions d1) sid = Some s'" using 1(2) by (simp add: same_sessions_def)
  obtain ts where "missing_pollers d1 sid s' = Inr ts" using settled_pollers [OF assms] by blast
  from maybe_spawn_returns [OF s this, of t1] show ?thesis
    using that [OF 1(1)] s 1(3) by (auto simp: same_sessions_def)
qed

text \<open>A tip that has reached the locktime opens the window.\<close>

lemma due_window_opens:
  assumes "bt_get (participants s) me = Some p" and "blockchain p = Bitcoin"
    and "\<And>u rq. rq_method rq = GET \<Longrightarrow> window_reached E s me (net_answer E u rq)"
  shows "\<exists>rq r. check_refund_window_open E s me cfg t = (Inr True, Http rq r # t)"
proof -
  obtain lt where lt: "refund_locktime_btc (overflow_checks E) s me = Inr lt"
    using assms(3) [of "\<lparr>rq_method = GET, rq_url = [], rq_headers = [], rq_body = NoBody\<rparr>" t] assms(1,2)
    by (auto simp: window_reached_def split: sum.splits)
  have "wp (check_refund_window_open E s me cfg) (\<lambda>_ _. False) (\<lambda>b t'. b \<and> (\<exists>rq r. t' = Http rq r # t)) t"
    using assms lt by (simp add: check_refund_window_open_def wp_simps fetch_bitcoin_tip_height_def
        http_get_def window_reached_def word_le_nat_alt unat_ucast_up)
  then show ?thesis by (auto simp: wp_def split: prod.splits sum.splits)
qed

text \<open>
  C21: a refund that is due goes through. When the session is not over and holds the daemon's signed
  refund of a Bitcoin lock, and the tip of the chain, whenever it is asked for, has reached its
  locktime, the tick of the refund poller returns, the signed transaction has been posted, and
  the session is \<open>Refunded\<close> when the post was accepted and \<open>Failed\<close> otherwise, with its history
  extended by this state only.
\<close>

theorem due_refund_goes_through:
  assumes "hm_get (sessions d) sid = Some s" and "\<not> terminal (state s)"
    and "get_my_id (participants s) = Inr me" and "bt_get (participants s) me = Some p"
    and "blockchain p = Bitcoin" and "hm_get (signed_txs s) (Refund me) = Some h"
    and "\<And>u rq. rq_method rq = GET \<Longrightarrow> window_reached E s me (net_answer E u rq)"
  shows "\<exists>d' t' s' rq r. handle_event E (ChainPoll sid (RefundWindow me)) d t = (Inr d', t') \<and>
    hm_get (sessions d') sid = Some s' \<and> Http rq r \<in> set t' \<and> rq_method rq = POST \<and>
    rq_body rq = TextBody h \<and> state s' = (if \<exists>x. r = Some x \<and> rs_success x then Refunded else Failed) \<and>
    state_history s' = state_history s @ [state s']"
proof -
  let ?base = "mempool_base_url (bitcoin_network (config d))"
  obtain rq0 r0 where check: "check_refund_window_open E s me (config d) t = (Inr True, Http rq0 r0 # t)"
    using due_window_opens [OF assms(4,5,7)] by blast
  let ?post = "\<lparr>rq_method = POST, rq_url = url_path ?base [''tx''], rq_headers = [], rq_body = TextBody h\<rparr>"
  let ?r = "net_answer E (Http rq0 r0 # t) ?post"
  let ?t2 = "Http ?post ?r # Http rq0 r0 # t"
  define ok where "ok \<longleftrightarrow> (\<exists>x. ?r = Some x \<and> rs_success x)"
  define s' where "s' = transition_to (if ok then Refunded else Failed) s"
  have post: "broadcast_my_refund_tx E s (swap_keys d) (config d) (Http rq0 r0 # t) = (Inr (ok, s), ?t2)"
    using assms(3-6) by (simp add: broadcast_my_refund_tx_def Let_def submit_bitcoin_tx_def http_post_def
        http_send_def bind_def ret_def lift_def emit_def ok_def split: option.splits)
  have c: "get_my_id (participants s') = Inr me" "state s' \<noteq> AwaitingLeaderSpend"
    using assms(3) by (simp_all add: s'_def)
  obtain d1 t1 d' t' where end': "cancel_session_pollers sid (put_session sid s' d) ?t2 = (Inr d1, t1)"
    "maybe_spawn_pollers sid d1 t1 = (Inr d', t')" "hm_get (sessions d') sid = Some s'" "set ?t2 \<subseteq> set t'"
    using closing_returns [OF c] by blast
  have "poll_refund_window E sid me s d t = (Inr d1, t1)"
    using assms(2) check post end'(1) by (simp add: poll_refund_window_def bind_def s'_def)
  then have run: "handle_event E (ChainPoll sid (RefundWindow me)) d t = (Inr d', t')"
    using assms(1) end'(2) by (simp add: handle_event_def on_chain_poll_def bind_def)
  have sent: "Http ?post ?r \<in> set t'" using end'(4) by simp
  have over: "state s' = (if \<exists>x. ?r = Some x \<and> rs_success x then Refunded else Failed)"
    "state_history s' = state_history s @ [state s']" by (simp_all add: s'_def ok_def)
  show ?thesis
    by (intro exI conjI, rule run, rule end'(3), rule sent) (simp, simp, rule over, rule over)
qed

theorem due_refund_goes_through_witness:
  "\<exists>d' t' s'. handle_event (sample_env (answering tx_json ''9'')) (ChainPoll 7 (RefundWindow 1)) refund_daemon [] =
       (Inr d', t') \<and> hm_get (sessions d') 7 = Some s' \<and> state s' \<in> {Refunded, Failed}"
proof -
  let ?E = "sample_env (answering tx_json ''9'')"
  let ?r = "Some \<lparr>rs_success = True, rs_text = Some ''9'', rs_json = Some tx_json\<rparr>"
  have v: "bt_get (participants refund_session) 1 = Some (swap_member 1 2 True)"
    "blockchain (swap_member 1 2 True) = Bitcoin" "overflow_checks ?E"
    by (simp_all add: refund_session_def new_session_def session_literal_def ring2_def bt_get_def
        swap_member_def sample_env_def)
  have w: "refund_locktime_btc True refund_session 1 = Inr 6" "height_of ?r = 9"
    by code_simp+
  have "window_reached ?E refund_session 1 ?r" by (simp add: window_reached_def v w)
  moreover have "net_answer ?E u rq = Some \<lparr>rs_success = True, rs_text = Some ''9'', rs_json = Some tx_json\<rparr>" for u rq
    by (simp add: sample_env_def answering_def)
  ultimately have tip: "window_reached ?E refund_session 1 (net_answer ?E u rq)" for u rq
    by (simp only:)
  have s: "hm_get (sessions refund_daemon) 7 = Some refund_session" "\<not> terminal (state refund_session)"
    "get_my_id (participants refund_session) = Inr 1" "hm_get (signed_txs refund_session) (Refund 1) = Some ''b1''"
    by (simp_all add: refund_daemon_def refund_session_def new_session_def session_literal_def ring2_def
        swap_member_def get_my_id_def hm_get_def)
  from due_refund_goes_through [OF s(1-3) v(1,2) s(4) tip, of "[]"] show ?thesis
    by (elim exE conjE) (intro exI conjI, assumption+, simp)
qed

section \<open>The walk along the cycle\<close>

text \<open>The first visit of an iteration in a finite set is not later than its size.\<close>

lemma first_visit_bound:
  assumes "finite K" and "f ` K \<subseteq> K" and "s \<in> K" and "(f ^^ d) s = k" and "0 < d"
    and "\<And>i. 0 < i \<Longrightarrow> i < d \<Longrightarrow> (f ^^ i) s \<noteq> k"
  shows "d \<le> card K"
proof (rule ccontr)
  assume "\<not> d \<le> card K"
  have mem: "(f ^^ i) s \<in> K" for i
    using assms(2,3) by (induction i) auto
  have "\<not> inj_on (\<lambda>i. (f ^^ i) s) {1..d}"
  proof
    assume "inj_on (\<lambda>i. (f ^^ i) s) {1..d}"
    from card_inj_on_le [OF this _ assms(1)] mem show False using \<open>\<not> d \<le> card K\<close> by auto
  qed
  then obtain i j where ij: "1 \<le> i" "i < j" "j \<le> d" "(f ^^ i) s = (f ^^ j) s"
    unfolding inj_on_def by (metis atLeastAtMost_iff nat_neq_iff)
  have "(f ^^ ((d - j) + i)) s = (f ^^ ((d - j) + j)) s"
    unfolding funpow_add comp_apply ij(4) ..
  then have "(f ^^ ((d - j) + i)) s = k" using ij(3) assms(4) by simp
  moreover have "(f ^^ ((d - j) + i)) s \<noteq> k" by (rule assms(6)) (use ij in auto)
  ultimately show False by contradiction
qed

text \<open>A destination that is never visited.\<close>

lemma distance_loop_lost:
  assumes "targets_closed ps" and "l \<in> members ps" and "\<And>i. v < i \<Longrightarrow> (next_of ps ^^ i) l \<noteq> k"
  shows "distance_loop ps k ((next_of ps ^^ v) l) v =
    Inl (PanicMsg ''cycle broken - could not reach participant from leader'')"
  using assms(3)
proof (induction "Suc (length ps) - v" arbitrary: v)
  case 0
  have step: "target_of ps ((next_of ps ^^ v) l) = Inr ((next_of ps ^^ Suc v) l)"
    using iterate_member [OF assms(1,2), of v] by (simp add: target_of_member)
  moreover have "(next_of ps ^^ Suc v) l \<noteq> k" by (rule 0(2)) simp
  ultimately show ?case using 0(1) by (subst distance_loop.simps) simp
next
  case (Suc m)
  have step: "target_of ps ((next_of ps ^^ v) l) = Inr ((next_of ps ^^ Suc v) l)"
    using iterate_member [OF assms(1,2), of v] by (simp add: target_of_member)
  have "distance_loop ps k ((next_of ps ^^ Suc v) l) (Suc v) =
      Inl (PanicMsg ''cycle broken - could not reach participant from leader'')" 
    using Suc.hyps(2) Suc.prems by (intro Suc.hyps(1)) auto
  moreover have "(next_of ps ^^ Suc v) l \<noteq> k" using Suc.prems [of "Suc v"] by simp
  ultimately show ?case using step by (subst distance_loop.simps) simp
qed

text \<open>
  The walk along the cycle ends on any participants. Also on participants that were never
  validated, as long as every target is one of them, \<open>distance_from_leader\<close> returns: the
  number of steps to the first visit of the destination, at most the number of participants, when
  it can be reached from the leader, and otherwise it gives up with its panic message instead of
  walking round forever.
\<close>

theorem distance_from_leader_ends:
  assumes "bt_ok ps" and "targets_closed ps" and "l \<in> members ps"
  shows "if \<exists>i > 0. (next_of ps ^^ i) l = k
    then \<exists>d. steps_to ps l k d \<and> (\<forall>i. 0 < i \<and> i < d \<longrightarrow> (next_of ps ^^ i) l \<noteq> k) \<and>
      (\<exists>w. distance_from_leader ps k l = Inr w \<and> unat w = d)
    else distance_from_leader ps k l =
      Inl (PanicMsg ''cycle broken - could not reach participant from leader'')"
proof (cases "\<exists>i > 0. (next_of ps ^^ i) l = k")
  case True
  define d where "d = (LEAST i. 0 < i \<and> (next_of ps ^^ i) l = k)"
  have d: "0 < d \<and> (next_of ps ^^ d) l = k" unfolding d_def by (rule LeastI_ex) (use True in auto)
  have first: "(next_of ps ^^ i) l \<noteq> k" if "0 < i" "i < d" for i
    using not_less_Least [of i "\<lambda>i. 0 < i \<and> (next_of ps ^^ i) l = k"] that by (simp add: d_def)
  have "d \<le> card (members ps)"
    by (rule first_visit_bound [of _ "next_of ps" l d k]) (use assms(2,3) d first in \<open>auto simp: targets_closed_def\<close>)
  then have len: "d \<le> length ps" using card_members [OF assms(1)] by simp
  have "distance_loop ps k ((next_of ps ^^ 0) l) 0 = Inr d"
    by (rule distance_loop_steps [OF assms(2,3)]) (use d first len in auto)
  then have "distance_from_leader ps k l = Inr (of_nat d)" by (simp add: distance_from_leader_def)
  then show ?thesis
    unfolding if_P [OF True] using d first len unat_distance [OF assms(1) len]
    by (intro exI [of _ d]) (simp add: steps_to_def)
next
  case False
  then have never: "(next_of ps ^^ i) l \<noteq> k" if "0 < i" for i using that by blast
  have "distance_loop ps k ((next_of ps ^^ 0) l) 0 =
      Inl (PanicMsg ''cycle broken - could not reach participant from leader'')"
    by (rule distance_loop_lost [OF assms(2,3) never])
  then have "distance_from_leader ps k l = Inl (PanicMsg ''cycle broken - could not reach participant from leader'')"
    by (simp add: distance_from_leader_def)
  then show ?thesis by (simp only: False if_False)
qed

text \<open>Two participants that claim from each other, and a third that nobody claims from.\<close>

definition broken_ring :: participants where
  "broken_ring = [(1, swap_member 1 2 True), (2, swap_member 2 1 False), (3, swap_member 3 1 False)]"

theorem distance_from_leader_ends_witness:
  "distance_from_leader broken_ring 3 1 =
     Inl (PanicMsg ''cycle broken - could not reach participant from leader'') \<and>
   (\<exists>w. distance_from_leader broken_ring 2 1 = Inr w \<and> unat w \<le> 3)"
proof -
  have n: "next_of broken_ring 1 = 2" "next_of broken_ring 2 = 1" "next_of broken_ring 3 = 1"
    by (simp_all add: next_of_def broken_ring_def swap_member_def bt_get_def)
  have m: "members broken_ring = {1, 2, 3}" by (auto simp: broken_ring_def bt_keys_def)
  have ok: "bt_ok broken_ring" by (simp add: broken_ring_def bt_ok_def bt_keys_def)
  have c: "targets_closed broken_ring" by (simp add: targets_closed_def m n)
  have "(next_of broken_ring ^^ i) 1 \<in> {1, 2}" for i by (induction i) (auto simp: n)
  moreover have "(3 :: u8) \<notin> {1, 2}" by simp
  ultimately have "\<not> (\<exists>i > 0. (next_of broken_ring ^^ i) 1 = 3)" by metis
  with distance_from_leader_ends [OF ok c, of 1 3] m have a: "distance_from_leader broken_ring 3 1 =
      Inl (PanicMsg ''cycle broken - could not reach participant from leader'')" by simp
  have "(next_of broken_ring ^^ 1) 1 = 2" by (simp add: n)
  then have "\<exists>i > 0. (next_of broken_ring ^^ i) 1 = 2" by blast
  with distance_from_leader_ends [OF ok c, of 1 2] m show ?thesis
    using a by (auto simp: steps_to_def broken_ring_def)
qed

end
