(* ===== verification/Session_Views.thy ===== *)
theory Session_Views
  imports Swap_Daemon
begin

text \<open>
  What the operations of the protocol leave alone: rules for computations that keep a view of the
  session, and the contract \<open>reserved\<close> of the operations that keep the leader, the election's
  nonces and commitments and the adaptor secrets, and say nothing about them to the peers.
\<close>

section \<open>What stays unchanged\<close>

text \<open>A computation whose result carries a session that agrees with the given one in \<open>g\<close>.\<close>

definition unchanged :: "(session \<Rightarrow> 'b) \<Rightarrow> ('a \<Rightarrow> session) \<Rightarrow> session \<Rightarrow> 'a act \<Rightarrow> bool" where
  "unchanged g pr s0 m \<longleftrightarrow> (\<forall>t. wp m (\<lambda>_ _. True) (\<lambda>x _. g (pr x) = g s0) t)"

lemma unchanged_ret: "g (pr x) = g s0 \<Longrightarrow> unchanged g pr s0 (ret x)"
  by (simp add: unchanged_def wp_ret)

lemma unchanged_lift: "(\<And>x. r = Inr x \<Longrightarrow> g (pr x) = g s0) \<Longrightarrow> unchanged g pr s0 (lift r)"
  by (simp add: unchanged_def wp_lift split: sum.splits)

lemma unchanged_bind:
  "unchanged g pr s m \<Longrightarrow> (\<And>x. g (pr x) = g s \<Longrightarrow> unchanged g pr' s0 (f x)) \<Longrightarrow> unchanged g pr' s0 (bind m f)"
  unfolding unchanged_def wp_bind by (blast intro: wp_mono)

lemma unchanged_bind_any: "(\<And>x. unchanged g pr s0 (f x)) \<Longrightarrow> unchanged g pr s0 (bind m f)"
  unfolding unchanged_def wp_bind by (blast intro: wp_mono wp_True)

lemma unchanged_bind_lift:
  "(\<And>x. r = Inr x \<Longrightarrow> unchanged g pr s0 (f x)) \<Longrightarrow> unchanged g pr s0 (bind (lift r) f)"
  unfolding unchanged_def by (cases r) (simp_all add: wp_bind wp_lift)

lemma unchanged_if:
  "(b \<Longrightarrow> unchanged g pr s0 m) \<Longrightarrow> (\<not> b \<Longrightarrow> unchanged g pr s0 n) \<Longrightarrow> unchanged g pr s0 (if b then m else n)"
  by simp

lemma unchanged_from: "g s = g s0 \<Longrightarrow> unchanged g pr s m \<Longrightarrow> unchanged g pr s0 m"
  by (simp add: unchanged_def)

lemma unchanged_view: "unchanged g pr s0 m \<Longrightarrow> (\<And>s s'. g s = g s' \<Longrightarrow> h s = h s') \<Longrightarrow> unchanged h pr s0 m"
  unfolding unchanged_def by (blast intro: wp_mono)

lemma unchanged_fold:
  assumes "\<And>a x. g a = g s0 \<Longrightarrow> unchanged g (\<lambda>x. x) s0 (f a x)" and "g a = g s0"
  shows "unchanged g (\<lambda>x. x) s0 (io_fold f a xs)"
  using assms by (auto simp: unchanged_def intro: wp_io_fold)

lemma unchanged_announce:
  "(\<And>pool. g (s\<lparr>connection_pool := pool\<rparr>) = g s) \<Longrightarrow> g s = g s0 \<Longrightarrow> unchanged g (\<lambda>x. x) s0 (announce E s me m)"
  unfolding unchanged_def by (rule allI, rule wp_mono [OF wp_announce]) auto

lemma unchanged_run: "unchanged g pr s0 m \<Longrightarrow> m t = (Inr x, t') \<Longrightarrow> g (pr x) = g s0"
  unfolding unchanged_def using wp_Inr by fast

section \<open>The election and the secrets\<close>

definition pledges ::
  "session \<Rightarrow> participant_id option \<times> (participant_id, bytes) btree \<times> (participant_id, bytes) btree" where
  "pledges s = (leader s, leader_nonces s, leader_commitments s)"

definition holdings :: "session \<Rightarrow> (participant_id option \<times> (participant_id, bytes) btree \<times>
    (participant_id, bytes) btree) \<times> (participant_id, string) hmap" where
  "holdings s = (pledges s, adaptor_secrets s)"

lemma pledges_of_holdings: "holdings s = holdings s' \<Longrightarrow> pledges s = pledges s'"
  by (simp add: holdings_def)

lemma holdings_simps [simp]:
  "holdings (transition_to st s) = holdings s" "pledges (transition_to st s) = pledges s"
  "holdings (s\<lparr>connection_pool := pool\<rparr>) = holdings s" "pledges (s\<lparr>connection_pool := pool\<rparr>) = pledges s"
  "holdings (s\<lparr>lock_txs := l\<rparr>) = holdings s"
  "holdings (s\<lparr>lock_txs_broadcast := b\<rparr>) = holdings s"
  "holdings (s\<lparr>confirmed_lock_txs := c\<rparr>) = holdings s"
  "holdings (s\<lparr>signed_txs := x\<rparr>) = holdings s"
  "holdings (s\<lparr>adaptor_points := p\<rparr>) = holdings s"
  "holdings (s\<lparr>adaptor_sigs := a\<rparr>) = holdings s"
  "holdings (s\<lparr>schnorr_nonces := n\<rparr>) = holdings s"
  "holdings (s\<lparr>partial_sigs := q, musig_sessions := m\<rparr>) = holdings s"
  "holdings (s\<lparr>partial_sigs := q\<rparr>) = holdings s"
  "holdings (s\<lparr>unsigned_txs := u, schnorr_nonces := n, musig_sessions := m\<rparr>) = holdings s"
  "pledges (s\<lparr>adaptor_secrets := z\<rparr>) = pledges s"
  by (simp_all add: holdings_def pledges_def)

text \<open>The messages about them: commitments, nonces and secrets.\<close>

definition confides :: "wire_message \<Rightarrow> bool" where
  "confides m = (case m of LeaderElectionCommitment _ \<Rightarrow> True | LeaderElectionNonce _ \<Rightarrow> True
     | SecretReveal _ \<Rightarrow> True | _ \<Rightarrow> False)"

text \<open>An effect that tells nobody about them, and starts no poller.\<close>

definition reticent :: "effect \<Rightarrow> bool" where
  "reticent e = (case e of TcpWrite _ v _ _ \<Rightarrow> \<not> confides (env_msg v) | PollerSpawned _ _ \<Rightarrow> False
     | PollerAborted _ _ \<Rightarrow> False | _ \<Rightarrow> True)"

lemma confides_simps [simp]:
  "\<not> confides (AdaptorPoint p)" "confides (LeaderElectionCommitment c)" "confides (LeaderElectionNonce n)"
  "\<not> confides (SchnorrNonce r x)" "\<not> confides (PartialSignature r x)" "\<not> confides LockTxBroadcast"
  "confides (SecretReveal x)" "\<not> confides SpendTxBroadcast"
  by (simp_all add: confides_def)

lemma reticent_simps [simp]:
  "reticent (TcpWrite a v b k) = (\<not> confides (env_msg v))"
  "reticent (Http rq r)" "reticent (GrpcSubmit u x k)" "reticent (RandomBytes x)"
  "reticent (TcpConnect a k)" "\<not> reticent (PollerSpawned i p)" "\<not> reticent (PollerAborted i p)"
  by (simp_all add: reticent_def)

abbreviation discreet :: "'a act \<Rightarrow> bool" where
  "discreet m \<equiv> emits reticent m"

lemma discreet_announce: "\<not> confides m \<Longrightarrow> discreet (announce E s me m)"
  by (rule emits_announce) (simp_all add: envelope_new_def)

text \<open>The contract of an operation that neither changes nor tells them.\<close>

locale reserved =
  fixes f :: "session \<Rightarrow> session act"
  assumes keeps_holdings: "unchanged holdings (\<lambda>x. x) s (f s)"
    and discreet_op: "discreet (f s)"
begin

lemma holdings_from: "holdings s = holdings s0 \<Longrightarrow> unchanged holdings (\<lambda>x. x) s0 (f s)"
  by (rule unchanged_from [OF _ keeps_holdings])

lemma keeps_pledges: "unchanged pledges (\<lambda>x. x) s (f s)"
  by (rule unchanged_view [OF keeps_holdings pledges_of_holdings])

end

interpretation reserved_announcement: reserved "broadcast_adaptor_point E" for E
proof unfold_locales
  fix s
  show "unchanged holdings (\<lambda>x. x) s (broadcast_adaptor_point E s)"
    unfolding broadcast_adaptor_point_def
    by (auto intro!: unchanged_bind_lift unchanged_announce split: prod.splits)
  show "discreet (broadcast_adaptor_point E s)"
    unfolding broadcast_adaptor_point_def by (intro emits_rules discreet_announce) simp
qed

lemma open_round_holdings:
  "holdings s = holdings s0 \<Longrightarrow>
   unchanged holdings (\<lambda>x. x) s0 (open_signing_round E keys me pks idx role tw h m s)"
  unfolding open_signing_round_def Let_def by (intro unchanged_bind_any unchanged_announce) simp_all

lemma discreet_open_round: "discreet (open_signing_round E keys me pks idx role tw h m s)"
  unfolding open_signing_round_def Let_def by (intro emits_bind emits_random discreet_announce) simp_all

interpretation reserved_refund_signing: reserved "\<lambda>s. begin_refund_signing E s keys" for E keys
proof unfold_locales
  fix s
  show "unchanged holdings (\<lambda>x. x) s (begin_refund_signing E s keys)"
    unfolding begin_refund_signing_def refund_step_def Let_def
    by (intro unchanged_bind_lift unchanged_fold)
      (auto intro!: unchanged_bind_lift open_round_holdings split: prod.splits)
  show "discreet (begin_refund_signing E s keys)"
    unfolding begin_refund_signing_def refund_step_def Let_def by (intro emits_rules emits_fold discreet_open_round)
qed

interpretation reserved_spend_signing: reserved "\<lambda>s. begin_spend_signing E s keys" for E keys
proof unfold_locales
  fix s
  show "unchanged holdings (\<lambda>x. x) s (begin_spend_signing E s keys)"
    unfolding begin_spend_signing_def spend_step_def Let_def
    by (intro unchanged_bind_lift unchanged_fold)
      (auto intro!: unchanged_bind_lift open_round_holdings split: prod.splits)
  show "discreet (begin_spend_signing E s keys)"
    unfolding begin_spend_signing_def spend_step_def Let_def by (intro emits_rules emits_fold discreet_open_round)
qed

interpretation reserved_second_round: reserved "\<lambda>s. transition_to_round_two E s keys role" for E keys role
proof unfold_locales
  fix s
  show "unchanged holdings (\<lambda>x. x) s (transition_to_round_two E s keys role)"
    unfolding transition_to_round_two_def
    by (auto intro!: unchanged_bind_lift unchanged_announce unchanged_ret
        split: option.splits musig_runtime.splits)
  show "discreet (transition_to_round_two E s keys role)"
    unfolding transition_to_round_two_def
    by (auto intro!: emits_bind_lift discreet_announce split: option.splits musig_runtime.splits)
qed

interpretation reserved_finalization: reserved "\<lambda>s. finalize_role E s keys role cfg" for E keys role cfg
proof unfold_locales
  fix s
  show "unchanged holdings (\<lambda>x. x) s (finalize_role E s keys role cfg)"
    unfolding finalize_role_def
    by (auto intro!: unchanged_bind_any unchanged_ret
        split: option.splits musig_runtime.splits crypto_result.splits)
  show "discreet (finalize_role E s keys role cfg)"
    unfolding finalize_role_def
    by (auto intro!: emits_bind_lift emits_bind emits_attach_sig
        split: option.splits musig_runtime.splits crypto_result.splits)
qed

interpretation reserved_adaptation: reserved "\<lambda>s. adapt_role_with E s role secret cfg" for E role secret cfg
proof unfold_locales
  fix s
  show "unchanged holdings (\<lambda>x. x) s (adapt_role_with E s role secret cfg)"
    unfolding adapt_role_with_def by (intro unchanged_bind_any unchanged_ret) simp
  show "discreet (adapt_role_with E s role secret cfg)"
    unfolding adapt_role_with_def by (intro emits_rules emits_attach_sig) simp
qed

interpretation reserved_adapt_role: reserved "\<lambda>s. adapt_role E s role cfg" for E role cfg
  by unfold_locales
    (auto simp: adapt_role_def intro!: unchanged_bind_lift emits_bind_lift
      reserved_adaptation.keeps_holdings reserved_adaptation.discreet_op)

interpretation reserved_spend: reserved "\<lambda>s. broadcast_my_spend_tx E s keys cfg" for E keys cfg
proof unfold_locales
  fix s
  show "unchanged holdings (\<lambda>x. x) s (broadcast_my_spend_tx E s keys cfg)"
    unfolding broadcast_my_spend_tx_def Let_def
    by (auto intro!: unchanged_bind_any unchanged_ret split: option.splits blockchain.splits)
  show "discreet (broadcast_my_spend_tx E s keys cfg)" by (rule emits_broadcast_spend) simp_all
qed

interpretation reserved_fund: reserved "fund E cfg keys" for E cfg keys
proof unfold_locales
  fix s
  have a: "unchanged holdings snd s (bind (announce E (s\<lparr>lock_txs_broadcast := b\<rparr>) me msg) (\<lambda>s'. ret (True, s')))"
    for s b me msg
    by (rule unchanged_bind [OF unchanged_announce [where g = holdings]]) (simp_all add: unchanged_def wp_ret)
  have l: "unchanged holdings snd s (broadcast_my_lock_tx E s keys cfg)" for s
    unfolding broadcast_my_lock_tx_def by (intro unchanged_bind_any unchanged_if a unchanged_ret) simp
  show "unchanged holdings (\<lambda>x. x) s (fund E cfg keys s)"
    unfolding fund_def Let_def by (rule unchanged_bind [OF l]) (auto intro!: unchanged_ret split: prod.splits)
  show "discreet (fund E cfg keys s)"
    unfolding fund_def broadcast_my_lock_tx_def Let_def
    by (intro emits_rules emits_submit_my_lock discreet_announce) simp_all
qed

lemma refund_holdings: "unchanged holdings snd s (broadcast_my_refund_tx E s keys cfg)"
  unfolding broadcast_my_refund_tx_def Let_def
  by (auto intro!: unchanged_bind_any unchanged_ret split: option.splits blockchain.splits)

interpretation reserved_lock_check: reserved "\<lambda>s. check_lock_tx_confirmed E s pid cfg" for E pid cfg
proof unfold_locales
  fix s
  show "unchanged holdings (\<lambda>x. x) s (check_lock_tx_confirmed E s pid cfg)"
    unfolding check_lock_tx_confirmed_def by (intro unchanged_bind_any unchanged_ret) simp
  show "discreet (check_lock_tx_confirmed E s pid cfg)" by (rule emits_check_lock) simp
qed

text \<open>Locks are built without touching them; the extraction stores a secret under the leader's id.\<close>

lemma build_lock_txs_holdings:
  assumes "build_lock_txs E s cfg = Inr s'"
  shows "holdings s' = holdings s"
proof -
  obtain addr agg where fold: "res_fold (\<lambda>st (pid, p).
      res_bind (lock_tx_hex_for E st cfg addr agg pid p) (\<lambda>h.
      Inr (st\<lparr>lock_txs := hm_insert pid h (lock_txs st)\<rparr>))) s (participants s) = Inr s'"
    using assms by (fastforce simp: build_lock_txs_def res_bind_Inr)
  show ?thesis
    by (rule res_fold_invariant [OF _ _ fold]) (auto simp: res_bind_Inr split: prod.splits)
qed

definition other_holdings :: "participant_id \<Rightarrow> session \<Rightarrow> (participant_id option \<times>
    (participant_id, bytes) btree \<times> (participant_id, bytes) btree) \<times> (participant_id \<Rightarrow> string option)" where
  "other_holdings l s = (pledges s, (hm_get (adaptor_secrets s))(l := None))"

lemma other_holdings_of: "holdings s = holdings s' \<Longrightarrow> other_holdings l s = other_holdings l s'"
  by (simp add: holdings_def other_holdings_def)

lemma extraction_holdings: "unchanged (other_holdings l) snd s (extract_secret_and_adapt E s l cfg)"
proof -
  have k: "unchanged (other_holdings l) (\<lambda>x. x) s (adapt_role_with E (s\<lparr>adaptor_secrets := hm_insert l x (adaptor_secrets s)\<rparr>) r y cfg)"
    for x r y
    by (rule unchanged_from [OF _ unchanged_view [OF reserved_adaptation.keeps_holdings other_holdings_of]])
      (simp_all add: other_holdings_def fun_eq_iff)
  have a: "unchanged (other_holdings l) (\<lambda>x. x) s (adapt_with_secret E s l x cfg)" for x
    unfolding adapt_with_secret_def Let_def
    by (intro unchanged_bind_lift unchanged_if k unchanged_ret) (simp add: other_holdings_def fun_eq_iff)
  show ?thesis
    unfolding extract_secret_and_adapt_def Let_def
    by (auto intro!: unchanged_bind_lift unchanged_bind_any [of _ _ _ _ "leader_signature E s l h cfg" for h]
        unchanged_ret unchanged_bind [OF a] split: option.splits)
qed

end
