(* ===== verification/Nonce_Safety.thy ===== *)
theory Nonce_Safety
  imports Peer_Props Session_Views
begin

text \<open>
  The secret nonces of the signing rounds: a nonce is stored when a round is opened, is used for one
  partial signature when the public nonces of all others are there, and is gone with that. No message
  of a peer makes the daemon sign with it again.
\<close>

section \<open>Signing\<close>

text \<open>The messages that carry a partial signature of a role.\<close>

definition signs :: "tx_role \<Rightarrow> effect \<Rightarrow> bool" where
  "signs role e = (case e of
       TcpWrite _ v _ _ \<Rightarrow> (case env_msg v of PartialSignature r _ \<Rightarrow> r = role | _ \<Rightarrow> False)
     | _ \<Rightarrow> False)"

lemma signs_simps [simp]:
  "signs role (TcpWrite a (envelope_new s p m) b k) = (case m of PartialSignature r _ \<Rightarrow> r = role | _ \<Rightarrow> False)"
  "\<not> signs role (Http rq r)" "\<not> signs role (GrpcSubmit u x k)" "\<not> signs role (RandomBytes x)"
  "\<not> signs role (TcpConnect a k)"
  by (simp_all add: signs_def)

text \<open>The interface of an operation that neither signs nor touches the signing rounds.\<close>

locale unsigning =
  fixes f :: "session \<Rightarrow> session act"
  assumes keeps_rounds: "unchanged musig_sessions (\<lambda>x. x) s (f s)"
    and never_signs: "emits (\<lambda>e. \<not> signs role e) (f s)"
begin

lemma rounds_after: "f s t = (Inr s', t') \<Longrightarrow> musig_sessions s' = musig_sessions s"
  using wp_Inr [OF keeps_rounds [unfolded unchanged_def, rule_format]] .

lemma rounds_from: "musig_sessions s = musig_sessions s0 \<Longrightarrow> unchanged musig_sessions (\<lambda>x. x) s0 (f s)"
  by (rule unchanged_from [OF _ keeps_rounds])

end

lemma announce_rounds: "musig_sessions s = musig_sessions s0 \<Longrightarrow> unchanged musig_sessions (\<lambda>x. x) s0 (announce E s me m)"
  unfolding unchanged_def by (rule allI, rule wp_mono [OF wp_announce]) auto

lemma announce_unsigned:
  "(\<And>x. m \<noteq> PartialSignature role x) \<Longrightarrow> emits (\<lambda>e. \<not> signs role e) (announce E s me m)"
  by (rule emits_announce) (auto split: wire_message.splits)

interpretation unsigning_election: unsigning "start_leader_election E" for E
  by unfold_locales
    (auto simp: start_leader_election_def Let_def
      intro!: unchanged_bind_any announce_rounds emits_bind_lift emits_bind emits_random announce_unsigned)

interpretation unsigning_nonce: unsigning "\<lambda>s. broadcast_leader_nonce E s nonce" for E nonce
  by unfold_locales
    (auto simp: broadcast_leader_nonce_def
      intro!: unchanged_bind_any announce_rounds emits_bind_lift emits_bind announce_unsigned)

interpretation unsigning_finalization: unsigning "\<lambda>s. finalize_role E s keys role' cfg" for E keys role' cfg
proof unfold_locales
  fix s role
  show "unchanged musig_sessions (\<lambda>x. x) s (finalize_role E s keys role' cfg)"
    unfolding finalize_role_def
    by (auto intro!: unchanged_bind_any unchanged_ret
        split: option.splits musig_runtime.splits crypto_result.splits)
  show "emits (\<lambda>e. \<not> signs role e) (finalize_role E s keys role' cfg)"
    unfolding finalize_role_def
    by (auto intro!: emits_bind_lift emits_bind emits_attach_sig
        split: option.splits musig_runtime.splits crypto_result.splits)
qed

interpretation unsigning_adaptation: unsigning "\<lambda>s. adapt_role E s role' cfg" for E role' cfg
proof unfold_locales
  fix s role
  show "unchanged musig_sessions (\<lambda>x. x) s (adapt_role E s role' cfg)"
    unfolding adapt_role_def adapt_role_with_def by (intro unchanged_bind_any unchanged_ret) simp
  show "emits (\<lambda>e. \<not> signs role e) (adapt_role E s role' cfg)"
    unfolding adapt_role_def adapt_role_with_def by (intro emits_rules emits_attach_sig) simp
qed

interpretation unsigning_spend: unsigning "\<lambda>s. broadcast_my_spend_tx E s keys cfg" for E keys cfg
proof unfold_locales
  fix s role
  show "unchanged musig_sessions (\<lambda>x. x) s (broadcast_my_spend_tx E s keys cfg)"
    unfolding broadcast_my_spend_tx_def Let_def
    by (auto intro!: unchanged_bind_any unchanged_ret split: option.splits blockchain.splits)
  show "emits (\<lambda>e. \<not> signs role e) (broadcast_my_spend_tx E s keys cfg)"
    by (rule emits_broadcast_spend) simp_all
qed

interpretation unsigning_fund: unsigning "fund E cfg keys" for E cfg keys
proof unfold_locales
  fix s role
  have a: "wp (announce E (x\<lparr>lock_txs_broadcast := b\<rparr>) me LockTxBroadcast) (\<lambda>_ _. True)
      (\<lambda>s' _. musig_sessions s' = musig_sessions x) t" for x b me t
    by (rule wp_mono [OF wp_announce]) auto
  have l: "wp (broadcast_my_lock_tx E x keys cfg) (\<lambda>_ _. True) (\<lambda>y _. musig_sessions (snd y) = musig_sessions x) t" for x t
    unfolding broadcast_my_lock_tx_def
    by (simp add: wp_simps split: sum.splits) (auto intro!: wp_mono [OF wp_True] wp_mono [OF a] simp: wp_simps)
  show "unchanged musig_sessions (\<lambda>x. x) s (fund E cfg keys s)"
    unfolding fund_def Let_def unchanged_def wp_bind
    by (rule allI, rule wp_mono [OF l]) (auto simp: wp_ret)
  show "emits (\<lambda>e. \<not> signs role e) (fund E cfg keys s)"
    unfolding fund_def broadcast_my_lock_tx_def Let_def
    by (intro emits_rules emits_submit_my_lock announce_unsigned) simp_all
qed

lemma opening_unsigned:
  "emits (\<lambda>e. \<not> signs role e) (begin_refund_signing E s keys)"
  "emits (\<lambda>e. \<not> signs role e) (begin_spend_signing E s keys)"
proof -
  have "emits (\<lambda>e. \<not> signs role e) (open_signing_round E keys me pks idx role' tw h m s)" for me pks idx role' tw h m s
    unfolding open_signing_round_def Let_def by (intro emits_bind emits_random announce_unsigned) simp_all
  then show "emits (\<lambda>e. \<not> signs role e) (begin_refund_signing E s keys)"
    "emits (\<lambda>e. \<not> signs role e) (begin_spend_signing E s keys)"
    unfolding begin_refund_signing_def begin_spend_signing_def refund_step_def spend_step_def Let_def
    by (intro emits_rules emits_fold; simp)+
qed

section \<open>The handlers\<close>

text \<open>The handlers of all messages but the public nonces.\<close>

interpretation unsigning_point: unsigning "\<lambda>s. on_adaptor_point E s pnt pid" for E pnt pid
proof unfold_locales
  fix s role
  show "unchanged musig_sessions (\<lambda>x. x) s (on_adaptor_point E s pnt pid)"
    unfolding on_adaptor_point_def Let_def
    by (intro unchanged_if unchanged_bind_lift unchanged_ret unsigning_election.rounds_from) simp_all
  show "emits (\<lambda>e. \<not> signs role e) (on_adaptor_point E s pnt pid)"
    unfolding on_adaptor_point_def Let_def by (intro emits_rules unsigning_election.never_signs)
qed

interpretation unsigning_commitment: unsigning "\<lambda>s. on_leader_commitment E s c pid" for E c pid
proof unfold_locales
  fix s role
  have start: "unchanged musig_sessions (\<lambda>x. x) s (if b then bind (start_leader_election E s)
      (\<lambda>s1. ret (transition_to AwaitingLeaderElectionCommitments s1)) else ret s)" for b
    by (intro unchanged_if unchanged_bind [OF unsigning_election.keeps_rounds] unchanged_ret) simp_all
  show "unchanged musig_sessions (\<lambda>x. x) s (on_leader_commitment E s c pid)"
    unfolding on_leader_commitment_def Let_def
    by (intro unchanged_bind_lift unchanged_bind [OF start] unchanged_if unchanged_ret
        unchanged_bind [OF unsigning_nonce.keeps_rounds])
      (simp_all add: received_leader_commitment_def)
  show "emits (\<lambda>e. \<not> signs role e) (on_leader_commitment E s c pid)"
    unfolding on_leader_commitment_def Let_def
    by (intro emits_rules unsigning_election.never_signs unsigning_nonce.never_signs)
qed

interpretation unsigning_partial: unsigning "\<lambda>s. on_partial_signature E cfg keys s role' sg pid"
  for E cfg keys role' sg pid
proof unfold_locales
  fix s :: session and role
  let ?s1 = "s\<lparr>partial_sigs := hm_insert2 pid role' sg (partial_sigs s)\<rparr>"
  have a: "unchanged musig_sessions (\<lambda>x. x) ?s1 (if b then finalize_role E ?s1 keys role' cfg else ret ?s1)" for b
    by (intro unchanged_if unsigning_finalization.keeps_rounds unchanged_ret) simp
  show "unchanged musig_sessions (\<lambda>x. x) s (on_partial_signature E cfg keys s role' sg pid)"
    unfolding on_partial_signature_def Let_def
    by (intro unchanged_bind [OF a] unchanged_if unsigning_fund.rounds_from unchanged_ret) simp_all
  show "emits (\<lambda>e. \<not> signs role e) (on_partial_signature E cfg keys s role' sg pid)"
    unfolding on_partial_signature_def Let_def
    by (intro emits_rules unsigning_finalization.never_signs unsigning_fund.never_signs)
qed

interpretation unsigning_reveal: unsigning "\<lambda>s. on_secret_reveal E cfg keys s sec pid" for E cfg keys sec pid
proof unfold_locales
  fix s role
  have a: "unchanged musig_sessions (\<lambda>x. x) x (if b then adapt_role E x r cfg else ret x)" for x b r
    by (intro unchanged_if unsigning_adaptation.keeps_rounds unchanged_ret) simp
  have c: "unchanged musig_sessions (\<lambda>x. x) x (leader_claims E cfg keys x me)" for x me
    unfolding leader_claims_def Let_def
    by (intro unchanged_bind [OF a] unchanged_bind [OF unsigning_spend.keeps_rounds]
        unchanged_bind [OF announce_rounds] unchanged_ret) simp_all
  show "unchanged musig_sessions (\<lambda>x. x) s (on_secret_reveal E cfg keys s sec pid)"
    unfolding on_secret_reveal_def Let_def
    by (intro unchanged_if unchanged_bind_lift unchanged_ret unchanged_from [OF _ c]) simp_all
  show "emits (\<lambda>e. \<not> signs role e) (on_secret_reveal E cfg keys s sec pid)"
    unfolding on_secret_reveal_def leader_claims_def Let_def
    by (intro emits_rules unsigning_adaptation.never_signs unsigning_spend.never_signs announce_unsigned) simp_all
qed

text \<open>A leader-election nonce opens the rounds, once: later there is always a round of some role.\<close>

lemma nonce_unsigned: "emits (\<lambda>e. \<not> signs role e) (on_leader_nonce E cfg keys s n pid)"
  unfolding on_leader_nonce_def by (intro emits_rules opening_unsigned)

lemma rounds_opened_once:
  "musig_sessions s \<noteq> [] \<Longrightarrow> unchanged musig_sessions (\<lambda>x. x) s (on_leader_nonce E cfg keys s n pid)"
  unfolding on_leader_nonce_def
  by (intro unchanged_bind_lift unchanged_if unchanged_ret) (auto simp: received_leader_nonce_Inr)

text \<open>The second round of a role uses up its nonce.\<close>

lemma round_two_other: "role' \<noteq> role \<Longrightarrow> emits (\<lambda>e. \<not> signs role e) (transition_to_round_two E s keys role')"
  unfolding transition_to_round_two_def
  by (auto intro!: emits_bind_lift announce_unsigned split: option.splits musig_runtime.splits)

lemma wp_round_two:
  "wp (transition_to_round_two E s keys role') (\<lambda>_ _. True) (\<lambda>s' t'.
     (\<forall>r. r \<noteq> role' \<longrightarrow> hm_get (musig_sessions s') r = hm_get (musig_sessions s) r) \<and>
     (case hm_get (musig_sessions s) role' of
        Some (RoundOne pks idx m tw n) \<Rightarrow> hm_get (musig_sessions s') role' = Some (RoundTwo pks idx m tw)
      | _ \<Rightarrow> s' = s \<and> t' = t)) t"
proof -
  have a: "wp (announce E (s\<lparr>partial_sigs := x, musig_sessions := hm_insert role' y (musig_sessions s)\<rparr>) me m) (\<lambda>_ _. True)
      (\<lambda>s' _. musig_sessions s' = hm_insert role' y (musig_sessions s)) t" for x y me m
    by (rule wp_mono [OF wp_announce]) auto
  show ?thesis
    unfolding transition_to_round_two_def
    by (auto simp: wp_simps split: option.splits musig_runtime.splits sum.splits intro!: wp_mono [OF a])
qed

section \<open>A secret nonce signs once\<close>

text \<open>What a message may do to the round of a role.\<close>

definition round_step :: "tx_role \<Rightarrow> session \<Rightarrow> trace \<Rightarrow> session \<Rightarrow> trace \<Rightarrow> bool" where
  "round_step role s t s' t' \<longleftrightarrow>
     (case hm_get (musig_sessions s) role of
        None \<Rightarrow> \<not> list_ex (signs role) (new_effects t t')
      | Some (RoundTwo pks idx m tw) \<Rightarrow>
          hm_get (musig_sessions s') role = Some (RoundTwo pks idx m tw) \<and>
          \<not> list_ex (signs role) (new_effects t t')
      | Some (RoundOne pks idx m tw n) \<Rightarrow>
          if list_ex (signs role) (new_effects t t')
          then hm_get (musig_sessions s') role = Some (RoundTwo pks idx m tw)
          else hm_get (musig_sessions s') role \<in>
            {Some (RoundOne pks idx m tw n), Some (RoundTwo pks idx m tw)})"

lemma round_step_quiet:
  assumes "emits (\<lambda>e. \<not> signs role e) m" and "m t = (r, t')"
    and "hm_get (musig_sessions s) role \<noteq> None \<Longrightarrow> hm_get (musig_sessions s') role = hm_get (musig_sessions s) role"
  shows "round_step role s t s' t'"
  using emits_new [OF assms(1,2)] assms(3)
  by (auto simp: round_step_def list_ex_iff list_all_iff split: option.splits musig_runtime.splits)

context unsigning
begin

lemma round_step_op: "f s t = (Inr s', t') \<Longrightarrow> round_step role s t s' t'"
  by (rule round_step_quiet [OF never_signs]) (simp_all add: rounds_after)

end

lemma round_step_schnorr:
  assumes "on_schnorr_nonce E keys s role' n pid t = (Inr s', t')"
  shows "round_step role s t s' t'"
proof -
  let ?s1 = "s\<lparr>schnorr_nonces := hm_insert2 pid role' n (schnorr_nonces s)\<rparr>"
  have q: "new_effects u u = []" for u using new_effects_append [of u "[]"] by simp
  show ?thesis
  proof (cases "all_schnorr_nonces_received_for ?s1 role'")
    case True
    then have run: "transition_to_round_two E ?s1 keys role' t = (Inr s', t')"
      using assms by (simp add: on_schnorr_nonce_def Let_def)
    note post = wp_Inr [OF wp_round_two run]
    show ?thesis
    proof (cases "role' = role")
      case True
      then show ?thesis
        using post by (auto simp: round_step_def q split: option.splits musig_runtime.splits)
    next
      case False
      then show ?thesis
        using post by (intro round_step_quiet [OF round_two_other [OF False] run]) simp
    qed
  next
    case False
    then have "s' = ?s1" "t' = t" using assms by (simp_all add: on_schnorr_nonce_def Let_def ret_def)
    then show ?thesis by (auto simp: round_step_def q split: option.splits musig_runtime.splits)
  qed
qed

lemma round_step_refl: "musig_sessions s' = musig_sessions s \<Longrightarrow> round_step role s t s' t"
  by (rule round_step_quiet [OF emits_ret, of s' t]) (simp_all add: ret_def)

lemma round_step_message:
  assumes run: "handle_session_message E cfg keys s m pid t = (Inr s', t')"
  shows "round_step role s t s' t'"
proof (cases "terminal (state s)")
  case True
  then show ?thesis using run by (auto simp: handle_session_message_def ret_def intro: round_step_refl)
next
  case False
  show ?thesis
  proof (cases m)
    case (LeaderElectionNonce n)
    then have h: "on_leader_nonce E cfg keys s n pid t = (Inr s', t')"
      using run False by (simp add: handle_session_message_def)
    show ?thesis
    proof (rule round_step_quiet [OF nonce_unsigned h])
      assume "hm_get (musig_sessions s) role \<noteq> None"
      then have "musig_sessions s \<noteq> []" by auto
      from wp_Inr [OF rounds_opened_once [OF this, unfolded unchanged_def, rule_format] h]
      show "hm_get (musig_sessions s') role = hm_get (musig_sessions s) role" by simp
    qed
  qed (use run False in \<open>auto simp: handle_session_message_def ret_def on_lock_tx_broadcast_def
      intro: round_step_refl round_step_schnorr unsigning_point.round_step_op
        unsigning_commitment.round_step_op unsigning_partial.round_step_op unsigning_reveal.round_step_op\<close>)
qed

text \<open>In its second round a role is not signed for again, also when the handler panics.\<close>

definition in_round_two :: "tx_role \<Rightarrow> session \<Rightarrow> bool" where
  "in_round_two role s \<longleftrightarrow> (\<exists>pks idx m tw. hm_get (musig_sessions s) role = Some (RoundTwo pks idx m tw))"

lemma round_two_quiet:
  assumes "in_round_two role s"
  shows "emits (\<lambda>e. \<not> signs role e) (handle_session_message E cfg keys s m pid)"
proof -
  have "emits (\<lambda>e. \<not> signs role e) (on_schnorr_nonce E keys s role' n pid)" for role' n
  proof (cases "role' = role")
    case True
    then show ?thesis
      using assms by (auto simp: on_schnorr_nonce_def Let_def in_round_two_def round_two_needs_round_one)
  next
    case False
    then show ?thesis
      unfolding on_schnorr_nonce_def Let_def by (intro emits_if round_two_other emits_ret)
  qed
  then show ?thesis
    unfolding handle_session_message_def
    by (cases m) (auto intro: nonce_unsigned unsigning_point.never_signs unsigning_commitment.never_signs
        unsigning_partial.never_signs unsigning_reveal.never_signs)
qed

lemma round_two_kept:
  assumes "in_round_two role s"
  shows "wp (handle_session_message E cfg keys s m pid) (\<lambda>_ _. True) (\<lambda>s' _. in_round_two role s') t"
  using assms round_step_message [of E cfg keys s m pid t _ _ role]
  by (fastforce simp: wp_def in_round_two_def round_step_def split: prod.splits sum.splits)

lemma emits_fold_invariant:
  assumes "J s" and "\<And>s x. J s \<Longrightarrow> emits P (f s x)"
    and "\<And>s x t. J s \<Longrightarrow> wp (f s x) (\<lambda>_ _. True) (\<lambda>s' _. J s') t"
  shows "emits P (io_fold f s xs)"
  using assms(1)
proof (induction xs arbitrary: s)
  case Nil
  then show ?case by simp
next
  case (Cons x xs)
  then show ?case
    unfolding io_fold.simps by (intro emits_bind_post [OF assms(2) assms(3)])
qed

text \<open>
  C4: a secret signing nonce is used once. When handling a message sends a partial signature for a
  role, the round of the role held its secret nonce before, and holds none afterwards; and whatever
  messages follow, with any content, in any order, and whether or not handling them panics, no
  partial signature for that role is sent again.
\<close>

theorem signing_nonce_used_once:
  assumes "handle_session_message E cfg keys s m pid t = (Inr s1, t1)"
    and "list_ex (signs role) (new_effects t t1)"
    and "io_fold (\<lambda>s (m, pid). handle_session_message E cfg keys s m pid) s1 ms t1 = (r, t2)"
  shows "(\<exists>pks idx msg tw n. hm_get (musig_sessions s) role = Some (RoundOne pks idx msg tw n) \<and>
      hm_get (musig_sessions s1) role = Some (RoundTwo pks idx msg tw)) \<and>
    \<not> list_ex (signs role) (new_effects t1 t2)"
proof -
  have one: "\<exists>pks idx msg tw n. hm_get (musig_sessions s) role = Some (RoundOne pks idx msg tw n) \<and>
      hm_get (musig_sessions s1) role = Some (RoundTwo pks idx msg tw)"
    using round_step_message [OF assms(1), of role] assms(2)
    by (auto simp: round_step_def split: option.splits musig_runtime.splits)
  then have two: "in_round_two role s1" by (auto simp: in_round_two_def)
  have "emits (\<lambda>e. \<not> signs role e) (io_fold (\<lambda>s (m, pid). handle_session_message E cfg keys s m pid) s1 ms)"
    by (rule emits_fold_invariant [where J = "in_round_two role", OF two])
      (auto intro: round_two_quiet round_two_kept)
  from emits_new [OF this assms(3)] one show ?thesis by (auto simp: list_ex_iff list_all_iff)
qed

text \<open>The public nonce of the peer for the refund of participant 1, and then the same message twice.\<close>

theorem signing_nonce_used_once_witness:
  "\<exists>s1 t1 r t2. handle_session_message swap_env sample_config sample_keys (swap_session 3) (SchnorrNonce (Refund 1) ''05'') 2 [] =
       (Inr s1, t1) \<and> list_ex (signs (Refund 1)) t1 \<and>
     io_fold (\<lambda>s (m, pid). handle_session_message swap_env sample_config sample_keys s m pid) s1
       [(SchnorrNonce (Refund 1) ''05'', 2), (SchnorrNonce (Refund 1) ''05'', 2)] t1 = (r, t2) \<and>
     \<not> list_ex (signs (Refund 1)) (new_effects t1 t2)"
proof -
  let ?x = "handle_session_message swap_env sample_config sample_keys (swap_session 3) (SchnorrNonce (Refund 1) ''05'') 2 []"
  have "(case fst ?x of Inr _ \<Rightarrow> True | Inl _ \<Rightarrow> False) \<and> list_ex (signs (Refund 1)) (snd ?x)" by code_simp
  then obtain s1 t1 where run: "?x = (Inr s1, t1)" and sg: "list_ex (signs (Refund 1)) t1"
    by (cases ?x) (auto split: sum.splits)
  obtain r t2 where rest: "io_fold (\<lambda>s (m, pid). handle_session_message swap_env sample_config sample_keys s m pid) s1
       [(SchnorrNonce (Refund 1) ''05'', 2), (SchnorrNonce (Refund 1) ''05'', 2)] t1 = (r, t2)"
    by (rule prod.exhaust)
  have "new_effects [] t1 = t1" using new_effects_append [of "[]" t1] by simp
  with signing_nonce_used_once [OF run _ rest] sg run rest show ?thesis by auto
qed

end
