(* ===== verification/Claim_Props.thy ===== *)
theory Claim_Props
  imports Course_Props Tx_Props
begin

text \<open>
  Properties of the stores of a session, of what a peer can write into them, and of the follower's
  claim once the leader has spent.
\<close>

section \<open>The stores of a session\<close>



section \<open>Forged messages\<close>

text \<open>
  C33: a peer can replace the daemon's own secret. The envelope's participant is not authenticated: a
  \<open>SecretReveal\<close> that names the daemon itself, in any session that is not over, replaces
  the daemon's own adaptor secret by the sender's value, unless it completes the secrets; and
  when all locks are confirmed, the value the daemon then reveals to the others is the forged one.
\<close>

theorem forged_reveal_replaces_own_secret:
  assumes "\<not> terminal (state s)" and "get_my_id (participants s) = Inr me"
    and "\<exists>k \<in> members (participants s). k \<noteq> me \<and> hm_get (adaptor_secrets s) k = None"
  shows "\<exists>s'. handle_session_message E cfg keys s (SecretReveal x) me t = (Inr s', t) \<and>
    hm_get (adaptor_secrets s') me = Some x \<and> state s' = state s \<and>
    (\<forall>sid d r u u'. locks_confirmed E sid s' d u = (r, u') \<longrightarrow>
       (\<forall>e \<in> set (new_effects u u'). reveals e \<longrightarrow>
          (\<exists>a b k. e = TcpWrite a (envelope_new (sess_id s) me (SecretReveal x)) b k)))"
proof -
  let ?s = "s\<lparr>adaptor_secrets := hm_insert me x (adaptor_secrets s)\<rparr>"
  have "\<not> all_adaptor_secrets_received ?s" using assms(3) by (auto simp: all_adaptor_secrets_iff)
  then have run: "handle_session_message E cfg keys s (SecretReveal x) me t = (Inr ?s, t)"
    using assms(1) by (simp add: handle_session_message_def on_secret_reveal_def Let_def ret_def)
  have "\<exists>a b k. e = TcpWrite a (envelope_new (sess_id s) me (SecretReveal x)) b k"
    if "locks_confirmed E sid ?s d u = (r, u')" "e \<in> set (new_effects u u')" "reveals e" for sid d r u u' e
    using emits_new [OF emits_locks_confirmed that(1)] that(2,3) assms(2)
    by (auto simp: list_all_iff reveals_own_def)
  with run show ?thesis by (intro exI [of _ ?s]) simp
qed

theorem forged_reveal_replaces_own_secret_witness:
  "\<exists>s'. handle_session_message swap_env sample_config sample_keys (swap_session 11) (SecretReveal ''01'') 1 [] =
       (Inr s', []) \<and> hm_get (adaptor_secrets s') 1 = Some ''01''"
proof -
  have "\<not> terminal (state (swap_session 11)) \<and> get_my_id (participants (swap_session 11)) = Inr 1 \<and>
      list_ex (\<lambda>k. k \<noteq> 1 \<and> hm_get (adaptor_secrets (swap_session 11)) k = None) (bt_keys (participants (swap_session 11)))"
    by code_simp
  then have f: "\<not> terminal (state (swap_session 11))" "get_my_id (participants (swap_session 11)) = Inr 1"
    "\<exists>k \<in> members (participants (swap_session 11)). k \<noteq> 1 \<and> hm_get (adaptor_secrets (swap_session 11)) k = None"
    by (auto simp: list_ex_iff)
  from forged_reveal_replaces_own_secret [OF f] show ?thesis by blast
qed

section \<open>The follower's claim\<close>


definition claim_session :: session where
  "claim_session = new_session\<lparr>leader := Some 2, lock_txs := [(1, ''b1''), (2, ''b1'')],
     unsigned_txs := [(Spend 1, ''b1''), (Spend 2, ''b1'')],
     adaptor_sigs := [(Spend 1, ''0203''), (Spend 2, ''0203'')], state := AwaitingLeaderSpend\<rparr>"

definition claim_env :: env where
  "claim_env = sample_env (answering (JObject [(''spent'', JBool True)]) ''b2'')"


section \<open>An honest swap\<close>

text \<open>
  The same swap from the side of one daemon: an honest swap gets through. With two participants, an honest peer and chains that confirm, the
  event loop handles the fourteen events of the swap without a panic and passes through all states up
  to the wait for the leader's claim; on the way it has submitted its lock once, after the last
  partial signature, and revealed its secret, as the last thing.
\<close>

theorem honest_swap_gets_through:
  "\<exists>d' t' s'. event_loop swap_env (fst swap_started) swap_events (snd swap_started) = (Inr d', t') \<and>
     hm_get (sessions d') 7 = Some s' \<and>
     state_history s' = [Initialized, AwaitingAdaptorPoints, AwaitingLeaderElectionCommitments,
       AwaitingLeaderElectionNonces, RefundAndSpendTxsSigning, Funding, AwaitingLockConfirmations,
       AwaitingLeaderSpend] \<and>
     length (filter submits t') = 1 \<and> length (filter reveals t') = 1 \<and>
     all_partial_sigs_received_for_all_refund_and_spend_txs s'"
proof -
  have "(case run_events swap_env swap_events swap_started of None \<Rightarrow> False
     | Some (d', t') \<Rightarrow> length (filter submits t') = 1 \<and> length (filter reveals t') = 1 \<and>
         (case hm_get (sessions d') 7 of None \<Rightarrow> False
          | Some s' \<Rightarrow> all_partial_sigs_received_for_all_refund_and_spend_txs s' \<and> state_history s' =
            [Initialized, AwaitingAdaptorPoints, AwaitingLeaderElectionCommitments,
             AwaitingLeaderElectionNonces, RefundAndSpendTxsSigning, Funding, AwaitingLockConfirmations,
             AwaitingLeaderSpend]))"
    by code_simp
  then obtain d' t' where "run_events swap_env swap_events (fst swap_started, snd swap_started) = Some (d', t')"
    and "case hm_get (sessions d') 7 of None \<Rightarrow> False
          | Some s' \<Rightarrow> all_partial_sigs_received_for_all_refund_and_spend_txs s' \<and> state_history s' =
            [Initialized, AwaitingAdaptorPoints, AwaitingLeaderElectionCommitments,
             AwaitingLeaderElectionNonces, RefundAndSpendTxsSigning, Funding, AwaitingLockConfirmations,
             AwaitingLeaderSpend]"
    and "length (filter submits t') = 1" "length (filter reveals t') = 1"
    by (auto split: option.splits prod.splits)
  moreover from this obtain s' where "hm_get (sessions d') 7 = Some s'" by (auto split: option.splits)
  ultimately show ?thesis using run_events_loop by (intro exI conjI) (auto split: option.splits)
qed

section \<open>Cardano spends\<close>

text \<open>
  The unsigned spend of a Cardano lock takes the first output of the target's own lock transaction,
  pays its value less the fixed fee of two ADA in a single output, and is signed over the id of that
  lock.
\<close>

theorem cardano_spend_transaction:
  assumes "builder_keeps (csl E)" and "overflow_checks E"
    and "spend_unsigned_cardano E s pid tid p = Inr (h, m)"
  shows "\<exists>lock_hex b lock o0 tx out. hm_get (lock_txs s) tid = Some lock_hex \<and>
    hex_decode E lock_hex = Some b \<and> fixed_tx_hash (csl E) b = Some m \<and>
    car_from_bytes (csl E) b = Some lock \<and> cb_outputs (ct_body lock) \<noteq> [] \<and>
    o0 = hd (cb_outputs (ct_body lock)) \<and> h = encode_car_tx E tx \<and>
    cb_inputs (ct_body tx) = [(m, 0)] \<and> cb_outputs (ct_body tx) = [out] \<and>
    unat (co_value out) + 2000000 = unat (co_value o0)"
  by (rule spend_unsigned_cardano_fields [OF assms(1,3,2)])

theorem cardano_spend_transaction_witness:
  "\<exists>h m (out :: car_output). spend_unsigned_cardano swap_env (new_session\<lparr>lock_txs := [(2, ''01'')]\<rparr>) 1 2 (swap_member 1 2 True) = Inr (h, m) \<and>
     m = [1] \<and> unat (co_value out) + 2000000 = 900000000"
proof -
  let ?x = "spend_unsigned_cardano swap_env (new_session\<lparr>lock_txs := [(2, ''01'')]\<rparr>) 1 2 (swap_member 1 2 True)"
  have d: "hex_decode swap_env ''01'' = Some [1]" by code_simp
  have "\<exists>h. ?x = Inr (h, [1])"
    by (simp add: spend_unsigned_cardano_def hm_get_def new_session_def session_literal_def d)
      (simp add: swap_env_def sample_env_def sample_csl_def index_list_def sample_car_tx_def build_spend_tx_def
        build_output_def cardano_address_from_ed25519_def set_collateral_opt_def new_tx_body_def sub_chk_def
        cardano_spend_fee_def swap_member_def Let_def)
  then obtain h where run: "?x = Inr (h, [1])" by blast
  have "builder_keeps (csl swap_env)" "overflow_checks swap_env"
    using sample_csl_keeps by (simp_all add: swap_env_def sample_env_def)
  from cardano_spend_transaction [OF this run] d
  have "\<exists>lock (out :: car_output). car_from_bytes (csl swap_env) [1] = Some lock \<and>
      unat (co_value out) + 2000000 = unat (co_value (hd (cb_outputs (ct_body lock))))"
    by (auto simp: hm_get_def)
  then obtain lock and out :: car_output where "car_from_bytes (csl swap_env) [1] = Some lock"
    "unat (co_value out) + 2000000 = unat (co_value (hd (cb_outputs (ct_body lock))))" by blast
  then have "unat (co_value out) + 2000000 = 900000000"
    by (auto simp: swap_env_def sample_env_def sample_csl_def sample_car_tx_def)
  then show ?thesis using run by blast
qed

end
