(* ===== verification/Honest_Peers.thy ===== *)
theory Honest_Peers
  imports Session_Views Daemon_Runs
begin

text \<open>
  What a daemon tells its peers about the election and about its secret, and that it keeps its
  word: its commitment, its nonce and, once it has a leader, its leader stay what it has told, as long
  as the messages it receives in a participant's name are credible.
\<close>

section \<open>What has been said\<close>

text \<open>The envelopes about the election and the secrets that a trace has written to anyone.\<close>

definition said :: "trace \<Rightarrow> envelope set" where
  "said t = {v. \<exists>a b k. TcpWrite a v b k \<in> set t \<and> confides (env_msg v)}"

lemma said_append [simp]: "said (new @ t) = said new \<union> said t"
  by (auto simp: said_def)

lemma said_Nil [simp]: "said [] = {}"
  by (simp add: said_def)

lemma said_discreet: "grown reticent t t' \<Longrightarrow> said t' = said t"
proof -
  assume "grown reticent t t'"
  then obtain new where t': "t' = new @ t" and n: "\<And>e. e \<in> set new \<Longrightarrow> reticent e"
    by (auto simp: grown_def list_all_iff)
  have "said new = {}" using n by (fastforce simp: said_def)
  then show ?thesis by (simp add: t')
qed

lemma said_broadcast: "list_all (broadcast_effect as v) new \<Longrightarrow> said new \<subseteq> {v}"
  by (auto simp: said_def list_all_iff)

lemma wp_discreet: "discreet m \<Longrightarrow> wp m (\<lambda>_ t'. said t' = said t) (\<lambda>_ t'. said t' = said t) t"
  by (rule wp_mono [OF wp_emits_only]) (assumption, erule said_discreet, erule said_discreet)

locale reserved_op = session_op f + reserved f for f
begin

lemma wp_reserved:
  "wp (f s) (\<lambda>_ t'. said t' = said t)
     (\<lambda>s' t'. participants s' = participants s \<and> sess_id s' = sess_id s \<and> holdings s' = holdings s \<and>
        said t' = said t) t"
  by (rule wp_mono [OF wp_conj [OF wp_discreet [OF discreet_op] wp_conj [OF op_evolves
      keeps_holdings [unfolded unchanged_def, rule_format]]]]) (auto simp: evolves_D)

end

interpretation told_refund_signing: reserved_op "\<lambda>s. begin_refund_signing E s keys" for E keys ..

interpretation told_spend_signing: reserved_op "\<lambda>s. begin_spend_signing E s keys" for E keys ..

interpretation told_announcement: reserved_op "broadcast_adaptor_point E" for E ..

interpretation told_schnorr: reserved_op "\<lambda>s. on_schnorr_nonce E keys s role n pid" for E keys role n pid
proof unfold_locales
  fix s
  show "unchanged holdings (\<lambda>x. x) s (on_schnorr_nonce E keys s role n pid)"
    unfolding on_schnorr_nonce_def Let_def
    by (intro unchanged_if reserved_second_round.holdings_from unchanged_ret) simp_all
  show "discreet (on_schnorr_nonce E keys s role n pid)"
    unfolding on_schnorr_nonce_def Let_def by (intro emits_rules reserved_second_round.discreet_op)
qed

interpretation told_partial: reserved_op "\<lambda>s. on_partial_signature E cfg keys s role sg pid"
  for E cfg keys role sg pid
proof unfold_locales
  fix s :: session
  let ?s1 = "s\<lparr>partial_sigs := hm_insert2 pid role sg (partial_sigs s)\<rparr>"
  have a: "unchanged holdings (\<lambda>x. x) ?s1 (if b then finalize_role E ?s1 keys role cfg else ret ?s1)" for b
    by (intro unchanged_if reserved_finalization.keeps_holdings unchanged_ret) simp
  show "unchanged holdings (\<lambda>x. x) s (on_partial_signature E cfg keys s role sg pid)"
    unfolding on_partial_signature_def Let_def
    by (intro unchanged_bind [OF a] unchanged_if reserved_fund.holdings_from unchanged_ret) simp_all
  show "discreet (on_partial_signature E cfg keys s role sg pid)"
    unfolding on_partial_signature_def Let_def
    by (intro emits_rules reserved_finalization.discreet_op reserved_fund.discreet_op)
qed

interpretation told_claim: reserved_op "\<lambda>s. leader_claims E cfg keys s me" for E cfg keys me
proof unfold_locales
  fix s
  have a: "unchanged holdings (\<lambda>x. x) x (if b then adapt_role E x r cfg else ret x)" for x b r
    by (intro unchanged_if reserved_adapt_role.keeps_holdings unchanged_ret) simp
  show "unchanged holdings (\<lambda>x. x) s (leader_claims E cfg keys s me)"
    unfolding leader_claims_def Let_def
    by (intro unchanged_bind [OF a] unchanged_bind [OF reserved_spend.keeps_holdings]
        unchanged_bind [OF unchanged_announce] unchanged_ret) simp_all
  show "discreet (leader_claims E cfg keys s me)"
    unfolding leader_claims_def Let_def
    by (intro emits_rules reserved_adapt_role.discreet_op reserved_spend.discreet_op discreet_announce) simp
qed

section \<open>Keeping one's word\<close>

text \<open>A session with a leader holds the nonces of all participants, and they elect that leader.\<close>

definition elected :: "env \<Rightarrow> session \<Rightarrow> bool" where
  "elected E s \<longleftrightarrow> all_leader_nonces_received s \<and> map_sum id leader (compute_leader E s) = Inr (leader s)"

lemma compute_leader_cong:
  "leader_nonces s' = leader_nonces s \<Longrightarrow> participants s' = participants s \<Longrightarrow>
   map_sum id leader (compute_leader E s') = map_sum id leader (compute_leader E s)"
  by (auto simp: compute_leader_def Let_def res_bind_def unwrap_def split: sum.splits)

lemma elected_cong:
  "pledges s' = pledges s \<Longrightarrow> participants s' = participants s \<Longrightarrow> elected E s' = elected E s"
  using compute_leader_cong [of s' s E]
  by (simp add: elected_def pledges_def all_leader_nonces_received_def)

text \<open>Participant \<open>i\<close> holds its own nonce exactly when it holds its own commitment, and what it has said
  in this session, under its own name, is what it holds.\<close>

definition word_kept :: "env \<Rightarrow> participant_id \<Rightarrow> session \<Rightarrow> trace \<Rightarrow> bool" where
  "word_kept E i s t \<longleftrightarrow> get_my_id (participants s) = Inr i \<and>
     bt_ok (leader_nonces s) \<and> bt_ok (leader_commitments s) \<and>
     (bt_contains (leader_nonces s) i \<longleftrightarrow> bt_contains (leader_commitments s) i) \<and>
     (\<forall>v \<in> said t. env_session_id v = sess_id s \<longrightarrow> env_participant_id v = i \<and>
        (\<forall>c. env_msg v = LeaderElectionCommitment c \<longrightarrow> bt_get (leader_commitments s) i = Some c) \<and>
        (\<forall>n. env_msg v = LeaderElectionNonce n \<longrightarrow> bt_get (leader_nonces s) i = Some n)) \<and>
     (leader s \<noteq> None \<longrightarrow> elected E s)"

lemma word_kept_same:
  assumes "word_kept E i s t" and "pledges s' = pledges s" "participants s' = participants s"
    "sess_id s' = sess_id s"
    and "\<forall>v \<in> said t' - said t. env_participant_id v = i \<and> (\<exists>x. env_msg v = SecretReveal x)"
  shows "word_kept E i s' t'"
proof -
  have p: "leader s' = leader s" "leader_nonces s' = leader_nonces s" "leader_commitments s' = leader_commitments s"
    using assms(2) by (simp_all add: pledges_def)
  have "env_participant_id v = i \<and>
        (\<forall>c. env_msg v = LeaderElectionCommitment c \<longrightarrow> bt_get (leader_commitments s) i = Some c) \<and>
        (\<forall>n. env_msg v = LeaderElectionNonce n \<longrightarrow> bt_get (leader_nonces s) i = Some n)"
    if "v \<in> said t'" "env_session_id v = sess_id s" for v
  proof (cases "v \<in> said t")
    case True
    then show ?thesis using assms(1) that(2) by (simp add: word_kept_def)
  next
    case False
    then have "env_participant_id v = i \<and> (\<exists>x. env_msg v = SecretReveal x)" using assms(5) that(1) by simp
    then show ?thesis by auto
  qed
  then show ?thesis
    using assms(1,3,4) p elected_cong [OF assms(2,3), of E] by (simp add: word_kept_def)
qed

text \<open>A message that does not contradict what the session holds: in its own name, or, with a leader, a
  nonce in any name.\<close>

definition credible :: "participant_id \<Rightarrow> session \<Rightarrow> wire_message \<Rightarrow> participant_id \<Rightarrow> bool" where
  "credible i s m pid \<longleftrightarrow>
     (\<forall>c. m = LeaderElectionCommitment c \<longrightarrow> pid = i \<longrightarrow> bt_get (leader_commitments s) i = Some c) \<and>
     (\<forall>n. m = LeaderElectionNonce n \<longrightarrow> pid = i \<or> leader s \<noteq> None \<longrightarrow> bt_get (leader_nonces s) pid = Some n)"

text \<open>What a credible message leads to.\<close>

definition answered ::
  "env \<Rightarrow> participant_id \<Rightarrow> session \<Rightarrow> wire_message \<Rightarrow> participant_id \<Rightarrow> session \<Rightarrow> trace \<Rightarrow> bool" where
  "answered E i s m pid s' t' \<longleftrightarrow> word_kept E i s' t' \<and> participants s' = participants s \<and>
     sess_id s' = sess_id s \<and>
     (\<forall>n. bt_get (leader_nonces s) i = Some n \<longrightarrow> bt_get (leader_nonces s') i = Some n) \<and>
     (\<forall>k n. bt_get (leader_nonces s') k = Some n \<longrightarrow>
        bt_get (leader_nonces s) k = Some n \<or> k = i \<or> k = pid \<and> m = LeaderElectionNonce n) \<and>
     (leader s \<noteq> None \<longrightarrow> leader s' = leader s) \<and>
     (\<forall>k x. hm_get (adaptor_secrets s') k = Some x \<longrightarrow>
        hm_get (adaptor_secrets s) k = Some x \<or> k = pid \<and> m = SecretReveal x)"

lemma answered_same:
  "word_kept E i s t \<Longrightarrow> holdings s' = holdings s \<Longrightarrow> participants s' = participants s \<Longrightarrow>
   sess_id s' = sess_id s \<Longrightarrow> said t' = said t \<Longrightarrow> answered E i s m pid s' t'"
  unfolding answered_def by (auto simp: holdings_def pledges_def elim: word_kept_same)

lemma answered_trans:
  "answered E i s m pid s1 t1 \<Longrightarrow> holdings s' = holdings s1 \<Longrightarrow> participants s' = participants s1 \<Longrightarrow>
   sess_id s' = sess_id s1 \<Longrightarrow> said t' = said t1 \<Longrightarrow> answered E i s m pid s' t'"
  unfolding answered_def by (auto simp: holdings_def pledges_def elim: word_kept_same)

text \<open>In the contract of handling a message a panic has said nothing.\<close>

abbreviation answers :: "env \<Rightarrow> participant_id \<Rightarrow> session \<Rightarrow> wire_message \<Rightarrow> participant_id \<Rightarrow> session act \<Rightarrow>
    trace \<Rightarrow> bool" where
  "answers E i s m pid f t \<equiv> wp f (\<lambda>_ t'. said t' = said t) (\<lambda>s' t'. answered E i s m pid s' t') t"

context reserved_op
begin

lemma answers_op:
  "word_kept E i s t \<Longrightarrow> holdings s1 = holdings s \<Longrightarrow> participants s1 = participants s \<Longrightarrow> sess_id s1 = sess_id s \<Longrightarrow>
   answers E i s m pid (f s1) t"
  by (rule wp_mono [OF wp_reserved]) (auto intro: answered_same)

end

section \<open>The handlers\<close>

lemma wp_start_said:
  assumes "get_my_id (participants s) = Inr i"
  shows "wp (start_leader_election E s) (\<lambda>_ _. False) (\<lambda>s1 t1. \<exists>n pool.
     s1 = s\<lparr>leader_nonces := bt_insert i n (leader_nonces s),
           leader_commitments := bt_insert i (sha256 E n) (leader_commitments s), connection_pool := pool\<rparr> \<and>
     said t1 \<subseteq> insert (envelope_new (sess_id s) i (LeaderElectionCommitment (sha256 E n))) (said t)) t"
proof -
  have b: "said (RandomBytes n # u) = said u" for n u by (auto simp: said_def)
  show ?thesis
    unfolding start_leader_election_def Let_def
    by (simp add: wp_simps assms) (rule wp_mono [OF wp_announce], use b said_broadcast in \<open>fastforce+\<close>)
qed

text \<open>Without a commitment of its own a participant has said nothing and has no leader.\<close>

lemma unpledged:
  assumes "word_kept E i s t" and "\<not> bt_contains (leader_commitments s) i"
  shows "leader s = None" and "bt_get (leader_nonces s) i = None" and "bt_get (leader_commitments s) i = None"
    and "\<And>v. v \<in> said t \<Longrightarrow> env_session_id v = sess_id s \<Longrightarrow>
      env_participant_id v = i \<and> env_msg v \<noteq> LeaderElectionCommitment c \<and> env_msg v \<noteq> LeaderElectionNonce n"
proof -
  show n: "bt_get (leader_nonces s) i = None" and c: "bt_get (leader_commitments s) i = None"
    using assms by (simp_all add: word_kept_def bt_contains_def)
  have "i \<in> set (bt_keys (participants s))" using assms(1) get_my_id_member by (simp add: word_kept_def)
  then have "\<not> all_leader_nonces_received s"
    using n by (auto simp: all_leader_nonces_received_def list_all_iff bt_contains_def)
  then show "leader s = None" using assms(1) by (auto simp: word_kept_def elected_def)
  show "\<And>v. v \<in> said t \<Longrightarrow> env_session_id v = sess_id s \<Longrightarrow>
      env_participant_id v = i \<and> env_msg v \<noteq> LeaderElectionCommitment c \<and> env_msg v \<noteq> LeaderElectionNonce n" for c n
    using assms(1) n c by (auto simp: word_kept_def)
qed

lemma answered_start:
  assumes "word_kept E i s t" and "\<not> bt_contains (leader_commitments s) i"
    and s1: "s1 = s\<lparr>leader_nonces := bt_insert i n (leader_nonces s),
           leader_commitments := bt_insert i c (leader_commitments s), connection_pool := pool\<rparr>"
    and t1: "said t1 \<subseteq> insert (envelope_new (sess_id s) i (LeaderElectionCommitment c)) (said t)"
  shows "answered E i s m pid s1 t1 \<and> bt_contains (leader_commitments s1) i"
proof -
  note u = unpledged [OF assms(1,2)]
  have "env_participant_id v = i \<and>
        (\<forall>c'. env_msg v = LeaderElectionCommitment c' \<longrightarrow> c' = c) \<and> (\<forall>n'. env_msg v = LeaderElectionNonce n' \<longrightarrow> n' = n)"
    if "v \<in> said t1" "env_session_id v = sess_id s" for v
  proof (cases "v \<in> said t")
    case True
    then show ?thesis using u(4) [OF True that(2)] by simp
  next
    case False
    then have "v = envelope_new (sess_id s) i (LeaderElectionCommitment c)" using t1 that(1) by auto
    then show ?thesis by simp
  qed
  then have "word_kept E i s1 t1"
    using assms(1) u(1-3) unfolding s1 word_kept_def by (simp add: bt_contains_def)
  then show ?thesis using u(1-3) unfolding s1 answered_def by (simp add: bt_contains_def)
qed

lemma answers_adaptor_point:
  assumes w: "word_kept E i s t"
  shows "answers E i s (AdaptorPoint pnt) pid (on_adaptor_point E s pnt pid) t"
proof -
  define s2 where "s2 = transition_to AwaitingLeaderElectionCommitments
      (s\<lparr>adaptor_points := hm_insert pid pnt (adaptor_points s)\<rparr>)"
  have s2: "holdings s2 = holdings s" "participants s2 = participants s" "sess_id s2 = sess_id s"
    by (simp_all add: s2_def)
  then have me: "get_my_id (participants s2) = Inr i" using w by (simp add: word_kept_def)
  have w2: "word_kept E i s2 t" by (rule word_kept_same [OF w]) (use s2 pledges_of_holdings [OF s2(1)] in simp_all)
  have start: "answers E i s (AdaptorPoint pnt) pid (start_leader_election E s2) t"
    if c: "\<not> bt_contains (leader_commitments s2) i"
  proof (rule wp_mono [OF wp_start_said [OF me]])
    fix s1 t1
    assume "\<exists>n pool. s1 = s2\<lparr>leader_nonces := bt_insert i n (leader_nonces s2),
           leader_commitments := bt_insert i (sha256 E n) (leader_commitments s2), connection_pool := pool\<rparr> \<and>
        said t1 \<subseteq> insert (envelope_new (sess_id s2) i (LeaderElectionCommitment (sha256 E n))) (said t)"
    then have "answered E i s2 (AdaptorPoint pnt) pid s1 t1" using answered_start [OF w2 c] by blast
    then show "answered E i s (AdaptorPoint pnt) pid s1 t1"
      using s2 by (simp add: answered_def holdings_def pledges_def)
  qed simp
  show ?thesis
    unfolding on_adaptor_point_def Let_def s2_def [symmetric]
  proof (rule wp_cases)
    show "answers E i s (AdaptorPoint pnt) pid (bind (lift (get_my_id (participants s2))) (\<lambda>my_id.
        if \<not> bt_contains (leader_commitments s2) my_id then start_leader_election E s2 else ret s2)) t"
      unfolding me wp_bind wp_lift sum.case
      by (rule wp_cases, erule start, unfold wp_ret, rule answered_same [OF w]) (use s2 in simp_all)
    show "answers E i s (AdaptorPoint pnt) pid (ret (s\<lparr>adaptor_points := hm_insert pid pnt (adaptor_points s)\<rparr>)) t"
      unfolding wp_ret by (rule answered_same [OF w]) simp_all
  qed
qed

lemma bt_insert_same: "bt_ok m \<Longrightarrow> bt_get m k = Some v \<Longrightarrow> bt_insert k v m = m"
  by (rule bt_ok_unique) (auto simp: fun_eq_iff)

text \<open>A commitment of somebody else is stored; one in its own name is the one it has.\<close>

lemma answered_commitment:
  assumes a: "answered E i s m pid s1 t1" and c: "pid = i \<Longrightarrow> bt_get (leader_commitments s1) i = Some c"
  shows "answered E i s m pid (received_leader_commitment s1 c pid) t1"
proof -
  let ?s2 = "received_leader_commitment s1 c pid"
  have f: "leader ?s2 = leader s1" "leader_nonces ?s2 = leader_nonces s1" "participants ?s2 = participants s1"
    "sess_id ?s2 = sess_id s1" "adaptor_secrets ?s2 = adaptor_secrets s1"
    "leader_commitments ?s2 = bt_insert pid c (leader_commitments s1)"
    by (simp_all add: received_leader_commitment_def)
  have g: "bt_get (leader_commitments ?s2) i = bt_get (leader_commitments s1) i"
    using c by (cases "pid = i") (simp_all add: received_leader_commitment_def)
  have e: "elected E ?s2 = elected E s1"
    using compute_leader_cong [OF f(2,3), of E] f by (simp add: elected_def all_leader_nonces_received_def)
  have w: "word_kept E i s1 t1" using a by (simp add: answered_def)
  have "word_kept E i ?s2 t1"
    using w g e by (simp add: word_kept_def f(1-4) bt_contains_def) (simp add: f(6))
  then show ?thesis using a by (simp add: answered_def f(1-5))
qed

lemma answered_nonce_told:
  assumes a: "answered E i s m pid s1 t1" and n: "bt_get (leader_nonces s1) i = Some n"
    and s3: "s3 = transition_to st (s1\<lparr>connection_pool := pool\<rparr>)"
    and t3: "said t3 \<subseteq> insert (envelope_new (sess_id s1) i (LeaderElectionNonce n)) (said t1)"
  shows "answered E i s m pid s3 t3"
proof -
  have h: "holdings s3 = holdings s1" by (simp add: s3)
  have f: "leader s3 = leader s1" "leader_nonces s3 = leader_nonces s1" "leader_commitments s3 = leader_commitments s1"
    "participants s3 = participants s1" "sess_id s3 = sess_id s1" "adaptor_secrets s3 = adaptor_secrets s1"
    by (simp_all add: s3)
  have w: "word_kept E i s1 t1" using a by (simp add: answered_def)
  have "env_participant_id v = i \<and>
        (\<forall>c. env_msg v = LeaderElectionCommitment c \<longrightarrow> bt_get (leader_commitments s1) i = Some c) \<and>
        (\<forall>n'. env_msg v = LeaderElectionNonce n' \<longrightarrow> bt_get (leader_nonces s1) i = Some n')"
    if "v \<in> said t3" "env_session_id v = sess_id s1" for v
  proof (cases "v \<in> said t1")
    case True
    then show ?thesis using w that(2) by (simp add: word_kept_def)
  next
    case False
    then have "v = envelope_new (sess_id s1) i (LeaderElectionNonce n)" using t3 that(1) by auto
    then show ?thesis using n by simp
  qed
  moreover have "elected E s3 = elected E s1"
    by (rule elected_cong) (simp_all add: f pledges_of_holdings [OF h])
  ultimately have "word_kept E i s3 t3" using w by (simp add: word_kept_def f)
  then show ?thesis using a by (simp add: answered_def f)
qed

lemma wp_broadcast_nonce_said:
  assumes "get_my_id (participants s) = Inr i"
  shows "wp (broadcast_leader_nonce E s n) (\<lambda>_ _. False) (\<lambda>s1 t1. \<exists>pool. s1 = s\<lparr>connection_pool := pool\<rparr> \<and>
     said t1 \<subseteq> insert (envelope_new (sess_id s) i (LeaderElectionNonce n)) (said t)) t"
  unfolding broadcast_leader_nonce_def
  by (simp add: wp_simps assms) (rule wp_mono [OF wp_announce], use said_broadcast in \<open>fastforce+\<close>)

lemma answers_commitment:
  assumes w: "word_kept E i s t" and cr: "credible i s (LeaderElectionCommitment c) pid"
  shows "answers E i s (LeaderElectionCommitment c) pid (on_leader_commitment E s c pid) t"
proof -
  let ?m = "LeaderElectionCommitment c"
  let ?b = "if \<not> bt_contains (leader_commitments s) i
      then bind (start_leader_election E s) (\<lambda>s1. ret (transition_to AwaitingLeaderElectionCommitments s1))
      else ret s"
  let ?J = "\<lambda>s1 t1. answered E i s ?m pid s1 t1 \<and> bt_contains (leader_commitments s1) i \<and>
      (pid = i \<longrightarrow> bt_get (leader_commitments s1) i = Some c)"
  have me: "get_my_id (participants s) = Inr i" using w by (simp add: word_kept_def)
  have p: "pid = i \<Longrightarrow> bt_get (leader_commitments s) i = Some c" using cr by (simp add: credible_def)
  have start: "wp ?b (\<lambda>_ t'. said t' = said t) ?J t"
  proof (rule wp_cases)
    assume n: "\<not> bt_contains (leader_commitments s) i"
    then have "pid \<noteq> i" using p by (auto simp: bt_contains_def)
    then show "wp (bind (start_leader_election E s) (\<lambda>s1. ret (transition_to AwaitingLeaderElectionCommitments s1)))
        (\<lambda>_ t'. said t' = said t) ?J t"
      unfolding wp_bind wp_ret
      by (intro wp_mono [OF wp_start_said [OF me]])
        (auto dest!: answered_start [OF w n refl] intro: answered_trans)
  next
    show "wp (ret s) (\<lambda>_ t'. said t' = said t) ?J t" if "\<not> \<not> bt_contains (leader_commitments s) i"
      using that p answered_same [OF w refl refl refl refl] by (simp add: wp_ret)
  qed
  have rest: "wp (if all_leader_commitments_received s2 \<and> state s2 \<noteq> AwaitingLeaderElectionNonces then
       bind (lift (unwrap (bt_get (leader_nonces s2) i))) (\<lambda>my_nonce.
       bind (broadcast_leader_nonce E s2 my_nonce) (\<lambda>s3.
       ret (transition_to AwaitingLeaderElectionNonces s3)))
     else ret s2) (\<lambda>_ _. False) (\<lambda>s' t'. answered E i s ?m pid s' t') t1"
    if a: "answered E i s ?m pid s2 t1" and c: "bt_contains (leader_commitments s2) i" for s2 t1
  proof (rule wp_cases)
    obtain n where n: "bt_get (leader_nonces s2) i = Some n"
      using a c by (auto simp: answered_def word_kept_def bt_contains_def)
    have me2: "get_my_id (participants s2) = Inr i" using a me by (simp add: answered_def)
    have u: "unwrap (Some n) = Inr n" by (simp add: unwrap_def)
    show "wp (bind (lift (unwrap (bt_get (leader_nonces s2) i))) (\<lambda>my_nonce.
       bind (broadcast_leader_nonce E s2 my_nonce) (\<lambda>s3. ret (transition_to AwaitingLeaderElectionNonces s3))))
       (\<lambda>_ _. False) (\<lambda>s' t'. answered E i s ?m pid s' t') t1"
      unfolding n u wp_bind wp_lift wp_ret sum.case
      by (rule wp_mono [OF wp_broadcast_nonce_said [OF me2]]) (auto intro: answered_nonce_told [OF a n])
  qed (use a in \<open>simp add: wp_ret\<close>)
  show ?thesis
    unfolding on_leader_commitment_def Let_def me wp_bind [of "lift (Inr i)"] wp_lift sum.case
      wp_bind [of ?b]
  proof (rule wp_mono [OF start])
    fix s1 t1 assume J: "?J s1 t1"
    let ?s2 = "received_leader_commitment s1 c pid"
    have a: "answered E i s ?m pid ?s2 t1" using J by (intro answered_commitment) auto
    have "bt_contains (leader_commitments ?s2) i"
      using J by (auto simp: received_leader_commitment_def bt_contains_def)
    from rest [OF a this] show "wp (if all_leader_commitments_received ?s2 \<and>
         state ?s2 \<noteq> AwaitingLeaderElectionNonces then
       bind (lift (unwrap (bt_get (leader_nonces ?s2) i))) (\<lambda>my_nonce.
       bind (broadcast_leader_nonce E ?s2 my_nonce) (\<lambda>s3.
       ret (transition_to AwaitingLeaderElectionNonces s3)))
     else ret ?s2) (\<lambda>_ t'. said t' = said t) (\<lambda>s' t'. answered E i s ?m pid s' t') t1" by (rule wp_mono) simp_all
  qed simp
qed

text \<open>A nonce leaves a session that has a leader as it is, and is stored in one that has none.\<close>

lemma answered_nonce:
  assumes w: "word_kept E i s t" and cr: "credible i s (LeaderElectionNonce n) pid"
    and s1: "received_leader_nonce E s n pid = Inr s1"
  shows "answered E i s (LeaderElectionNonce n) pid s1 t"
proof -
  have s1': "s1 = s\<lparr>leader_nonces := bt_insert pid n (leader_nonces s)\<rparr>"
    using s1 by (simp add: received_leader_nonce_Inr)
  have i: "pid = i \<Longrightarrow> bt_get (leader_nonces s) i = Some n" using cr by (simp add: credible_def)
  show ?thesis
  proof (cases "leader s")
    case None
    have "word_kept E i s1 t"
      using w i None unfolding s1' word_kept_def by (cases "pid = i") (simp_all add: bt_contains_def)
    then show ?thesis using i None unfolding answered_def s1' by auto
  next
    case (Some l)
    then have "bt_insert pid n (leader_nonces s) = leader_nonces s"
      using w cr by (intro bt_insert_same) (simp_all add: word_kept_def credible_def)
    then have "s1 = s" by (simp add: s1')
    then show ?thesis using answered_same [OF w] by simp
  qed
qed

lemma answered_elected:
  assumes a: "answered E i s m pid s1 t1" and "all_leader_nonces_received s1" and s2: "compute_leader E s1 = Inr s2"
  shows "answered E i s m pid s2 t1"
proof -
  obtain l where l: "s2 = s1\<lparr>leader := Some l\<rparr>" using compute_leader_fields [OF s2] by blast
  have e: "map_sum id leader (compute_leader E s2) = Inr (leader s2)"
    using compute_leader_cong [of s2 s1 E] s2 by (simp add: l)
  have w: "word_kept E i s1 t1" using a by (simp add: answered_def)
  have same: "leader s2 = leader s1" if "leader s1 \<noteq> None"
    using w that s2 by (simp add: word_kept_def elected_def)
  have "elected E s2" using e assms(2) by (simp add: elected_def all_leader_nonces_received_def l)
  then have "word_kept E i s2 t1" using w by (simp add: word_kept_def l)
  then show ?thesis using a same by (auto simp: answered_def l)
qed

lemma answers_nonce:
  assumes w: "word_kept E i s t" and cr: "credible i s (LeaderElectionNonce n) pid"
  shows "answers E i s (LeaderElectionNonce n) pid (on_leader_nonce E cfg keys s n pid) t"
proof -
  let ?m = "LeaderElectionNonce n"
  have lift: "wp (bind (lift r) f) (\<lambda>_ t'. said t' = said t) Q t1"
    if "said t1 = said t" "\<And>x. r = Inr x \<Longrightarrow> wp (f x) (\<lambda>_ t'. said t' = said t) Q t1" for r f Q t1
    using that by (cases r) (simp_all add: wp_bind wp_lift)
  have sign: "answers E i s ?m pid (bind (begin_refund_signing E s3 keys) (\<lambda>s4. begin_spend_signing E s4 keys)) t"
    if a: "answered E i s ?m pid s3 t" for s3
    unfolding wp_bind
  proof (rule wp_mono [OF told_refund_signing.wp_reserved])
    fix s4 t4
    assume 4: "participants s4 = participants s3 \<and> sess_id s4 = sess_id s3 \<and> holdings s4 = holdings s3 \<and> said t4 = said t"
    have a4: "answered E i s ?m pid s4 t4" by (rule answered_trans [OF a]) (use 4 in simp_all)
    show "wp (begin_spend_signing E s4 keys) (\<lambda>_ t'. said t' = said t) (\<lambda>s' t'. answered E i s ?m pid s' t') t4"
      by (rule wp_mono [OF told_spend_signing.wp_reserved]) (use 4 answered_trans [OF a4] in auto)
  qed
  show ?thesis
    unfolding on_leader_nonce_def
  proof (rule lift [OF refl], rule wp_cases)
    fix s1
    assume s1: "received_leader_nonce E s n pid = Inr s1"
    note a1 = answered_nonce [OF w cr s1]
    show "answers E i s ?m pid (ret s1) t" using a1 by (simp add: wp_ret)
    assume all: "all_leader_nonces_received s1 \<and> musig_sessions s1 = []"
    show "answers E i s ?m pid (bind (lift (compute_leader E s1)) (\<lambda>s2.
       bind (lift (build_lock_txs E (transition_to RefundAndSpendTxsSigning s2) cfg)) (\<lambda>s3.
       bind (begin_refund_signing E s3 keys) (\<lambda>s4. begin_spend_signing E s4 keys)))) t"
    proof (rule lift [OF refl], rule lift [OF refl], rule sign)
      fix s2 s3
      assume s2: "compute_leader E s1 = Inr s2"
        and s3: "build_lock_txs E (transition_to RefundAndSpendTxsSigning s2) cfg = Inr s3"
      have e: "evolves (transition_to RefundAndSpendTxsSigning s2) s3" by (rule evolves_build_lock_txs [OF s3])
      show "answered E i s ?m pid s3 t"
        by (rule answered_trans [OF answered_elected [OF a1 _ s2]])
          (use all build_lock_txs_holdings [OF s3] evolves_D(1,2) [OF e] in simp_all)
    qed
  qed
qed

lemma answers_reveal:
  assumes w: "word_kept E i s t"
  shows "answers E i s (SecretReveal x) pid (on_secret_reveal E cfg keys s x pid) t"
proof -
  let ?m = "SecretReveal x"
  let ?s1 = "s\<lparr>adaptor_secrets := hm_insert pid x (adaptor_secrets s)\<rparr>"
  have w1: "word_kept E i ?s1 t" by (rule word_kept_same [OF w]) simp_all
  have a1: "answered E i s ?m pid ?s1 t" using w1 by (auto simp: answered_def split: if_splits)
  have claim: "answers E i s ?m pid (leader_claims E cfg keys ?s1 me) t" for me
    by (rule wp_mono [OF told_claim.wp_reserved]) (use answered_trans [OF a1] in auto)
  have st: "answers E i s ?m pid (ret (transition_to st ?s1)) t" for st
    unfolding wp_ret by (rule answered_trans [OF a1]) simp_all
  have lift: "wp (bind (lift r) f) (\<lambda>_ t'. said t' = said t) Q t"
    if "\<And>x. r = Inr x \<Longrightarrow> wp (f x) (\<lambda>_ t'. said t' = said t) Q t" for r f Q
    using that by (cases r) (simp_all add: wp_bind wp_lift)
  show ?thesis
    unfolding on_secret_reveal_def Let_def by (intro wp_cases lift claim st) (simp add: wp_ret a1)
qed

text \<open>Every credible message is answered, whatever state the session is in.\<close>

lemma answers_message:
  assumes w: "word_kept E i s t" and cr: "credible i s m pid"
  shows "answers E i s m pid (handle_session_message E cfg keys s m pid) t"
proof -
  have ret: "answers E i s m pid (ret s') t"
    if "holdings s' = holdings s" "participants s' = participants s" "sess_id s' = sess_id s" for s'
    unfolding wp_ret by (rule answered_same [OF w that]) simp
  show ?thesis
  proof (cases "terminal (state s)")
    case True
    then show ?thesis by (simp add: handle_session_message_def ret)
  next
    case False
    then show ?thesis
      using cr ret [of "on_lock_tx_broadcast s pid"] ret [of s]
        answers_adaptor_point [OF w] answers_reveal [OF w] answers_commitment [OF w] answers_nonce [OF w]
        told_schnorr.answers_op [OF w] told_partial.answers_op [OF w]
      by (cases m) (simp_all add: handle_session_message_def on_lock_tx_broadcast_def)
  qed
qed

end
