(* ===== verification/Honest_Daemon.thy ===== *)
theory Honest_Daemon
  imports Honest_Peers
begin

text \<open>
  What one event does to the election and the secrets of a daemon's sessions, and what it says about
  them: messages are answered, polls keep the election and add at most an extracted secret, and no
  session speaks for another.
\<close>

section \<open>Pollers of the leader's spend\<close>

definition claim_pollers :: "session_id \<Rightarrow> trace \<Rightarrow> participant_id set" where
  "claim_pollers sid t = {l. PollerSpawned sid (LeaderSpendTx l) \<in> set t}"

lemma claim_pollers_grown:
  "grown P t t' \<Longrightarrow> (\<And>l. P (PollerSpawned sid (LeaderSpendTx l)) \<Longrightarrow> l \<in> L) \<Longrightarrow>
   claim_pollers sid t \<subseteq> claim_pollers sid t' \<and> claim_pollers sid t' \<subseteq> claim_pollers sid t \<union> L"
  by (auto simp: grown_def claim_pollers_def list_all_iff)

lemma claim_pollers_append [simp]: "claim_pollers sid (new @ t) = claim_pollers sid new \<union> claim_pollers sid t"
  by (auto simp: claim_pollers_def)

lemma claim_pollers_broadcast: "list_all (broadcast_effect as v) new \<Longrightarrow> claim_pollers sid new = {}"
  by (auto simp: claim_pollers_def list_all_iff broadcast_effect_def)

lemma claim_pollers_discreet: "grown reticent t t' \<Longrightarrow> claim_pollers sid t' = claim_pollers sid t"
  by (drule claim_pollers_grown [where L = "{}" and sid = sid]) auto

lemma said_grown:
  "grown P t t' \<Longrightarrow> (\<And>a v b k. P (TcpWrite a v b k) \<Longrightarrow> confides (env_msg v) \<Longrightarrow> v \<in> V) \<Longrightarrow>
   said t \<subseteq> said t' \<and> said t' \<subseteq> said t \<union> V"
proof -
  assume g: "grown P t t'" and V: "\<And>a v b k. P (TcpWrite a v b k) \<Longrightarrow> confides (env_msg v) \<Longrightarrow> v \<in> V"
  obtain new where t': "t' = new @ t" "\<And>e. e \<in> set new \<Longrightarrow> P e" using g by (auto simp: grown_def list_all_iff)
  then have "said new \<subseteq> V" using V by (fastforce simp: said_def)
  then show ?thesis using t'(1) by auto
qed

text \<open>All that cancelling emits.\<close>

definition aborts :: "effect \<Rightarrow> bool" where
  "aborts e \<longleftrightarrow> (\<exists>i p. e = PollerAborted i p)"

lemma aborts_cancel: "emits aborts (cancel_session_pollers sid d)"
proof -
  have "emits aborts (cancel_step d key)" for d key
    unfolding cancel_step_def by (intro emits_rules emits_emit) (simp add: aborts_def)
  then show ?thesis unfolding cancel_session_pollers_def by (rule emits_fold)
qed

lemma wp_silent:
  assumes "discreet m" and "wp m (\<lambda>_ _. True) Q t"
  shows "wp m (\<lambda>_ t'. said t' = said t \<and> (\<forall>j. claim_pollers j t' = claim_pollers j t))
    (\<lambda>x t'. Q x t' \<and> said t' = said t \<and> (\<forall>j. claim_pollers j t' = claim_pollers j t)) t"
  by (rule wp_mono [OF wp_emits [OF assms]]) (auto dest: said_discreet claim_pollers_discreet)

text \<open>Cancelling says nothing.\<close>

lemma wp_cancel_silent:
  "wp (cancel_session_pollers sid d) (\<lambda>_ t'. said t' = said t)
    (\<lambda>d' t'. sessions d' = sessions d \<and> said t' = said t \<and> (\<forall>j. claim_pollers j t' = claim_pollers j t)) t"
proof -
  have q: "said t' = said t \<and> (\<forall>j. claim_pollers j t' = claim_pollers j t)" if "grown aborts t t'" for t'
  proof
    show "said t' = said t" using said_grown [OF that, of "{}"] by (simp add: aborts_def subset_antisym)
    show "\<forall>j. claim_pollers j t' = claim_pollers j t"
      using claim_pollers_grown [OF that, where L = "{}"] by (simp add: aborts_def) blast
  qed
  show ?thesis
    by (rule wp_mono [OF wp_emits [OF aborts_cancel wp_cancel]]; elim conjE; drule q; simp add: same_sessions_def)
qed

text \<open>A poller for the leader's spend is started only for the leader.\<close>

lemma emits_spawn_claims:
  assumes "hm_get (sessions d) sid = Some s"
  shows "emits (\<lambda>e. \<exists>p. e = PollerSpawned sid p \<and> (\<forall>l. p = LeaderSpendTx l \<longrightarrow> leader s = Some l))
    (maybe_spawn_pollers sid d)"
proof -
  have spawn: "emits (\<lambda>e. e = PollerSpawned sid p) (spawn_poller sid d p)" for d p
    unfolding spawn_poller_def by (intro emits_rules emits_emit) simp
  have "leader s = Some l" if "missing_pollers d sid s = Inr ts" "LeaderSpendTx l \<in> set ts" for ts l
    using that by (auto simp: missing_pollers_def lock_targets_def res_bind_Inr unwrap_def Let_def
        split: if_splits option.splits)
  then show ?thesis
    unfolding maybe_spawn_pollers_def assms option.case
    by (intro emits_bind_lift emits_fold_set emits_mono [OF spawn]) blast
qed

lemma wp_spawn_claims:
  assumes "hm_get (sessions d) sid = Some s"
  shows "wp (maybe_spawn_pollers sid d) (\<lambda>_ t'. said t' = said t)
    (\<lambda>d' t'. sessions d' = sessions d \<and> said t' = said t \<and>
       claim_pollers sid t' \<subseteq> claim_pollers sid t \<union> set_option (leader s) \<and>
       (\<forall>j. j \<noteq> sid \<longrightarrow> claim_pollers j t' = claim_pollers j t)) t"
proof (rule wp_mono [OF wp_emits [OF emits_spawn_claims [OF assms] wp_maybe_spawn]], goal_cases)
  case (1 p t')
  then show ?case by (auto dest: said_grown [where V = "{}"])
next
  case (2 d' t')
  then have g: "grown (\<lambda>e. \<exists>p. e = PollerSpawned sid p \<and> (\<forall>l. p = LeaderSpendTx l \<longrightarrow> leader s = Some l)) t t'"
    by blast
  have "claim_pollers sid t' \<subseteq> claim_pollers sid t \<union> set_option (leader s)"
    using claim_pollers_grown [OF g, of sid "set_option (leader s)"] by auto
  moreover have "claim_pollers j t' = claim_pollers j t" if "j \<noteq> sid" for j
    using claim_pollers_grown [OF g, of j "{}"] that by auto
  ultimately show ?case using 2 said_grown [OF g, of "{}"] by (auto simp: same_sessions_def)
qed

section \<open>Messages\<close>

text \<open>What a handler says, it says for its session, and it starts no poller.\<close>

definition speaks_for :: "session_id \<Rightarrow> effect \<Rightarrow> bool" where
  "speaks_for sid e \<longleftrightarrow> reticent e \<or> (\<exists>a v b k. e = TcpWrite a v b k \<and> env_session_id v = sid)"

lemma speaks_reticent: "discreet m \<Longrightarrow> emits (speaks_for sid) m"
  by (erule emits_mono) (simp add: speaks_for_def)

lemma speaks_announce: "emits (speaks_for (sess_id s)) (announce E s me m)"
  by (rule emits_announce) (simp_all add: speaks_for_def)

lemma speaks_start: "emits (speaks_for (sess_id s)) (start_leader_election E s)"
proof -
  have "emits (speaks_for (sess_id s)) (announce E (s\<lparr>leader_nonces := a, leader_commitments := b\<rparr>) me m)" for a b me m
    using speaks_announce [of "s\<lparr>leader_nonces := a, leader_commitments := b\<rparr>"] by simp
  then show ?thesis
    unfolding start_leader_election_def Let_def by (intro emits_rules emits_random) (simp_all add: speaks_for_def)
qed

lemma speaks_nonce: "emits (speaks_for (sess_id s)) (broadcast_leader_nonce E s n)"
  unfolding broadcast_leader_nonce_def by (intro emits_rules speaks_announce)

lemma speaks_commitment: "emits (speaks_for (sess_id s)) (on_leader_commitment E s c pid)"
proof -
  have b: "wp (if x then bind (start_leader_election E s)
        (\<lambda>s1. ret (transition_to AwaitingLeaderElectionCommitments s1)) else ret s)
      (\<lambda>_ _. True) (\<lambda>s1 _. sess_id s1 = sess_id s) t" for x t
    by (rule wp_cases, unfold wp_bind wp_ret, rule wp_mono [OF election.op_evolves])
      (auto simp: evolves_D)
  have r: "emits (speaks_for (sess_id s)) (broadcast_leader_nonce E s2 n)" if "sess_id s2 = sess_id s" for s2 n
    using speaks_nonce [of s2 E n] that by simp
  show ?thesis
    unfolding on_leader_commitment_def Let_def
    by (intro emits_bind_lift emits_bind_post [OF _ b] emits_if emits_bind speaks_start emits_ret r)
      (simp_all add: received_leader_commitment_def)
qed

lemma speaks_message: "emits (speaks_for (sess_id s)) (handle_session_message E cfg keys s m pid)"
proof -
  have st: "emits (speaks_for (sess_id s)) (start_leader_election E x)" if "sess_id x = sess_id s" for x
    using speaks_start [of x E] that by simp
  have "emits (speaks_for (sess_id s)) (on_adaptor_point E s p pid)" for p
    unfolding on_adaptor_point_def Let_def by (intro emits_rules st) simp
  moreover have "discreet (on_leader_nonce E cfg keys s n pid)" for n
    unfolding on_leader_nonce_def
    by (intro emits_rules reserved_refund_signing.discreet_op reserved_spend_signing.discreet_op)
  moreover have "discreet (on_secret_reveal E cfg keys s x pid)" for x
    unfolding on_secret_reveal_def Let_def by (intro emits_rules told_claim.discreet_op)
  ultimately show ?thesis
    unfolding handle_session_message_def
    by (cases m) (auto intro: speaks_commitment speaks_reticent told_schnorr.discreet_op told_partial.discreet_op)
qed

text \<open>A message for the session is answered; the session may exist no longer when the pollers panic.\<close>

lemma wp_message_answered:
  assumes s: "hm_get (sessions d) (env_session_id v) = Some s"
    and w: "word_kept E i s t" and cr: "credible i s (env_msg v) (env_participant_id v)"
  shows "wp (on_peer_message E v d)
    (\<lambda>_ t'. \<exists>s'. answered E i s (env_msg v) (env_participant_id v) s' t')
    (\<lambda>d' t'. \<exists>s'. hm_get (sessions d') = (hm_get (sessions d))(env_session_id v \<mapsto> s') \<and>
       answered E i s (env_msg v) (env_participant_id v) s' t' \<and>
       claim_pollers (env_session_id v) t' \<subseteq> claim_pollers (env_session_id v) t \<union> set_option (leader s')) t"
    (is "wp _ ?R ?Q t")
proof -
  let ?sid = "env_session_id v"
  have keep: "answered E i s (env_msg v) (env_participant_id v) s' t'"
    if "answered E i s (env_msg v) (env_participant_id v) s' t1" "said t' = said t1" for s' t1 t'
    by (rule answered_trans [OF that(1) refl refl refl that(2)])
  have h: "wp (handle_session_message E (config d) (swap_keys d) s (env_msg v) (env_participant_id v)) ?R
      (\<lambda>s' t1. answered E i s (env_msg v) (env_participant_id v) s' t1 \<and>
         claim_pollers ?sid t1 = claim_pollers ?sid t) t"
  proof -
    have e: "emits (speaks_for (sess_id s))
        (handle_session_message E (config d) (swap_keys d) s (env_msg v) (env_participant_id v))"
      by (rule speaks_message)
    show ?thesis
      by (rule wp_mono [OF wp_emits [OF e answers_message [OF w cr]]])
        (auto intro: answered_same [OF w] dest: claim_pollers_grown [where L = "{}" and sid = ?sid]
          simp: speaks_for_def)
  qed
  show ?thesis
    unfolding on_peer_message_def Let_def s option.case
      wp_bind [of "handle_session_message E (config d) (swap_keys d) s (env_msg v) (env_participant_id v)"]
  proof (rule wp_mono [OF h])
    fix s' t1
    assume 1: "answered E i s (env_msg v) (env_participant_id v) s' t1 \<and>
         claim_pollers ?sid t1 = claim_pollers ?sid t"
    then have a: "answered E i s (env_msg v) (env_participant_id v) s' t1"
      and c: "claim_pollers ?sid t1 = claim_pollers ?sid t" by blast+
    have s': "hm_get (sessions (put_session ?sid s' d)) ?sid = Some s'" by simp
    show "wp (if terminal (state s') then cancel_session_pollers ?sid (put_session ?sid s' d)
        else maybe_spawn_pollers ?sid (put_session ?sid s' d)) ?R ?Q t1"
    proof (rule wp_cases)
      show "wp (cancel_session_pollers ?sid (put_session ?sid s' d)) ?R ?Q t1"
        by (rule wp_mono [OF wp_cancel_silent]) (use c keep [OF a] in auto)
      show "wp (maybe_spawn_pollers ?sid (put_session ?sid s' d)) ?R ?Q t1"
        by (rule wp_mono [OF wp_spawn_claims [OF s']]) (use c keep [OF a] in auto)
    qed
  qed
qed

text \<open>A message for another session says nothing in this one.\<close>

lemma wp_message_elsewhere:
  assumes s: "hm_get (sessions d) (env_session_id v) = Some s" and "sess_id s = env_session_id v"
    and "sid \<noteq> env_session_id v"
  shows "wp (on_peer_message E v d)
    (\<lambda>_ t'. said t \<subseteq> said t' \<and> (\<forall>v \<in> said t' - said t. env_session_id v \<noteq> sid))
    (\<lambda>d' t'. hm_get (sessions d') sid = hm_get (sessions d) sid \<and>
       said t \<subseteq> said t' \<and> (\<forall>v \<in> said t' - said t. env_session_id v \<noteq> sid) \<and>
       claim_pollers sid t' = claim_pollers sid t) t"
    (is "wp _ ?R ?Q t")
proof -
  let ?j = "env_session_id v"
  have h: "wp (handle_session_message E (config d) (swap_keys d) s (env_msg v) (env_participant_id v)) ?R
      (\<lambda>_ t1. ?R undefined t1 \<and> claim_pollers sid t1 = claim_pollers sid t) t"
  proof (rule wp_mono [OF wp_emits_only [OF speaks_message]])
    fix t1 assume g: "grown (speaks_for (sess_id s)) t t1"
    have "said t \<subseteq> said t1 \<and> said t1 \<subseteq> said t \<union> {v. env_session_id v = ?j}"
      by (rule said_grown [OF g]) (auto simp: speaks_for_def assms(2))
    then show "?R undefined t1" using assms(3) by auto
    then show "?R undefined t1 \<and> claim_pollers sid t1 = claim_pollers sid t"
      using claim_pollers_grown [OF g, of sid "{}"] by (auto simp: speaks_for_def)
  qed
  show ?thesis
    unfolding on_peer_message_def Let_def s option.case
      wp_bind [of "handle_session_message E (config d) (swap_keys d) s (env_msg v) (env_participant_id v)"]
  proof (rule wp_mono [OF h])
    fix s' t1
    assume 1: "?R undefined t1 \<and> claim_pollers sid t1 = claim_pollers sid t"
    have s': "hm_get (sessions (put_session ?j s' d)) ?j = Some s'" by simp
    show "wp (if terminal (state s') then cancel_session_pollers ?j (put_session ?j s' d)
        else maybe_spawn_pollers ?j (put_session ?j s' d)) ?R ?Q t1"
    proof (rule wp_cases)
      show "wp (cancel_session_pollers ?j (put_session ?j s' d)) ?R ?Q t1"
        by (rule wp_mono [OF wp_cancel_silent]) (use 1 assms(3) in auto)
      show "wp (maybe_spawn_pollers ?j (put_session ?j s' d)) ?R ?Q t1"
        by (rule wp_mono [OF wp_spawn_claims [OF s']]) (use 1 assms(3) in auto)
    qed
  qed
qed

section \<open>Polls\<close>

text \<open>A poll keeps the election of its session; the poll for the leader's spend may add a secret, under the
  id it was started for.\<close>

definition like :: "chain_poll_target \<Rightarrow> session \<Rightarrow> session \<Rightarrow> bool" where
  "like target s s' \<longleftrightarrow> pledges s' = pledges s \<and>
     (\<forall>k x. hm_get (adaptor_secrets s') k = Some x \<longrightarrow>
        hm_get (adaptor_secrets s) k = Some x \<or> target = LeaderSpendTx k)"

lemma like_holdings: "holdings s' = holdings s1 \<Longrightarrow> like target s s1 \<Longrightarrow> like target s s'"
  by (simp add: like_def holdings_def)

lemma like_same: "holdings s' = holdings s \<Longrightarrow> like target s s'"
  by (simp add: like_def holdings_def)

lemma like_extracted:
  assumes "other_holdings l s' = other_holdings l s"
  shows "like (LeaderSpendTx l) s s'"
proof -
  have f: "((hm_get (adaptor_secrets s')) (l := None)) k = ((hm_get (adaptor_secrets s)) (l := None)) k" for k
    using assms by (simp add: other_holdings_def)
  then show ?thesis
    using assms f by (auto simp: like_def other_holdings_def split: if_splits) (metis fun_upd_apply)
qed

definition polled :: "session_id \<Rightarrow> chain_poll_target \<Rightarrow> daemon \<Rightarrow> trace \<Rightarrow> daemon \<Rightarrow> trace \<Rightarrow> bool" where
  "polled sid target d t d' t' \<longleftrightarrow>
     (\<forall>j. j \<noteq> sid \<longrightarrow> hm_get (sessions d') j = hm_get (sessions d) j \<and> claim_pollers j t' = claim_pollers j t) \<and>
     (\<forall>s. hm_get (sessions d) sid = Some s \<longrightarrow> (\<exists>s'. hm_get (sessions d') sid = Some s' \<and> like target s s' \<and>
        claim_pollers sid t' \<subseteq> claim_pollers sid t \<union> set_option (leader s)))"

abbreviation same_claims :: "trace \<Rightarrow> trace \<Rightarrow> bool" where
  "same_claims t t' \<equiv> (\<forall>j. claim_pollers j t' = claim_pollers j t)"

lemma polled_refl: "same_claims t t' \<Longrightarrow> polled sid target d t d t'"
  by (auto simp: polled_def like_def)

lemma polled_write:
  "hm_get (sessions d) sid = Some s \<Longrightarrow> hm_get (sessions d') = (hm_get (sessions d))(sid \<mapsto> s') \<Longrightarrow>
   like target s s' \<Longrightarrow> same_claims t t' \<Longrightarrow> polled sid target d t d' t'"
  by (auto simp: polled_def)

lemma wp_polled_ret: "polled sid target d t d' t1 \<Longrightarrow> wp (ret d') (\<lambda>_ _. True) (polled sid target d t) t1"
  by (simp add: wp_ret)

lemma wp_polled_cancel:
  assumes "polled sid target d t d1 t1"
  shows "wp (cancel_session_pollers i d1) (\<lambda>_ _. True) (polled sid target d t) t1"
  by (rule wp_mono [OF wp_cancel_silent]) (use assms in \<open>auto simp: polled_def\<close>)

lemma wp_polled_spawn:
  assumes p: "polled sid target d t d1 t1"
  shows "wp (maybe_spawn_pollers sid d1) (\<lambda>_ _. True) (polled sid target d t) t1"
proof (cases "hm_get (sessions d1) sid")
  case None
  then show ?thesis using p by (simp add: maybe_spawn_pollers_def wp_ret)
next
  case (Some s1)
  show ?thesis
  proof (rule wp_mono [OF wp_spawn_claims [OF Some]])
    fix d' :: daemon and t'
    assume q: "sessions d' = sessions d1 \<and> said t' = said t1 \<and>
       claim_pollers sid t' \<subseteq> claim_pollers sid t1 \<union> set_option (leader s1) \<and>
       (\<forall>j. j \<noteq> sid \<longrightarrow> claim_pollers j t' = claim_pollers j t1)"
    have "like target s s1 \<and> claim_pollers sid t' \<subseteq> claim_pollers sid t \<union> set_option (leader s)"
      if "hm_get (sessions d) sid = Some s" for s
    proof -
      have l: "like target s s1" "claim_pollers sid t1 \<subseteq> claim_pollers sid t \<union> set_option (leader s)"
        using p Some that by (auto simp: polled_def)
      then have "leader s1 = leader s" by (simp add: like_def pledges_def)
      then have "claim_pollers sid t' \<subseteq> claim_pollers sid t1 \<union> set_option (leader s)" using q by simp
      then show ?thesis using l by auto
    qed
    then show "polled sid target d t d' t'" using p q Some by (simp add: polled_def)
  qed simp
qed

text \<open>Steps before the session is written: one that only asks, and one that works on the session.\<close>

lemma wp_ask:
  assumes "discreet m" and "same_claims t t1"
    and "\<And>x t2. same_claims t t2 \<Longrightarrow> wp (f x) (\<lambda>_ _. True) Q t2"
  shows "wp (bind m f) (\<lambda>_ _. True) Q t1"
  unfolding wp_bind by (rule wp_mono [OF wp_silent [OF assms(1) wp_True]]) (use assms(2,3) in auto)

lemma wp_lift_then: "(\<And>x. r = Inr x \<Longrightarrow> wp (f x) (\<lambda>_ _. True) Q t) \<Longrightarrow> wp (bind (lift r) f) (\<lambda>_ _. True) Q t"
  by (cases r) (simp_all add: wp_bind wp_lift)

lemma wp_work:
  assumes "discreet m" and "unchanged g pr s1 m" and "same_claims t t1"
    and "\<And>x t2. g (pr x) = g s1 \<Longrightarrow> same_claims t t2 \<Longrightarrow> wp (f x) (\<lambda>_ _. True) Q t2"
  shows "wp (bind m f) (\<lambda>_ _. True) Q t1"
  unfolding wp_bind
  by (rule wp_mono [OF wp_silent [OF assms(1) assms(2) [unfolded unchanged_def, rule_format]]])
    (use assms(3,4) in auto)

lemma wp_polled_refund:
  assumes s: "hm_get (sessions d) sid = Some s"
  shows "wp (poll_refund_window E sid pid s d) (\<lambda>_ _. True) (polled sid target d t) t"
proof -
  have b: "discreet (broadcast_my_refund_tx E s keys cfg)" for keys cfg by (rule emits_broadcast_refund) simp_all
  have w: "discreet (check_refund_window_open E s pid cfg)" for cfg by (rule emits_refund_window) simp
  have fin: "wp (case x of (ok, s1) \<Rightarrow> cancel_session_pollers sid
      (put_session sid (transition_to (if ok then Refunded else Failed) s1) d)) (\<lambda>_ _. True) (polled sid target d t) t2"
    if "holdings (snd x) = holdings s" "same_claims t t2" for x t2
  proof (cases x)
    case (Pair ok s1)
    have "like target s (transition_to (if ok then Refunded else Failed) s1)"
      by (rule like_same) (use that(1) Pair in simp)
    from wp_polled_cancel [OF polled_write [OF s _ this that(2)]] show ?thesis by (simp add: Pair)
  qed
  show ?thesis
    unfolding poll_refund_window_def
    by (intro wp_cases wp_polled_ret polled_refl wp_ask [OF w] wp_work [OF b refund_holdings] fin) simp_all
qed

lemma wp_polled_leader_spend:
  assumes s: "hm_get (sessions d) sid = Some s"
  shows "wp (poll_leader_spend E sid l s d) (\<lambda>_ _. True) (polled sid (LeaderSpendTx l) d t) t"
proof -
  let ?p = "polled sid (LeaderSpendTx l) d t"
  have w: "discreet (check_leader_spend_confirmed E s l cfg)" for cfg by (rule emits_check_leader_spend) simp
  have x: "discreet (extract_secret_and_adapt E s l cfg)" for cfg by (rule emits_extract) simp
  have claim: "wp (bind (broadcast_my_spend_tx E (transition_to Claiming s1) keys cfg) (\<lambda>s2.
      cancel_session_pollers sid (put_session sid (transition_to Completed s2) d))) (\<lambda>_ _. True) ?p t2"
    if "like (LeaderSpendTx l) s s1" "same_claims t t2" for s1 keys cfg t2
  proof (rule wp_work [OF reserved_spend.discreet_op reserved_spend.keeps_holdings that(2)])
    fix s2 t3 assume 2: "holdings s2 = holdings (transition_to Claiming s1)" "same_claims t t3"
    have "like (LeaderSpendTx l) s (transition_to Completed s2)"
      by (rule like_holdings [OF _ that(1)]) (use 2(1) in simp)
    from polled_write [OF s _ this 2(2)] show "wp (cancel_session_pollers sid
        (put_session sid (transition_to Completed s2) d)) (\<lambda>_ _. True) ?p t3"
      by (intro wp_polled_cancel) simp
  qed
  have fin: "wp (case y of (extracted, s1) \<Rightarrow> if \<not> extracted then ret (put_session sid s1 d)
      else bind (broadcast_my_spend_tx E (transition_to Claiming s1) (swap_keys d) (config d)) (\<lambda>s2.
      cancel_session_pollers sid (put_session sid (transition_to Completed s2) d))) (\<lambda>_ _. True) ?p t2"
    if "other_holdings l (snd y) = other_holdings l s" "same_claims t t2" for y t2
  proof (cases y)
    case (Pair ex s1)
    have l: "like (LeaderSpendTx l) s s1" by (rule like_extracted) (use that(1) Pair in simp)
    show ?thesis
      unfolding Pair split_conv
      by (rule wp_cases, rule wp_polled_ret, rule polled_write [OF s _ l that(2)], simp, rule claim [OF l that(2)])
  qed
  show ?thesis
    unfolding poll_leader_spend_def
    by (intro wp_cases wp_polled_ret polled_refl wp_ask [OF w] wp_work [OF x extraction_holdings] fin) simp_all
qed

lemma wp_polled_lock:
  assumes s: "hm_get (sessions d) sid = Some s"
  shows "wp (poll_lock_tx E sid pid s d) (\<lambda>_ _. True) (polled sid target d t) t"
proof -
  have conf: "wp (locks_confirmed E sid s1 d1) (\<lambda>_ _. True) (polled sid target d t) t1"
    if h: "holdings s1 = holdings s" and d1: "hm_get (sessions d1) = (hm_get (sessions d))(sid \<mapsto> s1)"
      and t1: "same_claims t t1" for s1 d1 t1
  proof -
    have put: "polled sid target d t (put_session sid s2 d1) t2"
      if "holdings s2 = holdings s" "same_claims t t2" for s2 t2
      by (rule polled_write [OF s, of _ s2]) (use d1 that like_holdings [of s2 s target s] in \<open>auto simp: like_def\<close>)
    have ann: "wp (bind (announce E (transition_to AwaitingLeaderSpend s1) me (SecretReveal x)) (\<lambda>s'.
        maybe_spawn_pollers sid (put_session sid s' d1))) (\<lambda>_ _. True) (polled sid target d t) t1" for me x
      unfolding wp_bind
    proof (rule wp_mono [OF wp_announce])
      fix s' t'
      assume a: "(\<exists>pool. s' = (transition_to AwaitingLeaderSpend s1)\<lparr>connection_pool := pool\<rparr>) \<and>
        (\<exists>new. t' = new @ t1 \<and> list_all (broadcast_effect (get_other_addresses (participants (transition_to AwaitingLeaderSpend s1)))
                (envelope_new (sess_id (transition_to AwaitingLeaderSpend s1)) me (SecretReveal x))) new)"
      then have "same_claims t t'" using t1 claim_pollers_broadcast by auto
      moreover have "holdings s' = holdings s" using a h by auto
      ultimately show "wp (maybe_spawn_pollers sid (put_session sid s' d1)) (\<lambda>_ _. True) (polled sid target d t) t'"
        by (intro wp_polled_spawn put)
    qed simp
    show ?thesis
      unfolding locks_confirmed_def
      by (intro wp_lift_then wp_cases ann wp_polled_ret put) (simp_all add: h t1)
  qed
  have after: "wp (let d1 = put_session sid s1 d;
        d2 = (if pid \<in> confirmed_lock_txs s1
              then d1\<lparr>active_pollers := hm_remove (sid, LockTx pid) (active_pollers d1)\<rparr> else d1) in
      if all_lock_txs_confirmed s1 then locks_confirmed E sid s1 d2 else ret d2) (\<lambda>_ _. True) (polled sid target d t) t1"
    if "holdings s1 = holdings s" "same_claims t t1" for s1 t1
    unfolding Let_def
    by (intro wp_cases conf [OF that(1) _ that(2)] wp_polled_ret polled_write [OF s _ like_holdings [OF that(1)] that(2)])
      (auto simp: like_def)
  show ?thesis
    unfolding poll_lock_tx_def
    by (intro wp_cases wp_polled_ret polled_refl
        wp_work [OF reserved_lock_check.discreet_op reserved_lock_check.keeps_holdings] after) simp_all
qed

lemma wp_polled: "wp (on_chain_poll E sid target d) (\<lambda>_ _. True) (polled sid target d t) t"
proof -
  have "wp (case hm_get (sessions d) sid of None \<Rightarrow> ret d
     | Some s \<Rightarrow> (case target of LockTx pid \<Rightarrow> poll_lock_tx E sid pid s d
          | LeaderSpendTx leader_id \<Rightarrow> poll_leader_spend E sid leader_id s d
          | RefundWindow pid \<Rightarrow> poll_refund_window E sid pid s d))
      (\<lambda>_ _. True) (polled sid target d t) t"
    by (cases "hm_get (sessions d) sid"; cases target)
      (simp_all add: wp_polled_ret polled_refl wp_polled_lock wp_polled_leader_spend wp_polled_refund)
  then show ?thesis unfolding on_chain_poll_def wp_bind by (rule wp_mono) (simp_all add: wp_polled_spawn)
qed

text \<open>All that a poll may say is a secret.\<close>

lemma poll_says:
  "emits (\<lambda>e. reticent e \<or> reveals e \<or> poller_effect sid e) (on_chain_poll E sid target d)"
proof -
  let ?P = "\<lambda>e. reticent e \<or> reveals e \<or> poller_effect sid e"
  have q: "emits ?P m" if "discreet m" for m :: "'a act" by (rule emits_mono [OF that]) simp
  have p: "emits ?P (maybe_spawn_pollers sid d')" "emits ?P (cancel_session_pollers sid d')" for d'
    by (rule emits_mono [OF emits_maybe_spawn], simp) (rule emits_mono [OF emits_cancel], simp)
  have "emits ?P (locks_confirmed E sid s d')" for s d'
    unfolding locks_confirmed_def by (intro emits_rules emits_announce p) simp_all
  then have "emits ?P (poll_lock_tx E sid pid s d)" for pid s
    unfolding poll_lock_tx_def Let_def
    by (intro emits_rules q [OF reserved_lock_check.discreet_op])
  moreover have "emits ?P (poll_leader_spend E sid l s d)" "emits ?P (poll_refund_window E sid pid s d)" for l pid s
    unfolding poll_leader_spend_def poll_refund_window_def
    by (intro emits_rules p q [OF reserved_spend.discreet_op] emits_check_leader_spend emits_extract
        emits_refund_window emits_broadcast_refund; simp)+
  ultimately show ?thesis
    unfolding on_chain_poll_def
    by (intro emits_bind p; cases "hm_get (sessions d) sid"; cases target) simp_all
qed

lemma poll_said:
  assumes "on_chain_poll E sid target d t = (r, t')"
  shows "said t \<subseteq> said t'" and "v \<in> said t' - said t \<Longrightarrow> \<exists>x. env_msg v = SecretReveal x"
proof -
  have "grown (\<lambda>e. reticent e \<or> reveals e \<or> poller_effect sid e) t t'"
    using emits_trace [OF poll_says assms] by (simp add: grown_def)
  from said_grown [OF this, of "{v. \<exists>x. env_msg v = SecretReveal x}"]
  have "said t \<subseteq> said t' \<and> said t' \<subseteq> said t \<union> {v. \<exists>x. env_msg v = SecretReveal x}"
    by (force simp: reveals_def poller_effect_def split: wire_message.splits)
  then show "said t \<subseteq> said t'" "v \<in> said t' - said t \<Longrightarrow> \<exists>x. env_msg v = SecretReveal x" by auto
qed

section \<open>Starting a session\<close>

lemma discreet_start: "discreet (start_swap_session E d sid)"
proof -
  have v: "discreet (validate_funding_utxos E s cfg)" for s cfg by (rule emits_validate) simp
  show ?thesis
    unfolding start_swap_session_def Let_def by (intro emits_rules v reserved_announcement.discreet_op)
qed

lemma wp_start_silent:
  "wp (start_swap_session E d sid) (\<lambda>_ t'. said t' = said t)
     (\<lambda>x t'. polled sid target d t (snd x) t' \<and> said t' = said t) t"
proof (cases "hm_get (sessions d) sid")
  case None
  then show ?thesis by (simp add: start_swap_session_def wp_ret polled_refl)
next
  case (Some s)
  have v: "discreet (validate_funding_utxos E s cfg)" for cfg by (rule emits_validate) simp
  have ann: "wp (bind (broadcast_adaptor_point E s) (\<lambda>s1.
      let s2 = (if state s1 = Initialized then transition_to AwaitingAdaptorPoints s1 else s1) in
      ret (True, put_session sid s2 d))) (\<lambda>_ _. True) (\<lambda>x t'. polled sid target d t (snd x) t') t1"
    if "same_claims t t1" for t1
  proof (rule wp_work [OF reserved_announcement.discreet_op reserved_announcement.keeps_holdings that])
    fix s1 t2 assume 1: "holdings s1 = holdings s" "same_claims t t2"
    let ?s2 = "if state s1 = Initialized then transition_to AwaitingAdaptorPoints s1 else s1"
    have l: "like target s ?s2" by (rule like_same) (use 1(1) in simp)
    have "polled sid target d t (put_session sid ?s2 d) t2"
      by (rule polled_write [OF Some _ l 1(2)]) simp
    then show "wp (let s2 = ?s2 in ret (True, put_session sid s2 d)) (\<lambda>_ _. True)
        (\<lambda>x t'. polled sid target d t (snd x) t') t2" by (simp add: wp_ret)
  qed
  have fail: "polled sid target d t (put_session sid (transition_to Failed s) d) t1" if "same_claims t t1" for t1
    by (rule polled_write [OF Some, of _ "transition_to Failed s"]) (simp_all add: like_same that)
  have "wp (start_swap_session E d sid) (\<lambda>_ _. True) (\<lambda>x t'. polled sid target d t (snd x) t') t"
    unfolding start_swap_session_def Some option.case
  proof (rule wp_ask [where t = t])
    show "discreet (if validate_utxos (config d) then validate_funding_utxos E s (config d) else ret True)"
      by (intro emits_rules v)
  qed (simp, intro wp_cases ann, simp_all add: wp_ret fail)
  from wp_silent [OF discreet_start this] show ?thesis by (rule wp_mono) auto
qed

end
