(* ===== verification/Swap_Network.thy ===== *)
theory Swap_Network
  imports Honest_Daemon
begin

text \<open>
  The daemons of one swap on a network that forges nothing: it may lose, repeat, reorder and misdirect
  what the daemons write, and their chains' services may answer anything. Two of its invariants
  are what the protocol is for: all leaders are the same, and a secret that a daemon holds
  of another participant comes with the evidence that all locks are confirmed.
\<close>

section \<open>The network\<close>

datatype deed = Start session_id | Handle daemon_event

definition perform :: "env \<Rightarrow> deed \<Rightarrow> daemon \<Rightarrow> daemon act" where
  "perform E a d = (case a of
       Start sid \<Rightarrow> bind (start_swap_session E d sid) (\<lambda>(_, d'). ret d')
     | Handle ev \<Rightarrow> handle_event E ev d)"

text \<open>The daemons by the participants they belong to, with their traces; a panic takes a daemon down.\<close>

record network =
  node :: "participant_id \<Rightarrow> daemon"
  trail :: "participant_id \<Rightarrow> trace"
  up :: "participant_id set"

definition sent :: "trace \<Rightarrow> envelope set" where
  "sent t = {v. \<exists>a b k. TcpWrite a v b k \<in> set t}"

text \<open>A message must have been written by some daemon of the swap, a tick needs a poller.\<close>

definition possible :: "participant_id set \<Rightarrow> network \<Rightarrow> participant_id \<Rightarrow> deed \<Rightarrow> bool" where
  "possible ids W i a = (case a of
       Start _ \<Rightarrow> True
     | Handle (PeerMessage v _) \<Rightarrow> (\<exists>j \<in> ids. v \<in> sent (trail W j))
     | Handle (ChainPoll sid target) \<Rightarrow> PollerSpawned sid target \<in> set (trail W i))"

definition after :: "participant_id \<Rightarrow> daemon res \<times> trace \<Rightarrow> network \<Rightarrow> network" where
  "after i x W = (case x of
       (Inl _, t') \<Rightarrow> W\<lparr>trail := (trail W)(i := t'), up := up W - {i}\<rparr>
     | (Inr d', t') \<Rightarrow> W\<lparr>node := (node W)(i := d'), trail := (trail W)(i := t')\<rparr>)"

inductive net_step :: "(participant_id \<Rightarrow> env) \<Rightarrow> participant_id set \<Rightarrow> network \<Rightarrow> network \<Rightarrow> bool"
  for E ids where
  deed: "i \<in> up W \<Longrightarrow> possible ids W i a \<Longrightarrow>
    net_step E ids W (after i (perform (E i) a (node W i) (trail W i)) W)"

inductive_cases net_stepE: "net_step E ids W W'"

text \<open>At first every daemon holds a session of the same swap, fresh as \<open>session_new\<close> makes it, of which
  nothing has been said.\<close>

definition fresh_session :: "participant_id \<Rightarrow> session \<Rightarrow> bool" where
  "fresh_session i s \<longleftrightarrow> get_my_id (participants s) = Inr i \<and> leader s = None \<and>
     leader_nonces s = [] \<and> leader_commitments s = [] \<and> hm_keys (adaptor_secrets s) = [i]"

definition net_start :: "(participant_id \<Rightarrow> env) \<Rightarrow> participant_id set \<Rightarrow> session_id \<Rightarrow> network \<Rightarrow> bool" where
  "net_start E ids sid W \<longleftrightarrow> up W = ids \<and> (\<forall>i \<in> ids.
     (\<exists>keys cfg. reachable (E i) keys cfg (node W i, trail W i)) \<and>
     (\<exists>s. hm_get (sessions (node W i)) sid = Some s \<and> fresh_session i s \<and>
        set (bt_keys (participants s)) = ids) \<and>
     (\<forall>v \<in> sent (trail W i). env_session_id v \<noteq> sid) \<and>
     (\<forall>p. PollerSpawned sid p \<notin> set (trail W i)))"

inductive net_reachable ::
  "(participant_id \<Rightarrow> env) \<Rightarrow> participant_id set \<Rightarrow> session_id \<Rightarrow> network \<Rightarrow> bool" for E ids sid where
  start: "net_start E ids sid W \<Longrightarrow> net_reachable E ids sid W"
| step: "net_reachable E ids sid W \<Longrightarrow> net_step E ids W W' \<Longrightarrow> net_reachable E ids sid W'"

section \<open>One deed\<close>

text \<open>What the session hears in a deed.\<close>

definition heard :: "session_id \<Rightarrow> deed \<Rightarrow> (participant_id \<times> wire_message) option" where
  "heard sid a = (case a of
       Handle (PeerMessage v _) \<Rightarrow>
         if env_session_id v = sid then Some (env_participant_id v, env_msg v) else None
     | _ \<Rightarrow> None)"

definition moved :: "env \<Rightarrow> participant_id \<Rightarrow> session_id \<Rightarrow> deed \<Rightarrow> session \<Rightarrow> trace \<Rightarrow> session \<Rightarrow> trace \<Rightarrow> bool" where
  "moved E i sid a s t s' t' \<longleftrightarrow> word_kept E i s' t' \<and> participants s' = participants s \<and>
     sess_id s' = sess_id s \<and> said t \<subseteq> said t' \<and>
     (\<forall>n. bt_get (leader_nonces s) i = Some n \<longrightarrow> bt_get (leader_nonces s') i = Some n) \<and>
     (\<forall>k n. bt_get (leader_nonces s') k = Some n \<longrightarrow>
        bt_get (leader_nonces s) k = Some n \<or> k = i \<or> heard sid a = Some (k, LeaderElectionNonce n)) \<and>
     (leader s \<noteq> None \<longrightarrow> leader s' = leader s)"

text \<open>And when the daemon survives it.\<close>

definition survived :: "session_id \<Rightarrow> deed \<Rightarrow> session \<Rightarrow> trace \<Rightarrow> session \<Rightarrow> daemon \<Rightarrow> trace \<Rightarrow> bool" where
  "survived sid a s t s' d' t' \<longleftrightarrow> hm_get (sessions d') sid = Some s' \<and>
     claim_pollers sid t' \<subseteq> claim_pollers sid t \<union> set_option (leader s') \<and>
     (\<forall>k x. hm_get (adaptor_secrets s') k = Some x \<longrightarrow> hm_get (adaptor_secrets s) k = Some x \<or>
        heard sid a = Some (k, SecretReveal x) \<or> a = Handle (ChainPoll sid (LeaderSpendTx k)))"

lemma word_kept_elsewhere:
  "word_kept E i s t \<Longrightarrow> (\<And>v. v \<in> said t' - said t \<Longrightarrow> env_session_id v \<noteq> sess_id s) \<Longrightarrow> word_kept E i s t'"
  unfolding word_kept_def by blast

lemma moved_same:
  assumes "word_kept E i s t" and "pledges s' = pledges s" "participants s' = participants s" "sess_id s' = sess_id s"
    and "said t \<subseteq> said t'"
    and "\<And>v. v \<in> said t' - said t \<Longrightarrow> env_session_id v = sess_id s \<Longrightarrow>
      env_participant_id v = i \<and> (\<exists>x. env_msg v = SecretReveal x)"
  shows "moved E i sid a s t s' t'"
proof -
  let ?V = "{v \<in> said t'. env_session_id v = sess_id s}"
  have p: "leader s' = leader s" "leader_nonces s' = leader_nonces s" "leader_commitments s' = leader_commitments s"
    using assms(2) by (simp_all add: pledges_def)
  have "env_participant_id v = i \<and>
        (\<forall>c. env_msg v = LeaderElectionCommitment c \<longrightarrow> bt_get (leader_commitments s) i = Some c) \<and>
        (\<forall>n. env_msg v = LeaderElectionNonce n \<longrightarrow> bt_get (leader_nonces s) i = Some n)" if "v \<in> ?V" for v
  proof (cases "v \<in> said t")
    case True
    then show ?thesis using assms(1) that by (simp add: word_kept_def)
  next
    case False
    then show ?thesis using assms(6) [of v] that by auto
  qed
  then have "word_kept E i s' t'"
    using assms(1,3,4) p elected_cong [OF assms(2,3), of E] by (simp add: word_kept_def)
  then show ?thesis using assms(3-5) p by (simp add: moved_def)
qed

lemma advanced_setup:
  "advanced E cfg t s s' \<Longrightarrow> participants s' = participants s \<and> sess_id s' = sess_id s"
  by (auto simp: advanced_def dest: evolves_D(1) evolves_D(2))

text \<open>An event that reveals a secret is a poll that has seen all locks confirmed.\<close>

lemma event_reveals:
  assumes run: "handle_event E ev d t = (r, t')" and v: "v \<in> said t' - said t" and x: "env_msg v = SecretReveal x"
  shows "\<exists>sid target s me. ev = ChainPoll sid target \<and> hm_get (sessions d) sid = Some s \<and>
    get_my_id (participants s) = Inr me \<and> v = envelope_new (sess_id s) me (SecretReveal x) \<and>
    (\<forall>k \<in> members (participants s). k \<in> confirmed_lock_txs s \<or> lock_evidence E (config d) (participants s) k t')"
proof -
  have "guarded (reveal_due E d ev) t t'"
    using wp_reveals [of E ev d t] run by (auto simp: wp_def split: sum.splits)
  then obtain new where t': "t' = new @ t"
    and g: "\<And>n1 e n0. new = n1 @ e # n0 \<Longrightarrow> reveal_due E d ev e (n0 @ t)"
    unfolding guarded_def by blast
  obtain a b k where e: "TcpWrite a v b k \<in> set new"
    using v by (auto simp: t' said_def)
  then obtain n1 n0 where n: "new = n1 @ TcpWrite a v b k # n0" by (meson split_list)
  have "reveals (TcpWrite a v b k)" using x by (simp add: reveals_def)
  then obtain sid pid s where s: "ev = ChainPoll sid (LockTx pid)" "hm_get (sessions d) sid = Some s"
    "reveals_own s (TcpWrite a v b k)"
    "\<forall>k \<in> members (participants s). k \<in> confirmed_lock_txs s \<or> lock_evidence E (config d) (participants s) k (n0 @ t)"
    using g [OF n] unfolding reveal_due_def by auto
  have "set (n0 @ t) \<subseteq> set t'" by (auto simp: t' n)
  then have "\<forall>k \<in> members (participants s). k \<in> confirmed_lock_txs s \<or> lock_evidence E (config d) (participants s) k t'"
    using s(4) lock_evidence_mono by blast
  then show ?thesis using s(1-3) x unfolding reveals_own_def by auto
qed

lemma perform_grows: "perform E a d t = (r, t') \<Longrightarrow> set t \<subseteq> set t'"
proof (cases a)
  case (Start sid)
  have "emits reticent (perform E a d)"
    unfolding perform_def Start deed.case by (intro emits_rules discreet_start)
  moreover assume "perform E a d t = (r, t')"
  ultimately show ?thesis by (auto dest!: emits_trace)
next
  case (Handle ev)
  moreover assume "perform E a d t = (r, t')"
  ultimately have "guarded (reveal_due E d ev) t t'"
    using wp_reveals [of E ev d t] by (auto simp: perform_def wp_def split: sum.splits)
  then show ?thesis by (auto simp: guarded_def)
qed

lemma perform_setup:
  assumes "perform E a d t = (Inr d', t')" and "hm_get (sessions d) sid = Some s" and "hm_get (sessions d') sid = Some s'"
  shows "participants s' = participants s" and "sess_id s' = sess_id s"
proof -
  have "advances E t' d d'"
  proof (cases a)
    case (Start j)
    then obtain ok where "start_swap_session E d j t = (Inr (ok, d'), t')"
      using assms(1) by (auto simp: perform_def bind_def ret_def split: prod.splits sum.splits)
    from wp_Inr [OF wp_start_swap_session this] show ?thesis by (simp add: event_post_def)
  next
    case (Handle ev)
    then have "handle_event E ev d t = (Inr d', t')" using assms(1) by (simp add: perform_def)
    from wp_Inr [OF wp_handle_event this] show ?thesis by (simp add: event_post_def)
  qed
  then have "advanced E (config d) t' s s'" using assms(2,3) by (simp add: advances_def)
  then show "participants s' = participants s" "sess_id s' = sess_id s"
    using advanced_setup by blast+
qed

text \<open>Every deed: the word is kept, and the daemon that survives it still has its session.\<close>

lemma moved_polled:
  assumes w: "word_kept E i s t" and s: "hm_get (sessions d) sid = Some s"
    and run: "perform E a d t = (Inr d', t')" and p: "polled j target d t d' t'"
    and v: "said t \<subseteq> said t'" "\<And>v. v \<in> said t' - said t \<Longrightarrow> env_session_id v = sess_id s \<Longrightarrow>
      env_participant_id v = i \<and> (\<exists>x. env_msg v = SecretReveal x)"
    and a: "\<And>l. target = LeaderSpendTx l \<Longrightarrow> a = Handle (ChainPoll j target)"
  shows "\<exists>s'. moved E i sid a s t s' t' \<and> survived sid a s t s' d' t'"
proof -
  obtain s' where s': "hm_get (sessions d') sid = Some s'" and l: "j = sid \<longrightarrow> like target s s'" "j \<noteq> sid \<longrightarrow> s' = s"
    and c: "claim_pollers sid t' \<subseteq> claim_pollers sid t \<union> set_option (leader s)"
    using p s by (cases "j = sid") (auto simp: polled_def)
  have pl: "pledges s' = pledges s" using l by (cases "j = sid") (auto simp: like_def)
  have "moved E i sid a s t s' t'"
    by (rule moved_same [OF w pl perform_setup [OF run s s'] v])
  moreover have "hm_get (adaptor_secrets s) k = Some x \<or> a = Handle (ChainPoll sid (LeaderSpendTx k))"
    if "hm_get (adaptor_secrets s') k = Some x" for k x
    using that l a [of k] by (cases "j = sid") (auto simp: like_def)
  ultimately show ?thesis using s' c pl by (auto simp: survived_def pledges_def)
qed

lemma perform_moved:
  assumes ids: "\<And>j x. hm_get (sessions d) j = Some x \<Longrightarrow> sess_id x = j"
    and s: "hm_get (sessions d) sid = Some s" and w: "word_kept E i s t"
    and cr: "\<And>k m. heard sid a = Some (k, m) \<Longrightarrow> credible i s m k"
    and run: "perform E a d t = (r, t')"
  shows "\<exists>s'. moved E i sid a s t s' t' \<and> (\<forall>d'. r = Inr d' \<longrightarrow> survived sid a s t s' d' t')"
proof (cases a)
  case (Start j)
  have "wp (perform E a d) (\<lambda>_ t'. said t' = said t) (\<lambda>d' t'. polled j (LockTx 0) d t d' t' \<and> said t' = said t) t"
    unfolding perform_def Start deed.case wp_bind
    by (rule wp_mono [OF wp_start_silent]) (auto simp: wp_ret)
  then have q: "said t' = said t" "\<And>d'. r = Inr d' \<Longrightarrow> polled j (LockTx 0) d t d' t'"
    using run by (auto simp: wp_def split: sum.splits)
  show ?thesis
  proof (cases r)
    case (Inl e)
    then show ?thesis using moved_same [OF w refl refl refl, of t' sid a] q(1) by auto
  next
    case (Inr d')
    from moved_polled [OF w s run [unfolded Inr] q(2) [OF Inr]] q(1) show ?thesis using Inr by auto
  qed
next
  case (Handle ev)
  show ?thesis
  proof (cases ev)
    case (ChainPoll j target)
    have p: "on_chain_poll E j target d t = (r, t')"
      using run by (simp add: perform_def handle_event_def Handle ChainPoll)
    have v: "env_participant_id v = i \<and> (\<exists>x. env_msg v = SecretReveal x)"
      if vn: "v \<in> said t' - said t" and vs: "env_session_id v = sess_id s" for v
    proof -
      obtain x where x: "env_msg v = SecretReveal x" using poll_said(2) [OF p vn] by blast
      have "handle_event E (ChainPoll j target) d t = (r, t')" using p by (simp add: handle_event_def)
      from event_reveals [OF this vn x] obtain sj me where sj: "hm_get (sessions d) j = Some sj"
        "get_my_id (participants sj) = Inr me" "v = envelope_new (sess_id sj) me (SecretReveal x)" by auto
      then have "j = sid" using ids [OF sj(1)] ids [OF s] vs by simp
      then show ?thesis using sj s w by (simp add: word_kept_def)
    qed
    show ?thesis
    proof (cases r)
      case (Inl e)
      then show ?thesis using moved_same [OF w refl refl refl poll_said(1) [OF p] v] by auto
    next
      case (Inr d')
      have "polled j target d t d' t'" using wp_Inr [OF wp_polled] p Inr by blast
      from moved_polled [OF w s run [unfolded Inr] this poll_said(1) [OF p] v] show ?thesis
        using Inr Handle ChainPoll by auto
    qed
  next
    case (PeerMessage v addr)
    have p: "on_peer_message E v d t = (r, t')"
      using run by (simp add: perform_def handle_event_def Handle PeerMessage)
    show ?thesis
    proof (cases "env_session_id v = sid")
      case True
      have h: "heard sid a = Some (env_participant_id v, env_msg v)"
        by (simp add: heard_def Handle PeerMessage True)
      have "\<exists>s'. answered E i s (env_msg v) (env_participant_id v) s' t' \<and> (\<forall>d'. r = Inr d' \<longrightarrow>
          hm_get (sessions d') = (hm_get (sessions d))(sid \<mapsto> s') \<and>
          claim_pollers sid t' \<subseteq> claim_pollers sid t \<union> set_option (leader s'))"
        using wp_message_answered [OF _ w cr [OF h], of d] s p True
        by (auto simp: wp_def split: sum.splits)
      then obtain s' where "answered E i s (env_msg v) (env_participant_id v) s' t'"
        "\<And>d'. r = Inr d' \<Longrightarrow> hm_get (sessions d') sid = Some s' \<and>
          claim_pollers sid t' \<subseteq> claim_pollers sid t \<union> set_option (leader s')" by auto
      moreover have "said t \<subseteq> said t'" using perform_grows [OF run] by (auto simp: said_def)
      ultimately show ?thesis
        by (intro exI [of _ s']) (auto simp: moved_def survived_def answered_def h)
    next
      case False
      show ?thesis
      proof (cases "hm_get (sessions d) (env_session_id v)")
        case None
        then have "r = Inl (PanicMsg ''Session does not exist'')" "t' = t"
          using p by (auto simp: on_peer_message_def Let_def lift_def)
        then show ?thesis using moved_same [OF w refl refl refl, of t' sid a] by auto
      next
        case (Some s2)
        have "said t \<subseteq> said t' \<and> (\<forall>v \<in> said t' - said t. env_session_id v \<noteq> sid) \<and> (\<forall>d'. r = Inr d' \<longrightarrow>
            hm_get (sessions d') sid = Some s \<and> claim_pollers sid t' = claim_pollers sid t)"
          using wp_message_elsewhere [OF Some ids [OF Some], of sid E t] p False s
          by (auto simp: wp_def split: sum.splits)
        then show ?thesis
          using moved_same [OF w refl refl refl, of t' sid a] ids [OF s]
          by (intro exI [of _ s]) (auto simp: survived_def)
      qed
    qed
  qed
qed

section \<open>The invariant\<close>

text \<open>The session \<open>S i\<close> of participant \<open>i\<close> is the one its daemon holds, or what it would hold when the
  daemon has panicked. Every nonce in it is the one its owner holds; every secret of another was
  revealed by its owner, or extracted from the leader's claim.\<close>

definition has_revealed :: "session_id \<Rightarrow> trace \<Rightarrow> string \<Rightarrow> bool" where
  "has_revealed sid t x \<longleftrightarrow> (\<exists>v \<in> said t. env_session_id v = sid \<and> env_msg v = SecretReveal x)"

definition words_ok :: "(participant_id \<Rightarrow> env) \<Rightarrow> participant_id set \<Rightarrow> session_id \<Rightarrow> network \<Rightarrow>
    (participant_id \<Rightarrow> session) \<Rightarrow> bool" where
  "words_ok E ids sid W S \<longleftrightarrow> (\<forall>i \<in> ids. sess_id (S i) = sid \<and> bt_ok (participants (S i)) \<and>
     set (bt_keys (participants (S i))) = ids \<and> word_kept (E i) i (S i) (trail W i) \<and>
     (\<forall>k n. bt_get (leader_nonces (S i)) k = Some n \<longrightarrow> k \<in> ids \<and> bt_get (leader_nonces (S k)) k = Some n))"

definition daemons_ok :: "(participant_id \<Rightarrow> env) \<Rightarrow> participant_id set \<Rightarrow> session_id \<Rightarrow> network \<Rightarrow>
    (participant_id \<Rightarrow> session) \<Rightarrow> bool" where
  "daemons_ok E ids sid W S \<longleftrightarrow> up W \<subseteq> ids \<and>
     (\<forall>i \<in> ids. \<exists>s. hm_get (sessions (node W i)) sid = Some s \<and> participants s = participants (S i)) \<and>
     (\<forall>i \<in> up W. hm_get (sessions (node W i)) sid = Some (S i) \<and>
     (\<exists>keys cfg. reachable (E i) keys cfg (node W i, trail W i)) \<and>
     claim_pollers sid (trail W i) \<subseteq> set_option (leader (S i)))"

definition secrets_ok :: "(participant_id \<Rightarrow> env) \<Rightarrow> participant_id set \<Rightarrow> session_id \<Rightarrow> network \<Rightarrow>
    (participant_id \<Rightarrow> session) \<Rightarrow> bool" where
  "secrets_ok E ids sid W S \<longleftrightarrow>
     (\<forall>i \<in> ids. \<forall>x. has_revealed sid (trail W i) x \<longrightarrow>
        (\<forall>k \<in> ids. lock_evidence (E i) (config (node W i)) (participants (S i)) k (trail W i))) \<and>
     (\<forall>i \<in> up W. \<forall>k x. k \<noteq> i \<longrightarrow> hm_get (adaptor_secrets (S i)) k = Some x \<longrightarrow>
        leader (S i) = Some k \<or> k \<in> ids \<and> has_revealed sid (trail W k) x)"

lemma said_sent: "v \<in> said t \<longleftrightarrow> v \<in> sent t \<and> confides (env_msg v)"
  by (auto simp: said_def sent_def)

text \<open>On this network every message is credible.\<close>

lemma network_credible:
  assumes ok: "words_ok E ids sid W S" and i: "i \<in> ids" and p: "possible ids W i a"
    and h: "heard sid a = Some (k, m)"
  shows "credible i (S i) m k" and "confides m \<Longrightarrow> k \<in> ids"
    and "m = LeaderElectionNonce n \<Longrightarrow> bt_get (leader_nonces (S k)) k = Some n"
    and "m = SecretReveal x \<Longrightarrow> has_revealed sid (trail W k) x"
proof -
  obtain v addr j where v: "a = Handle (PeerMessage v addr)" "env_session_id v = sid" "env_participant_id v = k"
    "env_msg v = m" "j \<in> ids" "v \<in> sent (trail W j)"
    using h p by (auto simp: heard_def possible_def split: deed.splits daemon_event.splits if_splits)
  have w: "word_kept (E j) j (S j) (trail W j)" "sess_id (S j) = sid" using ok v(5) by (simp_all add: words_ok_def)
  have k: "k = j \<and> (\<forall>c. m = LeaderElectionCommitment c \<longrightarrow> bt_get (leader_commitments (S j)) j = Some c) \<and>
        (\<forall>n. m = LeaderElectionNonce n \<longrightarrow> bt_get (leader_nonces (S j)) j = Some n)" if "confides m"
    using w v that unfolding word_kept_def by (metis said_sent)
  show "confides m \<Longrightarrow> k \<in> ids" using k v(5) by simp
  show n: "m = LeaderElectionNonce n \<Longrightarrow> bt_get (leader_nonces (S k)) k = Some n" for n using k by simp
  show "m = SecretReveal x \<Longrightarrow> has_revealed sid (trail W k) x"
    using k v by (auto simp: has_revealed_def said_sent)
  have "bt_get (leader_nonces (S i)) k = Some n"
    if m: "m = LeaderElectionNonce n" and "k = i \<or> leader (S i) \<noteq> None" for n
  proof (cases "k = i")
    case True
    then show ?thesis using n [OF m] by simp
  next
    case False
    have w: "word_kept (E i) i (S i) (trail W i)" "set (bt_keys (participants (S i))) = ids"
      using ok i by (simp_all add: words_ok_def)
    have all: "all_leader_nonces_received (S i)"
      using w(1) that(2) False by (simp add: word_kept_def elected_def)
    have "k \<in> ids" using k v(5) m by simp
    then obtain n' where n': "bt_get (leader_nonces (S i)) k = Some n'"
      using all w(2) by (auto simp: all_leader_nonces_received_def list_all_iff bt_contains_def)
    moreover have "bt_get (leader_nonces (S k)) k = Some n'" using n' ok i by (simp add: words_ok_def)
    ultimately show ?thesis using n [OF m] by simp
  qed
  then show "credible i (S i) m k" using k by (auto simp: credible_def)
qed

lemma perform_step:
  assumes "perform E a d t = (Inr d', t')" and "possible ids W i a" and "trail W i = t"
  shows "daemon_step E (d, t) (d', t')"
proof (cases a)
  case (Start sid)
  then obtain ok where "start_swap_session E d sid t = (Inr (ok, d'), t')"
    using assms(1) by (auto simp: perform_def bind_def ret_def split: prod.splits sum.splits)
  then show ?thesis by (rule daemon_step.start)
next
  case (Handle ev)
  then show ?thesis
    using assms by (cases ev) (auto simp: perform_def possible_def intro: daemon_step.peer daemon_step.poll)
qed

lemma after_simps [simp]:
  "trail (after i (r, t') W) = (trail W)(i := t')"
  "up (after i (r, t') W) = (case r of Inl _ \<Rightarrow> up W - {i} | Inr _ \<Rightarrow> up W)"
  "node (after i (r, t') W) = (case r of Inl _ \<Rightarrow> node W | Inr d' \<Rightarrow> (node W)(i := d'))"
  by (simp_all add: after_def split: sum.splits)

lemma words_ok_step:
  assumes ok: "words_ok E ids sid W S" and i: "i \<in> ids" and p: "possible ids W i a"
    and m: "moved (E i) i sid a (S i) (trail W i) s' t'"
  shows "words_ok E ids sid (after i (r, t') W) (S(i := s'))"
proof -
  have m': "word_kept (E i) i s' t'" "participants s' = participants (S i)" "sess_id s' = sess_id (S i)"
    "\<And>n. bt_get (leader_nonces (S i)) i = Some n \<Longrightarrow> bt_get (leader_nonces s') i = Some n"
    "\<And>k n. bt_get (leader_nonces s') k = Some n \<Longrightarrow>
        bt_get (leader_nonces (S i)) k = Some n \<or> k = i \<or> heard sid a = Some (k, LeaderElectionNonce n)"
    using m by (simp_all add: moved_def)
  have own: "bt_get (leader_nonces ((S(i := s')) k)) k = Some n" if "bt_get (leader_nonces (S k)) k = Some n" for k n
    using that m'(4) by (cases "k = i") auto
  have old: "k \<in> ids \<and> bt_get (leader_nonces ((S(i := s')) k)) k = Some n"
    if "j \<in> ids" "bt_get (leader_nonces (S j)) k = Some n" for j k n
    using ok that own by (auto simp: words_ok_def)
  have new: "k \<in> ids \<and> bt_get (leader_nonces ((S(i := s')) k)) k = Some n"
    if s': "bt_get (leader_nonces s') k = Some n" for k n
  proof (cases "k = i")
    case True
    then show ?thesis using i s' by simp
  next
    case False
    then show ?thesis
      using m'(5) [OF s'] old [OF i] own network_credible(2,3) [OF ok i p] by fastforce
  qed
  show ?thesis
    unfolding words_ok_def
  proof (intro ballI)
    fix j assume j: "j \<in> ids"
    show "sess_id ((S(i := s')) j) = sid \<and> bt_ok (participants ((S(i := s')) j)) \<and>
        set (bt_keys (participants ((S(i := s')) j))) = ids \<and>
        word_kept (E j) j ((S(i := s')) j) (trail (after i (r, t') W) j) \<and>
        (\<forall>k n. bt_get (leader_nonces ((S(i := s')) j)) k = Some n \<longrightarrow>
           k \<in> ids \<and> bt_get (leader_nonces ((S(i := s')) k)) k = Some n)"
    proof (cases "j = i")
      case True
      have "sess_id s' = sid" "bt_ok (participants s')" "set (bt_keys (participants s')) = ids"
        using ok i m'(2,3) by (simp_all add: words_ok_def)
      then show ?thesis using True m'(1) new by (simp del: fun_upd_apply) simp
    next
      case False
      then show ?thesis using ok j old [OF j] by (simp add: words_ok_def)
    qed
  qed
qed

lemma daemons_ok_step:
  assumes ok: "daemons_ok E ids sid W S" and i: "i \<in> up W" and p: "possible ids W i a"
    and m: "moved (E i) i sid a (S i) (trail W i) s' t'"
    and run: "perform (E i) a (node W i) (trail W i) = (r, t')"
    and sv: "\<And>d'. r = Inr d' \<Longrightarrow> survived sid a (S i) (trail W i) s' d' t'"
  shows "daemons_ok E ids sid (after i (r, t') W) (S(i := s'))"
proof (cases r)
  case (Inl e)
  have "participants s' = participants (S i)" using m by (simp add: moved_def)
  then show ?thesis using Inl ok by (simp add: daemons_ok_def) blast
next
  case (Inr d')
  have same: "participants s' = participants (S i)" using m by (simp add: moved_def)
  obtain keys cfg where "reachable (E i) keys cfg (node W i, trail W i)"
    using ok i by (auto simp: daemons_ok_def)
  moreover have "daemon_step (E i) (node W i, trail W i) (d', t')"
    using perform_step [OF _ p refl] run Inr by simp
  ultimately have "reachable (E i) keys cfg (d', t')" by (rule reachable.step)
  moreover have "claim_pollers sid t' \<subseteq> set_option (leader s')"
  proof -
    have "claim_pollers sid (trail W i) \<subseteq> set_option (leader (S i))" using ok i by (simp add: daemons_ok_def)
    moreover have "leader (S i) \<noteq> None \<longrightarrow> leader s' = leader (S i)" using m by (simp add: moved_def)
    ultimately have "claim_pollers sid (trail W i) \<subseteq> set_option (leader s')" by (cases "leader (S i)") auto
    then show ?thesis using sv [OF Inr] by (auto simp: survived_def)
  qed
  ultimately show ?thesis
    using ok sv [OF Inr] Inr same by (simp add: daemons_ok_def survived_def) blast
qed

lemma said_moved: "said t \<subseteq> said t' \<Longrightarrow> has_revealed sid t x \<Longrightarrow> has_revealed sid t' x"
  by (auto simp: has_revealed_def)

text \<open>A secret that a deed reveals in the session comes with the evidence for all locks.\<close>

lemma newly_revealed:
  assumes r: "reachable E keys cfg (d, t)" and s: "hm_get (sessions d) sid = Some s"
    and run: "perform E a d t = (r, t')" and new: "has_revealed sid t' x" "\<not> has_revealed sid t x"
    and k: "k \<in> members (participants s)"
  shows "lock_evidence E (config d) (participants s) k t'"
proof -
  have ok: "\<And>j y. hm_get (sessions d) j = Some y \<Longrightarrow> session_ok E cfg t j y" "config d = cfg"
    using reachable_ok [OF r] unfolding daemon_ok_def by blast+
  obtain v where v: "v \<in> said t' - said t" "env_session_id v = sid" "env_msg v = SecretReveal x"
    using new by (auto simp: has_revealed_def)
  show ?thesis
  proof (cases a)
    case (Start j)
    have e: "discreet (perform E a d)"
      unfolding perform_def Start deed.case by (intro emits_rules discreet_start)
    have "grown reticent t t'" using emits_trace [OF e run] by (simp add: grown_def)
    then show ?thesis using v(1) said_discreet by blast
  next
    case (Handle ev)
    then have "handle_event E ev d t = (r, t')" using run by (simp add: perform_def)
    from event_reveals [OF this v(1,3)] obtain j s2 me where j: "hm_get (sessions d) j = Some s2"
      "v = envelope_new (sess_id s2) me (SecretReveal x)"
      "\<forall>k \<in> members (participants s2). k \<in> confirmed_lock_txs s2 \<or> lock_evidence E (config d) (participants s2) k t'"
      by blast
    have "j = sid" using ok(1) [OF j(1)] j(2) v(2) by (simp add: session_ok_def)
    then have "s2 = s" using j(1) s by simp
    moreover have "\<forall>k \<in> confirmed_lock_txs s. lock_evidence E cfg (participants s) k t"
      using ok(1) [OF s] by (simp add: session_ok_def)
    ultimately show ?thesis
      using j(3) k ok(2) lock_evidence_mono [OF _ perform_grows [OF run]] by blast
  qed
qed

lemma secrets_ok_step:
  assumes ok: "words_ok E ids sid W S" "daemons_ok E ids sid W S" "secrets_ok E ids sid W S"
    and i: "i \<in> up W" and p: "possible ids W i a"
    and m: "moved (E i) i sid a (S i) (trail W i) s' t'"
    and run: "perform (E i) a (node W i) (trail W i) = (r, t')"
    and sv: "\<And>d'. r = Inr d' \<Longrightarrow> survived sid a (S i) (trail W i) s' d' t'"
  shows "secrets_ok E ids sid (after i (r, t') W) (S(i := s'))"
proof -
  let ?W' = "after i (r, t') W"
  have ii: "i \<in> ids" using ok(2) i by (auto simp: daemons_ok_def)
  obtain keys cfg where rch: "reachable (E i) keys cfg (node W i, trail W i)"
    and s: "hm_get (sessions (node W i)) sid = Some (S i)" using ok(2) i by (auto simp: daemons_ok_def)
  have grow: "said (trail W i) \<subseteq> said t'" "participants s' = participants (S i)"
    "leader (S i) \<noteq> None \<longrightarrow> leader s' = leader (S i)" using m by (simp_all add: moved_def)
  have cfg: "config (node ?W' i) = config (node W i)"
  proof (cases r)
    case (Inr d')
    have "daemon_step (E i) (node W i, trail W i) (d', t')" using perform_step [OF _ p refl] run Inr by simp
    then show ?thesis using daemon_ok_step reachable_ok [OF rch] Inr by fastforce
  qed simp
  have ev: "lock_evidence (E i) (config (node W i)) (participants s') k t'"
    if "has_revealed sid t' x" "k \<in> ids" for x k
  proof (cases "has_revealed sid (trail W i) x")
    case True
    then have "lock_evidence (E i) (config (node W i)) (participants (S i)) k (trail W i)"
      using ok(3) ii that(2) unfolding secrets_ok_def by blast
    then show ?thesis using lock_evidence_mono [OF _ perform_grows [OF run]] grow(2) by simp
  next
    case False
    have "k \<in> members (participants (S i))" using ok(1) ii that(2) by (simp add: words_ok_def)
    from newly_revealed [OF rch s run that(1) False this] show ?thesis by (simp add: grow(2))
  qed
  have rev: "has_revealed sid (trail ?W' k) x" if "has_revealed sid (trail W k) x" for k x
    using that said_moved [OF grow(1)] by (cases "k = i") auto
  have mine: "leader s' = Some k \<or> k \<in> ids \<and> has_revealed sid (trail ?W' k) x"
    if d': "r = Inr d'" and k: "k \<noteq> i" "hm_get (adaptor_secrets s') k = Some x" for d' k x
  proof -
    consider "hm_get (adaptor_secrets (S i)) k = Some x" | "heard sid a = Some (k, SecretReveal x)"
      | "a = Handle (ChainPoll sid (LeaderSpendTx k))"
      using sv [OF d'] k(2) by (auto simp: survived_def)
    then show ?thesis
    proof cases
      case 1
      then show ?thesis using ok(3) i k(1) grow(3) rev by (fastforce simp: secrets_ok_def)
    next
      case 2
      then show ?thesis using network_credible(2,4) [OF ok(1) ii p 2] rev by simp
    next
      case 3
      then have "k \<in> claim_pollers sid (trail W i)" using p by (simp add: possible_def claim_pollers_def)
      then have "leader (S i) = Some k" using ok(2) i by (auto simp: daemons_ok_def)
      then show ?thesis using grow(3) by simp
    qed
  qed
  have theirs: "leader (S j) = Some k \<or> k \<in> ids \<and> has_revealed sid (trail ?W' k) x"
    if "j \<in> up W" "k \<noteq> j" "hm_get (adaptor_secrets (S j)) k = Some x" for j k x
    using ok(3) that rev by (fastforce simp: secrets_ok_def)
  have one: "lock_evidence (E j) (config (node ?W' j)) (participants ((S(i := s')) j)) k (trail ?W' j)"
    if "j \<in> ids" "has_revealed sid (trail ?W' j) x" "k \<in> ids" for j x k
  proof (cases "j = i")
    case True
    then show ?thesis using ev [of x k] that(2,3) cfg by simp
  next
    case False
    then show ?thesis using ok(3) that by (cases r) (auto simp: secrets_ok_def)
  qed
  have two: "leader ((S(i := s')) j) = Some k \<or> k \<in> ids \<and> has_revealed sid (trail ?W' k) x"
    if "j \<in> up ?W'" "k \<noteq> j" "hm_get (adaptor_secrets ((S(i := s')) j)) k = Some x" for j k x
  proof (cases "j = i")
    case True
    then show ?thesis using mine that by (cases r) auto
  next
    case False
    then show ?thesis using theirs that by (cases r) auto
  qed
  show ?thesis unfolding secrets_ok_def using one two by blast
qed

lemma net_invariant_start:
  assumes "net_start E ids sid W"
  shows "\<exists>S. words_ok E ids sid W S \<and> daemons_ok E ids sid W S \<and> secrets_ok E ids sid W S"
proof -
  define S where "S i = the (hm_get (sessions (node W i)) sid)" for i
  have f: "hm_get (sessions (node W i)) sid = Some (S i) \<and> fresh_session i (S i) \<and>
      set (bt_keys (participants (S i))) = ids \<and> (\<exists>keys cfg. reachable (E i) keys cfg (node W i, trail W i)) \<and>
      (\<forall>v \<in> sent (trail W i). env_session_id v \<noteq> sid) \<and> (\<forall>p. PollerSpawned sid p \<notin> set (trail W i))"
    if "i \<in> ids" for i
    using assms that unfolding net_start_def S_def by fastforce
  have ok: "sess_id (S i) = sid \<and> bt_ok (participants (S i))" if i: "i \<in> ids" for i
  proof -
    obtain keys cfg where r: "reachable (E i) keys cfg (node W i, trail W i)" using f [OF i] by blast
    have "session_ok (E i) cfg (trail W i) sid (S i)"
      using reachable_ok [OF r] f [OF i] unfolding daemon_ok_def by blast
    then show ?thesis by (simp add: session_ok_def)
  qed
  have quiet: "v \<notin> said (trail W i)" if "i \<in> ids" "env_session_id v = sid" for i v
    using f [OF that(1)] that(2) by (auto simp: said_sent)
  have "word_kept (E i) i (S i) (trail W i)" if "i \<in> ids" for i
    using f [OF that] ok [OF that] quiet [OF that]
    by (auto simp: word_kept_def fresh_session_def bt_contains_def bt_ok_def)
  then have w: "words_ok E ids sid W S"
    using f ok by (auto simp: words_ok_def fresh_session_def)
  have up: "up W = ids" using assms by (simp add: net_start_def)
  have d: "daemons_ok E ids sid W S"
    using f by (auto simp: daemons_ok_def up claim_pollers_def)
  have own: "hm_get (adaptor_secrets (S i)) k = None" if "i \<in> ids" "k \<noteq> i" for i k
    using f [OF that(1)] that(2) hm_contains_keys [of "adaptor_secrets (S i)" k]
    by (simp add: fresh_session_def hm_contains_def)
  have "secrets_ok E ids sid W S"
    using quiet own by (auto simp: secrets_ok_def has_revealed_def up)
  with w d show ?thesis by blast
qed

lemma net_invariant:
  assumes "net_reachable E ids sid W"
  shows "\<exists>S. words_ok E ids sid W S \<and> daemons_ok E ids sid W S \<and> secrets_ok E ids sid W S"
  using assms
proof (induction rule: net_reachable.induct)
  case (start W)
  then show ?case by (rule net_invariant_start)
next
  case (step W W')
  then obtain S where ok: "words_ok E ids sid W S" "daemons_ok E ids sid W S" "secrets_ok E ids sid W S" by blast
  from step.hyps(2) obtain i a where i: "i \<in> up W" and p: "possible ids W i a"
    and W': "W' = after i (perform (E i) a (node W i) (trail W i)) W"
    by (rule net_stepE) blast
  obtain r t' where run: "perform (E i) a (node W i) (trail W i) = (r, t')" by fastforce
  have ii: "i \<in> ids" and s: "hm_get (sessions (node W i)) sid = Some (S i)"
    using ok(2) i by (auto simp: daemons_ok_def)
  have w: "word_kept (E i) i (S i) (trail W i)" using ok(1) ii by (simp add: words_ok_def)
  obtain keys cfg where r: "reachable (E i) keys cfg (node W i, trail W i)"
    using ok(2) i by (auto simp: daemons_ok_def)
  have ids: "sess_id x = j" if "hm_get (sessions (node W i)) j = Some x" for j x
    using reachable_ok [OF r] that unfolding daemon_ok_def session_ok_def by blast
  obtain s' where s': "moved (E i) i sid a (S i) (trail W i) s' t'"
    "\<And>d'. r = Inr d' \<Longrightarrow> survived sid a (S i) (trail W i) s' d' t'"
    using perform_moved [OF ids s w network_credible(1) [OF ok(1) ii p] run] by blast
  show ?case
    unfolding W' run
    using words_ok_step [OF ok(1) ii p s'(1)] daemons_ok_step [OF ok(2) i p s'(1) run s'(2)]
      secrets_ok_step [OF ok i p s'(1) run s'(2)] by blast
qed

end
