(* ===== verification/Net_Run.thy ===== *)
theory Net_Run
  imports Swap_Network Sample_Run
begin

text \<open>
  The two-party swap of \<open>Sample_Run\<close> with both daemons on one network: every message that a daemon handles has
  been written by the other. The networks it passes through are reachable.
\<close>

section \<open>Running a network\<close>

definition sent_by :: "trace \<Rightarrow> envelope \<Rightarrow> bool" where
  "sent_by t v = list_ex (\<lambda>e. case e of TcpWrite _ v' _ _ \<Rightarrow> v' = v | _ \<Rightarrow> False) t"

definition possible_at :: "participant_id list \<Rightarrow> network \<Rightarrow> participant_id \<Rightarrow> deed \<Rightarrow> bool" where
  "possible_at is W i a = (case a of
       Start _ \<Rightarrow> True
     | Handle (PeerMessage v _) \<Rightarrow> list_ex (\<lambda>j. sent_by (trail W j) v) is
     | Handle (ChainPoll sid target) \<Rightarrow> PollerSpawned sid target \<in> set (trail W i))"

fun run_deeds :: "(participant_id \<Rightarrow> env) \<Rightarrow> participant_id list \<Rightarrow> (participant_id \<times> deed) list \<Rightarrow>
    network \<Rightarrow> network option" where
  "run_deeds E is [] W = Some W"
| "run_deeds E is ((i, a) # as) W =
     (if i \<in> up W \<and> possible_at is W i a
      then run_deeds E is as (after i (perform (E i) a (node W i) (trail W i)) W) else None)"

lemma sent_by_sent: "sent_by t v \<longleftrightarrow> v \<in> sent t"
proof -
  have "(case e of TcpWrite _ v' _ _ \<Rightarrow> v' = v | _ \<Rightarrow> False) \<longleftrightarrow> (\<exists>a b k. e = TcpWrite a v b k)" for e
    by (cases e) auto
  then show ?thesis by (auto simp: sent_by_def sent_def list_ex_iff)
qed

lemma possible_at_possible: "possible_at is W i a \<Longrightarrow> possible (set is) W i a"
  by (auto simp: possible_at_def possible_def sent_by_sent list_ex_iff split: deed.splits daemon_event.splits)

lemma run_deeds_reachable:
  "net_reachable E (set is) sid W \<Longrightarrow> run_deeds E is as W = Some W' \<Longrightarrow> net_reachable E (set is) sid W'"
proof (induction E "is" as W rule: run_deeds.induct)
  case (2 E "is" i a as W)
  then have ok: "i \<in> up W" "possible_at is W i a"
    and rest: "run_deeds E is as (after i (perform (E i) a (node W i) (trail W i)) W) = Some W'"
    by (simp_all split: if_splits)
  have "net_step E (set is) W (after i (perform (E i) a (node W i) (trail W i)) W)"
    by (rule net_step.deed [OF ok(1) possible_at_possible [OF ok(2)]])
  with 2(2) have "net_reachable E (set is) sid (after i (perform (E i) a (node W i) (trail W i)) W)"
    by (rule net_reachable.step)
  then show ?case using 2(1) [OF conjI [OF ok]] rest by blast
qed simp

lemma run_deeds_append:
  "run_deeds E is (as @ bs) W = (case run_deeds E is as W of None \<Rightarrow> None | Some W' \<Rightarrow> run_deeds E is bs W')"
  by (induction E "is" as W rule: run_deeds.induct) simp_all

section \<open>The swap of two\<close>

text \<open>Daemon 1 draws other random bytes than daemon 2. Its services show the lock of daemon 2 as spent once
  it waits for the claim of the leader.\<close>

definition first_env :: env where
  "first_env = swap_env\<lparr>rng_answer := (\<lambda>t n. replicate n 5), net_answer := (\<lambda>t rq.
     if PollerSpawned 7 (LeaderSpendTx 2) \<in> set t
     then answering (JObject [(''spent'', JBool True)]) ''b2'' rq else answering tx_json ''2000'' rq)\<rparr>"

definition net_env :: "participant_id \<Rightarrow> env" where
  "net_env i = (if i = 1 then first_env else swap_env)"

definition other_ring :: participants where
  "other_ring = [(1, swap_member 1 2 False), (2, swap_member 2 1 True)]"

definition first_session :: session where
  "first_session = session_literal 7 ring2 1000 50000 5000 2000000 [(1, ''05'')] [(1, ''5'')]"

definition second_session :: session where
  "second_session = session_literal 7 other_ring 1000 50000 5000 2000000 [(2, ''03'')] [(2, ''3'')]"

definition second_keys :: swap_keys where
  "second_keys = \<lparr>secret_key = SecKey [2], public_key = PubKey [2],
     wallet_secret_key = replicate 32 1, wallet_public_key = replicate 32 2\<rparr>"

definition two_daemons :: network where
  "two_daemons = \<lparr>node = (\<lambda>i. if i = 1 then insert_session first_session (daemon_new sample_keys sample_config)
       else insert_session second_session (daemon_new second_keys sample_config)),
     trail = (\<lambda>i. [RandomBytes (replicate 32 (if i = 1 then 5 else 3))]), up = {1, 2}\<rparr>"

definition hears :: "participant_id \<Rightarrow> participant_id \<Rightarrow> wire_message \<Rightarrow> participant_id \<times> deed" where
  "hears i k m = (i, Handle (PeerMessage (envelope_new 7 k m) ''peer''))"

text \<open>Daemon 1 hears one message, daemon 2 another.\<close>

definition exchange :: "wire_message \<Rightarrow> wire_message \<Rightarrow> (participant_id \<times> deed) list" where
  "exchange m m' = [hears 1 2 m, hears 2 1 m']"

definition polls :: "participant_id \<Rightarrow> chain_poll_target \<Rightarrow> participant_id \<times> deed" where
  "polls i target = (i, Handle (ChainPoll 7 target))"

text \<open>All deeds of the honest swap: the setup and the election, the signing rounds, the funding with its
  confirmations, the leader's claim and the follower's.\<close>

definition election_deeds :: "(participant_id \<times> deed) list" where
  "election_deeds = [(1, Start 7), (2, Start 7)] @ exchange (AdaptorPoint ''3'') (AdaptorPoint ''5'') @
     exchange (LeaderElectionCommitment (replicate 32 3)) (LeaderElectionCommitment (replicate 32 5)) @
     exchange (LeaderElectionNonce (replicate 32 3)) (LeaderElectionNonce (replicate 32 5))"

definition signing_deeds :: "(participant_id \<times> deed) list" where
  "signing_deeds =
     concat (map (\<lambda>r. exchange (SchnorrNonce r ''03'') (SchnorrNonce r ''05'')) [Refund 1, Refund 2, Spend 1, Spend 2]) @
     concat (map (\<lambda>r. exchange (PartialSignature r ''01'') (PartialSignature r ''01'')) [Refund 1, Refund 2]) @
     concat (map (\<lambda>r. exchange (PartialSignature r ''02'') (PartialSignature r ''02'')) [Spend 1, Spend 2])"

definition locking_deeds :: "(participant_id \<times> deed) list" where
  "locking_deeds = exchange LockTxBroadcast LockTxBroadcast @
     [polls 1 (LockTx 1), polls 1 (LockTx 2), polls 2 (LockTx 1), polls 2 (LockTx 2)]"

definition leader_claim :: "participant_id \<times> deed" where
  "leader_claim = hears 2 1 (SecretReveal ''05'')"

definition follower_claim :: "participant_id \<times> deed" where
  "follower_claim = polls 1 (LeaderSpendTx 2)"

definition net_session :: "network \<Rightarrow> participant_id \<Rightarrow> session" where
  "net_session W i = the (hm_get (sessions (node W i)) 7)"

text \<open>Both daemons have created their session and said nothing yet.\<close>

lemma sessions_made:
  "session_new first_env 7 ring2 1000 50000 5000 2000000 [] = (Inr first_session, [RandomBytes (replicate 32 5)])"
  "session_new swap_env 7 other_ring 1000 50000 5000 2000000 [] = (Inr second_session, [RandomBytes (replicate 32 3)])"
  by code_simp+

lemma sessions_fresh: "fresh_session 1 first_session" "fresh_session 2 second_session"
  by code_simp+

lemma two_daemons_start: "net_start net_env {1, 2} 7 two_daemons"
proof -
  have ok: "bt_ok ring2" "bt_ok other_ring" by code_simp+
  have r: "\<exists>keys cfg. reachable E keys cfg (insert_session s (daemon_new k c), t)"
    if "session_new E 7 ps bd cd cf bf [] = (Inr s, t)" "bt_ok ps" for E ps bd cd cf bf s t k c
    using daemon_step.create [OF that, of "daemon_new k c" "refund_window_secs s" "cardano_collaterals s"]
    by (intro exI reachable.step [OF reachable.init]) simp
  have "(\<exists>keys cfg. reachable (net_env i) keys cfg (node two_daemons i, trail two_daemons i)) \<and>
      (\<exists>s. hm_get (sessions (node two_daemons i)) 7 = Some s \<and> fresh_session i s \<and>
         set (bt_keys (participants s)) = {1, 2})" if i: "i = 1 \<or> i = 2" for i
  proof (cases "i = 1")
    case True
    then show ?thesis
      using r [OF sessions_made(1) ok(1)] sessions_fresh(1)
      by (simp add: two_daemons_def net_env_def insert_session_def first_session_def session_literal_def
          ring2_def bt_keys_def)
  next
    case False
    then have "i = 2" using i by simp
    then show ?thesis
      using r [OF sessions_made(2) ok(2)] sessions_fresh(2)
      by (simp add: two_daemons_def net_env_def insert_session_def second_session_def session_literal_def
          other_ring_def bt_keys_def)
  qed
  then show ?thesis unfolding net_start_def by (simp add: two_daemons_def sent_def)
qed

lemma two_daemons_reach:
  "run_deeds net_env [1, 2] as two_daemons = Some W \<Longrightarrow> net_reachable net_env {1, 2} 7 W"
  using run_deeds_reachable [of net_env "[1, 2]" 7] net_reachable.start [OF two_daemons_start] by simp

end
