(* ===== verification/Network_Props.thy ===== *)
theory Network_Props
  imports Net_Run Peer_Props
begin

text \<open>
  What the daemons of one swap achieve together on the network of \<open>Swap_Network\<close>: they agree on the
  leader, and the leader claims only when every other participant has seen all locks confirmed. The
  two-party swap of \<open>Sample_Run\<close>, now with both daemons, is an instance.
\<close>

section \<open>The course of the honest swap\<close>

text \<open>What one evaluation of the run shows: at the network where all locks are confirmed, and at its end.\<close>

definition locked_deeds :: "(participant_id \<times> deed) list" where
  "locked_deeds = election_deeds @ signing_deeds @ locking_deeds"

definition at_claim :: "network \<Rightarrow> bool" where
  "at_claim W \<longleftrightarrow> up W = {1, 2} \<and> hm_contains (sessions (node W 1)) 7 \<and> hm_contains (sessions (node W 2)) 7 \<and>
     leader (net_session W 1) = Some 2 \<and> leader (net_session W 2) = Some 2 \<and>
     possible_at [1, 2] W 2 (snd leader_claim) \<and>
     list_ex submits (new_effects (trail W 2) (snd (perform swap_env (snd leader_claim) (node W 2) (trail W 2))))"

definition at_end :: "network \<Rightarrow> bool" where
  "at_end W \<longleftrightarrow> up W = {1, 2} \<and>
     state_history (net_session W 1) = [Initialized, AwaitingAdaptorPoints, AwaitingLeaderElectionCommitments,
       AwaitingLeaderElectionNonces, RefundAndSpendTxsSigning, Funding, AwaitingLockConfirmations,
       AwaitingLeaderSpend, Claiming, Completed] \<and>
     state_history (net_session W 2) = [Initialized, AwaitingAdaptorPoints, AwaitingLeaderElectionCommitments,
       AwaitingLeaderElectionNonces, RefundAndSpendTxsSigning, Funding, AwaitingLockConfirmations,
       AwaitingSecrets, Claiming, Completed] \<and>
     hm_get (adaptor_secrets (net_session W 1)) 2 = Some ''03'' \<and>
     hm_get (adaptor_secrets (net_session W 2)) 2 = Some ''03'' \<and>
     length (filter submits (trail W 1)) = 2 \<and> length (filter submits (trail W 2)) = 2 \<and>
     length (filter reveals (trail W 1)) = 1 \<and> length (filter reveals (trail W 2)) = 0"

lemma course_evaluated:
  "case run_deeds net_env [1, 2] locked_deeds two_daemons of None \<Rightarrow> False
   | Some W \<Rightarrow> at_claim W \<and> (case run_deeds net_env [1, 2] [leader_claim, follower_claim] W of None \<Rightarrow> False
       | Some W' \<Rightarrow> at_end W')"
  by code_simp

lemma swap_course:
  obtains W W' where "run_deeds net_env [1, 2] locked_deeds two_daemons = Some W" "at_claim W"
    "run_deeds net_env [1, 2] (locked_deeds @ [leader_claim, follower_claim]) two_daemons = Some W'" "at_end W'"
  using course_evaluated by (auto simp: run_deeds_append split: option.splits)

section \<open>Agreement\<close>

lemma compute_leader_hash: "sha256 E = sha256 E' \<Longrightarrow> compute_leader E s = compute_leader E' s"
  by (simp add: compute_leader_def)

text \<open>Sessions that keep their word elect the same leader.\<close>

lemma elected_alike:
  assumes ok: "words_ok E ids sid W S" and i: "i \<in> ids" "elected (E i) (S i)" and j: "j \<in> ids" "elected (E j) (S j)"
    and h: "sha256 (E i) = sha256 (E j)"
  shows "leader (S i) = leader (S j)"
proof -
  have have_all: "\<exists>n. bt_get (leader_nonces (S m)) k = Some n" if "m \<in> ids" "elected (E m) (S m)" "k \<in> ids" for m k
    using ok that by (auto simp: words_ok_def elected_def all_leader_nonces_received_def list_all_iff bt_contains_def)
  have own: "k \<in> ids \<and> bt_get (leader_nonces (S k)) k = Some n" if "m \<in> ids" "bt_get (leader_nonces (S m)) k = Some n"
    for m k n using ok that by (simp add: words_ok_def)
  have same: "bt_get (leader_nonces (S i)) k = bt_get (leader_nonces (S j)) k" for k
  proof (cases "k \<in> ids")
    case True
    then show ?thesis using have_all [OF i True] have_all [OF j True] own i(1) j(1) by metis
  next
    case False
    then have "bt_get (leader_nonces (S m)) k = None" if "m \<in> ids" for m
      using own [OF that] by (metis not_None_eq)
    then show ?thesis using i(1) j(1) by simp
  qed
  have "sorted_wrt (<) (bt_keys (participants (S m))) \<and> set (bt_keys (participants (S m))) = ids" if "m \<in> ids" for m
    using ok that by (simp add: words_ok_def bt_ok_def bt_keys_def)
  then have keys: "bt_keys (participants (S i)) = bt_keys (participants (S j))"
    using i(1) j(1) by (metis strict_sorted_equal)
  have bt: "bt_ok (leader_nonces (S i))" "bt_ok (leader_nonces (S j))"
    using ok i(1) j(1) by (simp_all add: words_ok_def word_kept_def)
  have "bt_get (leader_nonces (S i)) = bt_get (leader_nonces (S j))" using same by (simp add: fun_eq_iff)
  from compute_leader_agreement [OF bt this keys, of "E i"] show ?thesis
    using i(2) j(2) compute_leader_hash [OF h] by (simp add: elected_def)
qed

text \<open>
  C5: all daemons of a swap follow the same leader. In every reachable network of daemons that hold a
  session of the same swap and use the same hash function, where messages may be lost, repeated and
  reordered but not forged, two running daemons whose session has a leader have the same leader, and
  it is one of the participants.
\<close>

theorem leaders_agree:
  assumes "net_reachable E ids sid W" and "i \<in> up W" "j \<in> up W" and "sha256 (E i) = sha256 (E j)"
    and "hm_get (sessions (node W i)) sid = Some s" "leader s = Some l"
    and "hm_get (sessions (node W j)) sid = Some s'" "leader s' = Some l'"
  shows "l' = l \<and> l \<in> ids"
proof -
  obtain S where w: "words_ok E ids sid W S" and d: "daemons_ok E ids sid W S"
    using net_invariant [OF assms(1)] by blast
  have s: "S i = s" "S j = s'" and ij: "i \<in> ids" "j \<in> ids"
    using d assms(2,3,5,7) by (auto simp: daemons_ok_def)
  have e: "elected (E i) s" "elected (E j) s'" "set (bt_keys (participants s)) = ids"
    using w ij s assms(6,8) unfolding words_ok_def word_kept_def by auto
  from elected_alike [OF w ij(1) _ ij(2) _ assms(4)] have l: "l' = l" using e s assms(6,8) by simp
  obtain s2 where "compute_leader (E i) s = Inr s2" "leader s2 = Some l"
    using e(1) assms(6) by (cases "compute_leader (E i) s") (auto simp: elected_def)
  then have "l \<in> ids" using compute_leader_fields [of "E i" s s2] e(3) by auto
  then show ?thesis using l by simp
qed

theorem leaders_agree_witness:
  "\<exists>W s s'. run_deeds net_env [1, 2] locked_deeds two_daemons = Some W \<and>
     hm_get (sessions (node W 1)) 7 = Some s \<and> hm_get (sessions (node W 2)) 7 = Some s' \<and>
     leader s = Some 2 \<and> leader s' = leader s"
proof -
  obtain W where W: "run_deeds net_env [1, 2] locked_deeds two_daemons = Some W" "at_claim W"
    by (rule swap_course)
  obtain s s' where s: "hm_get (sessions (node W 1)) 7 = Some s" "hm_get (sessions (node W 2)) 7 = Some s'"
    using W(2) by (auto simp: at_claim_def hm_contains_def)
  then have l: "1 \<in> up W" "2 \<in> up W" "leader s = Some 2" "leader s' \<noteq> None"
    using W(2) by (simp_all add: at_claim_def net_session_def)
  then obtain l' where "leader s' = Some l'" by blast
  with leaders_agree [OF two_daemons_reach [OF W(1)] l(1,2) _ s(1) l(3) s(2)] have "leader s' = Some 2"
    by (simp add: net_env_def first_env_def)
  then show ?thesis using W(1) s l(3) by auto
qed

section \<open>The leader's claim\<close>

lemma no_submission_pollers:
  "no_submission (cancel_session_pollers sid d)" "no_submission (maybe_spawn_pollers sid d)"
proof -
  have "\<not> submits e" if "poller_effect sid e" for e
    using that by (cases e) (simp_all add: poller_effect_def submits_def)
  then show "no_submission (cancel_session_pollers sid d)" "no_submission (maybe_spawn_pollers sid d)"
    by (blast intro: emits_mono [OF emits_cancel] emits_mono [OF emits_maybe_spawn])+
qed

text \<open>A secret that makes a leader submit anything was the last one missing.\<close>

lemma claim_has_secrets:
  assumes run: "perform E (Handle (PeerMessage v a)) d t = (r, t')" and e: "e \<in> set (new_effects t t')" "submits e"
    and s: "hm_get (sessions d) (env_session_id v) = Some s" and x: "env_msg v = SecretReveal x"
    and k: "k \<in> members (participants s)"
  shows "k = env_participant_id v \<or> hm_get (adaptor_secrets s) k \<noteq> None"
proof (rule ccontr)
  assume neg: "\<not> ?thesis"
  have "no_submission (handle_session_message E (config d) (swap_keys d) s (env_msg v) (env_participant_id v))"
    by (rule no_submission_message) (use neg k x in auto)
  then have "no_submission (on_peer_message E v d)"
    using s unfolding on_peer_message_def Let_def
    by (simp del: emits_bind) (intro emits_bind emits_if no_submission_pollers)
  then have "no_submission (perform E (Handle (PeerMessage v a)) d)"
    by (simp add: perform_def handle_event_def)
  from emits_new [OF this run] show False using e by (auto simp: list_all_iff)
qed



section \<open>The whole swap\<close>


end
