(* ===== verification/Runtime.thy ===== *)
theory Runtime
  imports Daemon_Runs
begin

text \<open>
  \<open>Daemon::run\<close> and \<open>Daemon::run_shared\<close> of \<open>src/swap-daemon/src/daemon.rs\<close> with their tasks: the accept
  loop, one reader per connection, one ticking task per spawned poller, and the loop that takes the
  events from the bounded channel they all write to. Any task may take the next step.
\<close>

section \<open>The tasks\<close>

definition channel_capacity :: nat where
  "channel_capacity = 4096"

text \<open>Events in the channel with the connection they come from; the ticks of the pollers come from none.
  The events already handled and the sockets accepted are kept to state the properties.\<close>

type_synonym sourced_event = "nat option \<times> daemon_event"

record runtime =
  served :: daemon
  history :: trace
  channel :: "sourced_event list"
  unsent :: "daemon_event list list"
  ticking :: "(session_id \<times> chain_poll_target) list"
  accepting :: bool
  shared :: bool
  handled :: "sourced_event list"
  accepted :: "(address \<times> bytes \<times> bool) list"

text \<open>The start: binding the listener is the only error \<open>run\<close> returns. \<open>run_shared\<close> is told apart by the flag.\<close>

definition run_start :: "bool \<Rightarrow> bool \<Rightarrow> daemon \<Rightarrow> trace \<Rightarrow> runtime option" where
  "run_start bound sh d t =
     (if bound then Some \<lparr>served = d, history = t, channel = [], unsent = [], ticking = [], accepting = True,
        shared = sh, handled = [], accepted = []\<rparr>
      else None)"

text \<open>One turn of the accept loop: a socket, with the bytes it will deliver, gets a reader of its own; an
  error ends the loop, not the daemon.\<close>

definition accept_turn :: "env \<Rightarrow> (address \<times> bytes \<times> bool) option \<Rightarrow> runtime \<Rightarrow> runtime" where
  "accept_turn E sock r =
     (case sock of
        None \<Rightarrow> r\<lparr>accepting := False\<rparr>
      | Some (addr, bs, closed) \<Rightarrow>
          r\<lparr>unsent := unsent r @ [fst (handle_connection E addr bs closed)],
            accepted := accepted r @ [(addr, bs, closed)]\<rparr>)"

text \<open>A send waits while the channel is full.\<close>

definition has_room :: "runtime \<Rightarrow> bool" where
  "has_room r \<longleftrightarrow> length (channel r) < channel_capacity"

definition reader_sends :: "nat \<Rightarrow> runtime \<Rightarrow> runtime option" where
  "reader_sends c r =
     (if c < length (unsent r) \<and> has_room r then
        (case unsent r ! c of
           [] \<Rightarrow> None
         | ev # rest \<Rightarrow> Some (r\<lparr>unsent := (unsent r)[c := rest], channel := channel r @ [(Some c, ev)]\<rparr>))
      else None)"

definition poller_ticks :: "nat \<Rightarrow> runtime \<Rightarrow> runtime option" where
  "poller_ticks n r =
     (if n < length (ticking r) \<and> has_room r then
        (case ticking r ! n of
           (sid, target) \<Rightarrow> Some (r\<lparr>channel := channel r @ [(None, ChainPoll sid target)]\<rparr>))
      else None)"

text \<open>A spawned poller starts to tick, an abort stops the task whose handle is kept, which is the last one
  spawned for its key.\<close>

fun follow_poller :: "effect \<Rightarrow> (session_id \<times> chain_poll_target) list \<Rightarrow> (session_id \<times> chain_poll_target) list" where
  "follow_poller (PollerSpawned i p) ps = (i, p) # ps"
| "follow_poller (PollerAborted i p) ps = remove1 (i, p) ps"
| "follow_poller _ ps = ps"

definition follow_pollers :: "trace \<Rightarrow> (session_id \<times> chain_poll_target) list \<Rightarrow>
    (session_id \<times> chain_poll_target) list" where
  "follow_pollers new ps = foldr follow_poller new ps"

definition receive_event :: "env \<Rightarrow> runtime \<Rightarrow> runtime option" where
  "receive_event E r =
     (case channel r of
        [] \<Rightarrow> None
      | (src, ev) # rest \<Rightarrow>
          (case handle_event E ev (served r) (history r) of
             (Inl _, _) \<Rightarrow> None
           | (Inr d', t') \<Rightarrow>
               Some (r\<lparr>served := d', history := t', channel := rest, handled := handled r @ [(src, ev)],
                 ticking := follow_pollers (new_effects (history r) t') (ticking r)\<rparr>)))"

text \<open>The steps. A shared daemon may be started on a session between two events.\<close>

inductive rt_step :: "env \<Rightarrow> runtime \<Rightarrow> runtime \<Rightarrow> bool" for E where
  accept: "accepting r \<Longrightarrow> rt_step E r (accept_turn E sock r)"
| send: "reader_sends c r = Some r' \<Longrightarrow> rt_step E r r'"
| tick: "poller_ticks n r = Some r' \<Longrightarrow> rt_step E r r'"
| receive: "receive_event E r = Some r' \<Longrightarrow> rt_step E r r'"
| start: "shared r \<Longrightarrow> start_swap_session E (served r) sid (history r) = (Inr (ok, d'), t') \<Longrightarrow>
    rt_step E r (r\<lparr>served := d', history := t'\<rparr>)"

inductive_cases rt_stepE: "rt_step E r r'"

inductive rt_reachable :: "env \<Rightarrow> runtime \<Rightarrow> runtime \<Rightarrow> bool" for E r0 where
  init: "rt_reachable E r0 r0"
| step: "rt_reachable E r0 r \<Longrightarrow> rt_step E r r' \<Longrightarrow> rt_reachable E r0 r'"

section \<open>One step\<close>

lemma reader_sends_Some:
  "reader_sends c r = Some r' \<longleftrightarrow> c < length (unsent r) \<and> has_room r \<and> (\<exists>ev rest. unsent r ! c = ev # rest \<and>
     r' = r\<lparr>unsent := (unsent r)[c := rest], channel := channel r @ [(Some c, ev)]\<rparr>)"
  by (auto simp: reader_sends_def split: list.splits)

lemma poller_ticks_Some:
  "poller_ticks n r = Some r' \<longleftrightarrow> has_room r \<and> (\<exists>sid target. n < length (ticking r) \<and> ticking r ! n = (sid, target) \<and>
     r' = r\<lparr>channel := channel r @ [(None, ChainPoll sid target)]\<rparr>)"
  by (auto simp: poller_ticks_def split: prod.splits)

lemma receive_event_Some:
  "receive_event E r = Some r' \<longleftrightarrow> (\<exists>src ev rest d' t'. channel r = (src, ev) # rest \<and>
     handle_event E ev (served r) (history r) = (Inr d', t') \<and>
     r' = r\<lparr>served := d', history := t', channel := rest, handled := handled r @ [(src, ev)],
        ticking := follow_pollers (new_effects (history r) t') (ticking r)\<rparr>)"
  by (auto simp: receive_event_def split: list.splits prod.splits sum.splits)

text \<open>A poller that ticks was spawned.\<close>

lemma follow_pollers_spawned:
  "set (follow_pollers new ps) \<subseteq> set ps \<union> {(i, p). PollerSpawned i p \<in> set new}"
proof (induction new)
  case Nil
  then show ?case by (simp add: follow_pollers_def)
next
  case (Cons e new)
  have "set (follow_pollers (e # new) ps) \<subseteq>
      set (follow_pollers new ps) \<union> (case e of PollerSpawned i p \<Rightarrow> {(i, p)} | _ \<Rightarrow> {})"
    by (cases e) (auto simp: follow_pollers_def dest: subsetD [OF set_remove1_subset])
  with Cons.IH show ?case by (cases e) auto
qed

section \<open>The invariant\<close>

text \<open>Every tick that runs or waits comes from a poller on the trace; the channel is never over its
  capacity.\<close>

definition from_peers :: "daemon_event list \<Rightarrow> bool" where
  "from_peers es \<longleftrightarrow> list_all (\<lambda>ev. case ev of PeerMessage _ _ \<Rightarrow> True | ChainPoll _ _ \<Rightarrow> False) es"

definition ticks_traced :: "runtime \<Rightarrow> bool" where
  "ticks_traced r \<longleftrightarrow> list_all from_peers (unsent r) \<and>
     (\<forall>(sid, target) \<in> set (ticking r). PollerSpawned sid target \<in> set (history r)) \<and>
     (\<forall>src sid target. (src, ChainPoll sid target) \<in> set (channel r) \<longrightarrow> PollerSpawned sid target \<in> set (history r))"

lemma from_peers_connection: "from_peers (fst (handle_connection E addr bs closed))"
proof -
  have "from_peers (fst (handle_lines E addr lines))" for lines
    by (induction E addr lines rule: handle_lines.induct)
      (auto simp: from_peers_def Let_def split: option.splits prod.splits)
  then show ?thesis by (simp add: handle_connection_def)
qed

text \<open>The events of connection \<open>c\<close> that have been handled, wait in the channel or are still to be sent.\<close>

definition events_of :: "nat \<Rightarrow> sourced_event list \<Rightarrow> daemon_event list" where
  "events_of c es = map snd (filter (\<lambda>(src, _). src = Some c) es)"

lemma events_of_append [simp]: "events_of c (xs @ ys) = events_of c xs @ events_of c ys"
  by (simp add: events_of_def)

lemma events_of_Cons [simp]: "events_of c ((src, ev) # es) = (if src = Some c then [ev] else []) @ events_of c es"
  by (simp add: events_of_def)

lemma events_of_Nil [simp]: "events_of c [] = []"
  by (simp add: events_of_def)

definition in_order :: "env \<Rightarrow> runtime \<Rightarrow> bool" where
  "in_order E r \<longleftrightarrow> length (unsent r) = length (accepted r) \<and> length (channel r) \<le> channel_capacity \<and>
     (\<forall>c < length (accepted r). case accepted r ! c of (addr, bs, closed) \<Rightarrow>
        events_of c (handled r @ channel r) @ unsent r ! c = fst (handle_connection E addr bs closed)) \<and>
     (\<forall>c \<ge> length (accepted r). events_of c (handled r @ channel r) = [])"

lemma handle_event_grows: "handle_event E ev d t = (r, t') \<Longrightarrow> grown (\<lambda>_. True) t t'"
  using wp_reveals [of E ev d t] by (auto simp: wp_def guarded_def grown_def list_all_iff split: sum.splits)

lemma grown_new_effects: "grown P t t' \<Longrightarrow> t' = new_effects t t' @ t"
  by (auto simp: grown_def)

lemma start_grows: "start_swap_session E d sid t = (Inr x, t') \<Longrightarrow> set t \<subseteq> set t'"
  using wp_Inr [OF wp_start_swap_session] by (cases x) (fastforce simp: event_post_def)

lemma in_order_step:
  assumes "in_order E r" and "rt_step E r r'"
  shows "in_order E r'"
  using assms(2)
proof (cases rule: rt_stepE [consumes 1, case_names accept send tick receive start])
  case (accept sock)
  show ?thesis
  proof (cases sock)
    case None
    then show ?thesis using assms(1) accept by (simp add: accept_turn_def in_order_def)
  next
    case (Some s)
    obtain addr bs closed where s: "s = (addr, bs, closed)" by (cases s)
    have "events_of (length (accepted r)) (handled r @ channel r) = []" using assms(1) by (simp add: in_order_def)
    then show ?thesis
      using assms(1) accept by (auto simp: accept_turn_def in_order_def Some s nth_append less_Suc_eq)
  qed
next
  case (send c)
  then show ?thesis
    using assms(1)
    by (auto simp: reader_sends_Some in_order_def has_room_def nth_list_update split: prod.splits)
next
  case (tick n)
  then show ?thesis using assms(1) by (auto simp: poller_ticks_Some in_order_def has_room_def)
next
  case receive
  then show ?thesis using assms(1) by (auto simp: receive_event_Some in_order_def)
next
  case (start sid ok d' t')
  then show ?thesis using assms(1) by (simp add: in_order_def)
qed

lemma ticks_traced_step:
  assumes "ticks_traced r" and "rt_step E r r'"
  shows "ticks_traced r'"
  using assms(2)
proof (cases rule: rt_stepE [consumes 1, case_names accept send tick receive start])
  case (accept sock)
  then show ?thesis
    using assms(1) from_peers_connection by (auto simp: accept_turn_def ticks_traced_def split: option.splits)
next
  case (send c)
  then obtain ev rest where c: "c < length (unsent r)" "unsent r ! c = ev # rest"
    and r': "r' = r\<lparr>unsent := (unsent r)[c := rest], channel := channel r @ [(Some c, ev)]\<rparr>"
    by (auto simp: reader_sends_Some)
  have "from_peers (ev # rest)" using assms(1) c nth_mem [OF c(1)] by (auto simp: ticks_traced_def list_all_iff)
  then have ev: "\<exists>v a. ev = PeerMessage v a" and rest: "from_peers rest"
    by (auto simp: from_peers_def split: daemon_event.splits)
  have "list_all from_peers ((unsent r)[c := rest])"
    using assms(1) rest set_update_subset_insert [of "unsent r" c rest] by (auto simp: ticks_traced_def list_all_iff)
  then show ?thesis using assms(1) ev by (auto simp: r' ticks_traced_def)
next
  case (tick n)
  then obtain sid target where n: "n < length (ticking r)" "ticking r ! n = (sid, target)"
    and r': "r' = r\<lparr>channel := channel r @ [(None, ChainPoll sid target)]\<rparr>"
    by (auto simp: poller_ticks_Some)
  then have "(sid, target) \<in> set (ticking r)" by (metis nth_mem)
  then have "PollerSpawned sid target \<in> set (history r)" using assms(1) by (auto simp: ticks_traced_def)
  then show ?thesis using assms(1) by (auto simp: r' ticks_traced_def)
next
  case receive
  then obtain src ev rest d' t' where c: "channel r = (src, ev) # rest"
    and h: "handle_event E ev (served r) (history r) = (Inr d', t')"
    and r': "r' = r\<lparr>served := d', history := t', channel := rest, handled := handled r @ [(src, ev)],
        ticking := follow_pollers (new_effects (history r) t') (ticking r)\<rparr>"
    by (auto simp: receive_event_Some)
  have t': "t' = new_effects (history r) t' @ history r" by (rule grown_new_effects [OF handle_event_grows [OF h]])
  then have "set t' = set (new_effects (history r) t') \<union> set (history r)" by (metis set_append)
  then show ?thesis
    using assms(1) c follow_pollers_spawned [of "new_effects (history r) t'" "ticking r"]
    by (auto simp: r' ticks_traced_def)
next
  case (start sid ok d' t')
  then show ?thesis using assms(1) start_grows [OF start(3)] by (fastforce simp: ticks_traced_def)
qed

text \<open>The runtime is a run of the daemon.\<close>

lemma rt_step_reachable:
  assumes "reachable E keys cfg (served r, history r)" and "ticks_traced r" and "rt_step E r r'"
  shows "reachable E keys cfg (served r', history r')"
  using assms(3)
proof (cases rule: rt_stepE [consumes 1, case_names accept send tick receive start])
  case receive
  then obtain src ev rest d' t' where c: "channel r = (src, ev) # rest"
    and h: "handle_event E ev (served r) (history r) = (Inr d', t')"
    and r': "served r' = d'" "history r' = t'"
    by (auto simp: receive_event_Some)
  have "daemon_step E (served r, history r) (d', t')"
  proof (cases ev)
    case (PeerMessage v a)
    then show ?thesis using h by (auto intro: daemon_step.peer)
  next
    case (ChainPoll sid target)
    then have "PollerSpawned sid target \<in> set (history r)"
      using assms(2) c by (force simp: ticks_traced_def)
    then show ?thesis using h ChainPoll by (auto intro: daemon_step.poll)
  qed
  with assms(1) show ?thesis unfolding r' by (rule reachable.step)
next
  case (start sid ok d' t')
  then show ?thesis using assms(1) by (auto intro: reachable.step daemon_step.start)
qed (use assms(1) in \<open>auto simp: accept_turn_def reader_sends_Some poller_ticks_Some split: option.splits\<close>)

lemma rt_start_ok:
  "run_start bound sh d t = Some r \<Longrightarrow> in_order E r \<and> ticks_traced r \<and> served r = d \<and> history r = t \<and> handled r = []"
  by (auto simp: run_start_def in_order_def ticks_traced_def split: if_splits)

lemma rt_invariant:
  assumes "run_start bound sh d t = Some r0" and "rt_reachable E r0 r"
  shows "in_order E r" and "ticks_traced r" and "reachable E keys cfg (d, t) \<Longrightarrow> reachable E keys cfg (served r, history r)"
proof -
  have "in_order E r \<and> ticks_traced r \<and>
      (reachable E keys cfg (d, t) \<longrightarrow> reachable E keys cfg (served r, history r))"
    using assms(2)
  proof (induction rule: rt_reachable.induct)
    case init
    then show ?case using rt_start_ok [OF assms(1)] by auto
  next
    case (step r r')
    then show ?case using in_order_step ticks_traced_step rt_step_reachable by blast
  qed
  then show "in_order E r" "ticks_traced r"
    "reachable E keys cfg (d, t) \<Longrightarrow> reachable E keys cfg (served r, history r)" by blast+
qed

text \<open>Without interference the daemon is what its event loop makes of the events handled.\<close>

lemma bind_ret_left: "bind (ret a) f = f a"
  by (simp add: bind_def ret_def fun_eq_iff)

lemma bind_assoc: "bind (bind m f) g = bind m (\<lambda>x. bind (f x) g)"
  by (auto simp: bind_def fun_eq_iff split: prod.splits sum.splits)

lemma io_fold_append: "io_fold f a (xs @ ys) = bind (io_fold f a xs) (\<lambda>b. io_fold f b ys)"
  by (induction xs arbitrary: a) (simp_all add: bind_assoc bind_ret_left)

lemma event_loop_append:
  "event_loop E d evs t = (Inr d1, t1) \<Longrightarrow> handle_event E ev d1 t1 = (Inr d2, t2) \<Longrightarrow>
   event_loop E d (evs @ [ev]) t = (Inr d2, t2)"
  by (simp add: event_loop_def io_fold_append bind_def ret_def)

lemma rt_event_loop:
  assumes "run_start bound False d t = Some r0" and "rt_reachable E r0 r"
  shows "\<not> shared r \<and> event_loop E d (map snd (handled r)) t = (Inr (served r), history r)"
  using assms(2)
proof (induction rule: rt_reachable.induct)
  case init
  then show ?case using assms(1) by (auto simp: run_start_def event_loop_def ret_def split: if_splits)
next
  case (step r r')
  then have sh: "\<not> shared r" and l: "event_loop E d (map snd (handled r)) t = (Inr (served r), history r)" by simp_all
  from step(2) show ?case
  proof (cases rule: rt_stepE [consumes 1, case_names accept send tick receive start])
    case receive
    then show ?thesis using sh event_loop_append [OF l] by (auto simp: receive_event_Some)
  qed (use sh l in \<open>auto simp: accept_turn_def reader_sends_Some poller_ticks_Some split: option.splits\<close>)
qed

end
