(* ===== verification/Poller_Life.thy ===== *)
theory Poller_Life
  imports Honest_Daemon Runtime
begin

text \<open>
  The life of a poller task. A locale carries any property of the daemon, and of the effects emitted
  while it holds, through all events; with it: once a lock is confirmed, nothing in the daemon
  can stop the task that polls it.
\<close>

section \<open>Properties that every event keeps\<close>

text \<open>The contract of a computation that keeps a property of the daemon.\<close>

abbreviation keeping :: "(daemon \<Rightarrow> bool) \<Rightarrow> (effect \<Rightarrow> bool) \<Rightarrow> trace \<Rightarrow> daemon act \<Rightarrow> trace \<Rightarrow> bool" where
  "keeping J P t0 m t \<equiv> wp m (\<lambda>_ t'. grown P t0 t') (\<lambda>d' t'. J d' \<and> grown P t0 t') t"

lemma keeping_ret: "J d \<Longrightarrow> grown P t0 t \<Longrightarrow> keeping J P t0 (ret d) t"
  by (simp add: wp_ret)

lemma keeping_last:
  "emits P m \<Longrightarrow> wp m (\<lambda>_ _. True) (\<lambda>d' _. J d') t \<Longrightarrow> grown P t0 t \<Longrightarrow> keeping J P t0 m t"
  by (rule wp_mono [OF wp_emits]) (auto intro: grown_trans)

lemma keeping_bind:
  assumes "emits P m" and "wp m (\<lambda>_ _. True) (\<lambda>x _. Q x) t" and "grown P t0 t"
    and "\<And>x t'. Q x \<Longrightarrow> grown P t0 t' \<Longrightarrow> keeping J P t0 (f x) t'"
  shows "keeping J P t0 (bind m f) t"
  unfolding wp_bind
  by (rule wp_mono [OF wp_emits [OF assms(1,2)]]) (use assms(3,4) grown_trans in blast)+

lemma keeping_lift:
  "(\<And>x. r = Inr x \<Longrightarrow> keeping J P t0 (f x) t) \<Longrightarrow> grown P t0 t \<Longrightarrow> keeping J P t0 (bind (lift r) f) t"
  by (cases r) (simp_all add: wp_bind wp_lift)

definition poller_event :: "effect \<Rightarrow> bool" where
  "poller_event e \<longleftrightarrow> (\<exists>i p. e = PollerSpawned i p \<or> e = PollerAborted i p)"

lemma poller_event_simps [simp]:
  "poller_event (PollerSpawned i p)" "poller_event (PollerAborted i p)" "\<not> poller_event (Http rq r)"
  "\<not> poller_event (GrpcSubmit u b k)" "\<not> poller_event (TcpConnect a k)" "\<not> poller_event (TcpWrite a v b k)"
  by (simp_all add: poller_event_def)

lemma reticent_no_poller: "reticent e \<Longrightarrow> \<not> poller_event e"
  by (auto simp: poller_event_def)

lemma speaks_no_poller: "speaks_for sid e \<Longrightarrow> \<not> poller_event e"
  by (auto simp: speaks_for_def reticent_no_poller)

locale kept_by_events =
  fixes J :: "daemon \<Rightarrow> bool" and P :: "effect \<Rightarrow> bool"
  assumes put: "J d \<Longrightarrow> hm_get (sessions d) i = Some s \<Longrightarrow> evolves s s' \<Longrightarrow> J (put_session i s' d)"
    and confirm: "J d \<Longrightarrow> hm_get (sessions d) i = Some s \<Longrightarrow>
      J (put_session i (s\<lparr>confirmed_lock_txs := insert k (confirmed_lock_txs s)\<rparr>) d
        \<lparr>active_pollers := hm_remove (i, LockTx k) (active_pollers d)\<rparr>)"
    and cancel: "J d \<Longrightarrow> wp (cancel_session_pollers i d) (\<lambda>_ _. True) (\<lambda>d' _. J d') t"
    and spawn: "J d \<Longrightarrow> wp (maybe_spawn_pollers i d) (\<lambda>_ _. True) (\<lambda>d' _. J d') t"
    and other_effects: "\<not> poller_event e \<Longrightarrow> P e"
    and cancel_effects: "J d \<Longrightarrow> emits P (cancel_session_pollers i d)"
    and spawn_effects: "J d \<Longrightarrow> emits P (maybe_spawn_pollers i d)"
begin

lemma discreet_effects: "discreet m \<Longrightarrow> emits P m"
  by (erule emits_mono) (simp add: other_effects reticent_no_poller)

lemma keeping_cancel: "J d \<Longrightarrow> grown P t0 t \<Longrightarrow> keeping J P t0 (cancel_session_pollers i d) t"
  by (rule keeping_last [OF cancel_effects cancel])

lemma keeping_spawn: "J d \<Longrightarrow> grown P t0 t \<Longrightarrow> keeping J P t0 (maybe_spawn_pollers i d) t"
  by (rule keeping_last [OF spawn_effects spawn])

lemma keeping_message:
  assumes J: "J d"
  shows "keeping J P t (on_peer_message E v d) t"
proof (cases "hm_get (sessions d) (env_session_id v)")
  case None
  then show ?thesis by (simp add: on_peer_message_def Let_def wp_lift)
next
  case (Some s)
  have e: "emits P (handle_session_message E (config d) (swap_keys d) s (env_msg v) (env_participant_id v))"
    by (rule emits_mono [OF speaks_message]) (simp add: other_effects speaks_no_poller)
  show ?thesis
    unfolding on_peer_message_def Let_def Some option.case
    by (rule keeping_bind [OF e message_handler.op_evolves grown_refl])
      (intro wp_cases keeping_cancel keeping_spawn put [OF J Some])
qed

lemma keeping_lock_poll:
  assumes J: "J d" and s: "hm_get (sessions d) i = Some s"
  shows "keeping J P t (poll_lock_tx E i k s d) t"
proof -
  have conf: "keeping J P t (locks_confirmed E i s1 d2) t1"
    if "J d2" "hm_get (sessions d2) i = Some s1" "grown P t t1" for s1 d2 t1
    unfolding locks_confirmed_def
  proof (intro keeping_lift wp_cases)
    fix me x
    show "keeping J P t (bind (announce E (transition_to AwaitingLeaderSpend s1) me (SecretReveal x))
        (\<lambda>s'. maybe_spawn_pollers i (put_session i s' d2))) t1"
    proof (rule keeping_bind [OF _ evolving_announce [OF evolves_transition, unfolded evolving_def, rule_format] that(3)])
      show "emits P (announce E (transition_to AwaitingLeaderSpend s1) me (SecretReveal x))"
        by (rule emits_announce) (simp_all add: other_effects)
    qed (intro keeping_spawn put [OF that(1,2)])
    show "keeping J P t (ret (put_session i (transition_to AwaitingSecrets s1) d2)) t1"
      by (intro keeping_ret put [OF that(1,2)] that(3) evolves_transition)
  qed (use that(3) in simp_all)
  let ?Q = "\<lambda>s1. s1 = s \<or> s1 = s\<lparr>confirmed_lock_txs := insert k (confirmed_lock_txs s)\<rparr>"
  have rest: "keeping J P t (let d1 = put_session i s1 d;
        d2 = (if k \<in> confirmed_lock_txs s1
              then d1\<lparr>active_pollers := hm_remove (i, LockTx k) (active_pollers d1)\<rparr> else d1) in
      if all_lock_txs_confirmed s1 then locks_confirmed E i s1 d2 else ret d2) t1"
    if "k \<notin> confirmed_lock_txs s" "?Q s1" "grown P t t1" for s1 t1
  proof -
    let ?d2 = "if k \<in> confirmed_lock_txs s1 then put_session i s1 d
        \<lparr>active_pollers := hm_remove (i, LockTx k) (active_pollers (put_session i s1 d))\<rparr> else put_session i s1 d"
    have "J ?d2"
    proof (cases "s1 = s")
      case True
      then show ?thesis using put [OF J s] that(1) by simp
    next
      case False
      then have s1: "s1 = s\<lparr>confirmed_lock_txs := insert k (confirmed_lock_txs s)\<rparr>" using that(2) by simp
      then have "k \<in> confirmed_lock_txs s1" by simp
      then show ?thesis using confirm [OF J s, of k] s1 by simp
    qed
    moreover have "hm_get (sessions ?d2) i = Some s1" by simp
    ultimately show ?thesis unfolding Let_def by (intro wp_cases conf keeping_ret that(3))
  qed
  show ?thesis
    unfolding poll_lock_tx_def
  proof (rule wp_cases)
    show "keeping J P t (ret d) t" by (rule keeping_ret) (simp_all add: J)
    assume k: "k \<notin> confirmed_lock_txs s"
    show "keeping J P t (bind (check_lock_tx_confirmed E s k (config d)) (\<lambda>s1. let d1 = put_session i s1 d;
        d2 = (if k \<in> confirmed_lock_txs s1
              then d1\<lparr>active_pollers := hm_remove (i, LockTx k) (active_pollers d1)\<rparr> else d1) in
      if all_lock_txs_confirmed s1 then locks_confirmed E i s1 d2 else ret d2)) t"
    proof (rule keeping_bind [where Q = ?Q])
      show "emits P (check_lock_tx_confirmed E s k (config d))"
        by (rule emits_check_lock) (simp add: other_effects)
      show "wp (check_lock_tx_confirmed E s k (config d)) (\<lambda>_ _. True) (\<lambda>x _. ?Q x) t"
        by (rule wp_mono [OF wp_check_lock_evidence]) auto
    qed (simp, rule rest [OF k])
  qed
qed

lemma keeping_leader_poll:
  assumes J: "J d" and s: "hm_get (sessions d) i = Some s"
  shows "keeping J P t (poll_leader_spend E i l s d) t"
proof -
  have claim: "keeping J P t (bind (broadcast_my_spend_tx E (transition_to Claiming s1) (swap_keys d) (config d))
      (\<lambda>s2. cancel_session_pollers i (put_session i (transition_to Completed s2) d))) t1"
    if "evolves s s1" "grown P t t1" for s1 t1
  proof (rule keeping_bind [OF discreet_effects [OF reserved_spend.discreet_op] spend_broadcast.op_evolves that(2)])
    fix s2 t2 assume 2: "evolves (transition_to Claiming s1) s2" and t2: "grown P t t2"
    have "evolves s (transition_to Completed s2)"
      by (rule evolves_transition_from, rule evolves_trans [OF evolves_transition_from [OF that(1)] 2])
    then show "keeping J P t (cancel_session_pollers i (put_session i (transition_to Completed s2) d)) t2"
      by (intro keeping_cancel put [OF J s] t2)
  qed
  have skip: "keeping J P t (ret d) t1" if "grown P t t1" for t1
    by (rule keeping_ret) (use J that in simp_all)
  have e: "emits P (check_leader_spend_confirmed E s l (config d))" "emits P (extract_secret_and_adapt E s l (config d))"
    by (rule emits_check_leader_spend, simp add: other_effects) (rule emits_extract, simp add: other_effects)
  have fin: "keeping J P t (case x of (extracted, s1) \<Rightarrow> if \<not> extracted then ret (put_session i s1 d)
      else bind (broadcast_my_spend_tx E (transition_to Claiming s1) (swap_keys d) (config d))
        (\<lambda>s2. cancel_session_pollers i (put_session i (transition_to Completed s2) d))) t1"
    if "evolves s (snd x)" "grown P t t1" for x t1
    using that put [OF J s, of "snd x"] claim [of "snd x" t1] by (cases x) (auto intro: keeping_ret)
  show ?thesis
    unfolding poll_leader_spend_def
  proof (rule wp_cases)
    show "keeping J P t (ret d) t" by (rule skip) simp
    show "keeping J P t (bind (check_leader_spend_confirmed E s l (config d)) (\<lambda>spent. if \<not> spent then ret d
      else bind (extract_secret_and_adapt E s l (config d)) (\<lambda>(extracted, s1).
        if \<not> extracted then ret (put_session i s1 d)
        else bind (broadcast_my_spend_tx E (transition_to Claiming s1) (swap_keys d) (config d))
          (\<lambda>s2. cancel_session_pollers i (put_session i (transition_to Completed s2) d))))) t"
      by (rule keeping_bind [OF e(1) wp_True grown_refl], intro wp_cases skip, assumption,
          rule keeping_bind [OF e(2) evolving_extract [unfolded evolving_def, rule_format]])
        (assumption, rule fin)
  qed
qed

lemma keeping_refund_poll:
  assumes J: "J d" and s: "hm_get (sessions d) i = Some s"
  shows "keeping J P t (poll_refund_window E i k s d) t"
proof -
  have skip: "keeping J P t (ret d) t1" if "grown P t t1" for t1
    by (rule keeping_ret) (use J that in simp_all)
  have e: "emits P (check_refund_window_open E s k (config d))" "emits P (broadcast_my_refund_tx E s (swap_keys d) (config d))"
    by (rule emits_refund_window, simp add: other_effects) (rule emits_broadcast_refund; simp add: other_effects)
  have fin: "keeping J P t (case x of (ok, s1) \<Rightarrow> cancel_session_pollers i
      (put_session i (transition_to (if ok then Refunded else Failed) s1) d)) t1"
    if "evolves s (snd x)" "grown P t t1" for x t1
    using that put [OF J s evolves_transition_from, of "snd x"] by (cases x) (auto intro: keeping_cancel)
  show ?thesis
    unfolding poll_refund_window_def
  proof (rule wp_cases)
    show "keeping J P t (ret d) t" by (rule skip) simp
    show "keeping J P t (bind (check_refund_window_open E s k (config d)) (\<lambda>open'. if \<not> open' then ret d
      else bind (broadcast_my_refund_tx E s (swap_keys d) (config d)) (\<lambda>(ok, s1).
        cancel_session_pollers i (put_session i (transition_to (if ok then Refunded else Failed) s1) d)))) t"
      by (rule keeping_bind [OF e(1) wp_True grown_refl], intro wp_cases skip, assumption,
          rule keeping_bind [OF e(2) evolving_broadcast_refund [unfolded evolving_def, rule_format]])
        (assumption, rule fin)
  qed
qed

lemma keeping_event:
  assumes J: "J d"
  shows "keeping J P t (handle_event E ev d) t"
proof (cases ev)
  case (PeerMessage v a)
  then show ?thesis using keeping_message [OF J] by (simp add: handle_event_def)
next
  case (ChainPoll i target)
  have "keeping J P t (case hm_get (sessions d) i of None \<Rightarrow> ret d
     | Some s \<Rightarrow> (case target of LockTx k \<Rightarrow> poll_lock_tx E i k s d
          | LeaderSpendTx l \<Rightarrow> poll_leader_spend E i l s d
          | RefundWindow k \<Rightarrow> poll_refund_window E i k s d)) t"
    by (cases "hm_get (sessions d) i"; cases target)
      (simp_all add: wp_ret J keeping_lock_poll keeping_leader_poll keeping_refund_poll)
  then have "keeping J P t (on_chain_poll E i target d) t"
    unfolding on_chain_poll_def wp_bind by (rule wp_mono) (simp_all add: keeping_spawn)
  then show ?thesis by (simp add: handle_event_def ChainPoll)
qed

lemma keeping_start:
  assumes J: "J d"
  shows "wp (start_swap_session E d i) (\<lambda>_ _. True) (\<lambda>x _. J (snd x)) t"
proof (cases "hm_get (sessions d) i")
  case None
  then show ?thesis by (simp add: start_swap_session_def wp_ret J)
next
  case (Some s)
  have ann: "wp (bind (broadcast_adaptor_point E s) (\<lambda>s1.
      let s2 = (if state s1 = Initialized then transition_to AwaitingAdaptorPoints s1 else s1) in
      ret (True, put_session i s2 d))) (\<lambda>_ _. True) (\<lambda>x _. J (snd x)) t1" for t1
    unfolding wp_bind Let_def wp_ret
  proof (rule wp_mono [OF adaptor_announcement.op_evolves])
    fix s1 assume "evolves s s1"
    then have "evolves s (if state s1 = Initialized then transition_to AwaitingAdaptorPoints s1 else s1)"
      using evolves_transition_from by (cases "state s1 = Initialized") simp_all
    from put [OF J Some this] show "J (snd (True, put_session i
        (if state s1 = Initialized then transition_to AwaitingAdaptorPoints s1 else s1) d))" by simp
  qed simp
  have fail: "wp (ret (True, put_session i (transition_to Failed s) d)) (\<lambda>_ _. True) (\<lambda>x _. J (snd x)) t1" for t1
    using put [OF J Some evolves_transition] by (simp add: wp_ret)
  show ?thesis
    unfolding start_swap_session_def Some option.case
      wp_bind [of "if validate_utxos (config d) then validate_funding_utxos E s (config d) else ret True"]
    by (rule wp_mono [OF wp_True]) (simp, intro wp_cases ann fail)
qed

end

section \<open>The pollers of confirmed locks\<close>

text \<open>No entry in the map of pollers for a confirmed lock.\<close>

definition lock_unpolled :: "session_id \<Rightarrow> participant_id \<Rightarrow> daemon \<Rightarrow> bool" where
  "lock_unpolled sid k d \<longleftrightarrow> (\<forall>s. hm_get (sessions d) sid = Some s \<longrightarrow> k \<in> confirmed_lock_txs s \<longrightarrow>
     \<not> hm_contains (active_pollers d) (sid, LockTx k))"

definition lock_confirmed :: "session_id \<Rightarrow> participant_id \<Rightarrow> daemon \<Rightarrow> bool" where
  "lock_confirmed sid k d \<longleftrightarrow> (\<exists>s. hm_get (sessions d) sid = Some s \<and> k \<in> confirmed_lock_txs s)"

lemma missing_not_confirmed:
  "missing_pollers d sid s = Inr ts \<Longrightarrow> k \<in> confirmed_lock_txs s \<Longrightarrow> LockTx k \<notin> set ts"
  by (auto simp: missing_pollers_def lock_targets_def res_bind_Inr unwrap_def Let_def split: if_splits option.splits)

lemma spawn_lock_unpolled:
  assumes "lock_unpolled sid k d"
  shows "wp (maybe_spawn_pollers i d) (\<lambda>_ _. True) (\<lambda>d' _. lock_unpolled sid k d' \<and> same_sessions d d') t"
proof (cases "hm_get (sessions d) i")
  case None
  then show ?thesis using assms by (simp add: maybe_spawn_pollers_def wp_ret same_sessions_def)
next
  case (Some s)
  show ?thesis
  proof (cases "missing_pollers d i s")
    case (Inl e)
    then show ?thesis by (simp add: maybe_spawn_pollers_def Some wp_simps)
  next
    case (Inr ts)
    have "wp (io_fold (spawn_poller i) d ts) (\<lambda>_ _. True) (\<lambda>d' _. lock_unpolled sid k d' \<and> same_sessions d d') t"
      by (rule wp_mono [OF wp_spawn_fold])
        (use assms Some missing_not_confirmed [OF Inr] in \<open>auto simp: lock_unpolled_def same_sessions_def\<close>)
    then show ?thesis by (simp add: maybe_spawn_pollers_def Some Inr wp_simps)
  qed
qed

text \<open>Cancelling aborts only what is in the map.\<close>

lemma cancel_aborts_active:
  "emits (\<lambda>e. \<exists>key. hm_contains (active_pollers d) key \<and> e = PollerAborted (fst key) (snd key))
     (cancel_session_pollers i d)"
proof -
  have "emits (\<lambda>e. \<exists>key. hm_contains (active_pollers d) key \<and> e = PollerAborted (fst key) (snd key)) (cancel_step d' key)"
    if "hm_contains (active_pollers d) key" for d' key
    unfolding cancel_step_def using that by (intro emits_rules emits_emit) blast
  then show ?thesis
    unfolding cancel_session_pollers_def by (intro emits_fold_set) (auto simp: hm_contains_keys)
qed

lemma spawn_aborts_nothing: "emits (\<lambda>e. e \<noteq> PollerAborted sid p) (maybe_spawn_pollers i d)"
proof -
  have "emits (\<lambda>e. e \<noteq> PollerAborted sid p) (spawn_poller i d q)" for d q
    unfolding spawn_poller_def by (intro emits_rules emits_emit) simp
  then show ?thesis
    unfolding maybe_spawn_pollers_def by (intro emits_rules emits_fold)
qed

lemma cancel_same: "wp (cancel_session_pollers i d) (\<lambda>_ _. True)
    (\<lambda>d' _. same_sessions d d' \<and> (\<forall>key. hm_contains (active_pollers d') key \<longrightarrow> hm_contains (active_pollers d) key)) t"
  by (rule wp_mono [OF wp_cancel]) auto

interpretation unpolled: kept_by_events "lock_unpolled sid k" "\<lambda>_. True" for sid k
proof unfold_locales
  show "wp (maybe_spawn_pollers i d) (\<lambda>_ _. True) (\<lambda>d' _. lock_unpolled sid k d') t" if "lock_unpolled sid k d" for i d t
    by (rule wp_mono [OF spawn_lock_unpolled [OF that]]) auto
  show "wp (cancel_session_pollers i d) (\<lambda>_ _. True) (\<lambda>d' _. lock_unpolled sid k d') t" if "lock_unpolled sid k d" for i d t
    by (rule wp_mono [OF cancel_same]) (use that in \<open>auto simp: lock_unpolled_def same_sessions_def\<close>)
qed (auto simp: lock_unpolled_def evolves_def hm_contains_def emits_mono [OF emits_cancel] emits_mono [OF emits_maybe_spawn])

text \<open>Once a lock is confirmed it stays so, and nothing is emitted that would stop its poller.\<close>

interpretation confirmed: kept_by_events "\<lambda>d. lock_confirmed sid k d \<and> lock_unpolled sid k d"
  "\<lambda>e. e \<noteq> PollerAborted sid (LockTx k)" for sid k
proof unfold_locales
  fix d i t
  assume J: "lock_confirmed sid k d \<and> lock_unpolled sid k d"
  show "wp (maybe_spawn_pollers i d) (\<lambda>_ _. True) (\<lambda>d' _. lock_confirmed sid k d' \<and> lock_unpolled sid k d') t"
    by (rule wp_mono [OF spawn_lock_unpolled]) (use J in \<open>auto simp: lock_confirmed_def same_sessions_def\<close>)
  show "wp (cancel_session_pollers i d) (\<lambda>_ _. True) (\<lambda>d' _. lock_confirmed sid k d' \<and> lock_unpolled sid k d') t"
    by (rule wp_mono [OF cancel_same]) (use J in \<open>auto simp: lock_confirmed_def lock_unpolled_def same_sessions_def\<close>)
  show "emits (\<lambda>e. e \<noteq> PollerAborted sid (LockTx k)) (cancel_session_pollers i d)"
    by (rule emits_mono [OF cancel_aborts_active]) (use J in \<open>auto simp: lock_confirmed_def lock_unpolled_def\<close>)
qed (auto simp: lock_confirmed_def lock_unpolled_def evolves_def hm_contains_def spawn_aborts_nothing poller_event_def)

end
