(* ===== verification/Runtime_Props.thy ===== *)
theory Runtime_Props
  imports Poller_Life Sample_Run
begin

text \<open>
  Properties of the running daemon of \<open>Runtime\<close>: whatever the order of its tasks, it only does what the
  daemon of \<open>Daemon_Runs\<close> may do; no message is lost, repeated or overtaken between a socket and
  the handler; and the tasks that poll confirmed locks never end.
\<close>

section \<open>Taking turns\<close>

text \<open>A schedule of the tasks, for the witnesses.\<close>

datatype turn = Accept "(address \<times> bytes \<times> bool) option" | Send nat | Tick nat | Receive

definition take_turn :: "env \<Rightarrow> turn \<Rightarrow> runtime \<Rightarrow> runtime option" where
  "take_turn E x r = (case x of
       Accept sock \<Rightarrow> if accepting r then Some (accept_turn E sock r) else None
     | Send c \<Rightarrow> reader_sends c r
     | Tick n \<Rightarrow> poller_ticks n r
     | Receive \<Rightarrow> receive_event E r)"

fun take_turns :: "env \<Rightarrow> turn list \<Rightarrow> runtime \<Rightarrow> runtime option" where
  "take_turns E [] r = Some r"
| "take_turns E (x # xs) r = (case take_turn E x r of None \<Rightarrow> None | Some r' \<Rightarrow> take_turns E xs r')"

lemma take_turn_step: "take_turn E x r = Some r' \<Longrightarrow> rt_step E r r'"
  by (auto simp: take_turn_def intro: rt_step.intros split: turn.splits if_splits)

lemma take_turns_reachable:
  "rt_reachable E r0 r \<Longrightarrow> take_turns E xs r = Some r' \<Longrightarrow> rt_reachable E r0 r'"
proof (induction E xs r rule: take_turns.induct)
  case (2 E x xs r)
  then show ?case by (auto split: option.splits intro: rt_reachable.step take_turn_step)
qed simp

definition sample_start :: runtime where
  "sample_start = the (run_start True False (fst (swap_after 11)) (snd (swap_after 11)))"

text \<open>The peer announces its lock over a socket; the poller this spawns ticks and finds the lock confirmed.\<close>

definition sample_turns :: "turn list" where
  "sample_turns = [Accept (Some (''peer2'', bytes_of_text ''lock'' @ [10], True)), Send 0, Receive, Tick 0, Receive]"

lemma sample_start_def': "run_start True False (fst (swap_after 11)) (snd (swap_after 11)) = Some sample_start"
  by (simp add: sample_start_def run_start_def)

lemma sample_course:
  obtains r r' where "take_turns swap_env sample_turns sample_start = Some r"
    "(7, LockTx 2) \<in> set (ticking r)" "\<exists>s. hm_get (sessions (served r)) 7 = Some s \<and> 2 \<in> confirmed_lock_txs s"
    "accepted r = [(''peer2'', bytes_of_text ''lock'' @ [10], True)]"
    "take_turns swap_env [Tick 0, Receive] r = Some r'"
proof -
  have "case take_turns swap_env sample_turns sample_start of None \<Rightarrow> False
    | Some r \<Rightarrow> (7, LockTx 2) \<in> set (ticking r) \<and> accepted r = [(''peer2'', bytes_of_text ''lock'' @ [10], True)] \<and>
        (case hm_get (sessions (served r)) 7 of None \<Rightarrow> False | Some s \<Rightarrow> 2 \<in> confirmed_lock_txs s) \<and>
        take_turns swap_env [Tick 0, Receive] r \<noteq> None"
    by code_simp
  then show thesis using that by (auto split: option.splits)
qed

section \<open>The runtime is a run of the daemon\<close>

text \<open>
  C9: the running daemon refines the daemon of the step relation. From any reachable daemon, with any
  sockets, any bytes on them and any interleaving of the accept loop, the readers, the pollers, the
  event loop and, for a shared daemon, starts of sessions in between, the daemon behind the channel is a
  reachable daemon; so every property of reachable daemons holds of it. Unless it is shared, it is
  exactly what the event loop makes of the events taken from the channel, in their order.
\<close>

theorem run_refines_daemon:
  assumes "reachable E keys cfg (d, t)" and "run_start bound sh d t = Some r0" and "rt_reachable E r0 r"
  shows "reachable E keys cfg (served r, history r) \<and>
    (sh \<or> event_loop E d (map snd (handled r)) t = (Inr (served r), history r))"
proof (cases sh)
  case True
  then show ?thesis using rt_invariant(3) [OF assms(2,3,1)] by simp
next
  case False
  then show ?thesis using rt_invariant(3) [OF assms(2,3,1)] rt_event_loop [of bound d t r0 E r] assms(2,3) by simp
qed

theorem run_refines_daemon_witness:
  "\<exists>r. take_turns swap_env sample_turns sample_start = Some r \<and>
     reachable swap_env sample_keys sample_config (served r, history r) \<and>
     event_loop swap_env (fst (swap_after 11)) (map snd (handled r)) (snd (swap_after 11)) = (Inr (served r), history r)"
proof -
  obtain r where r: "take_turns swap_env sample_turns sample_start = Some r" by (rule sample_course)
  have "reachable swap_env sample_keys sample_config (fst (swap_after 11), snd (swap_after 11))"
    using swap_after_reachable by simp
  from run_refines_daemon [OF this sample_start_def' take_turns_reachable [OF rt_reachable.init r]] r
  show ?thesis by auto
qed

section \<open>The channel\<close>

text \<open>
  C18: between a socket and the handler nothing is lost, repeated or overtaken. At any time the events of a
  connection that have been handled, followed by those that wait in the channel and those its reader has
  yet to send, are exactly the events that \<open>handle_connection\<close> makes of the bytes of that connection;
  and the channel never holds more than its capacity.
\<close>

theorem connections_in_order:
  assumes "run_start bound sh d t = Some r0" and "rt_reachable E r0 r"
    and "c < length (accepted r)" "accepted r ! c = (addr, bs, closed)"
  shows "events_of c (handled r) @ events_of c (channel r) @ unsent r ! c = fst (handle_connection E addr bs closed) \<and>
    length (channel r) \<le> channel_capacity"
  using rt_invariant(1) [OF assms(1,2)] assms(3,4) by (fastforce simp: in_order_def)

theorem connections_in_order_witness:
  "\<exists>r. take_turns swap_env sample_turns sample_start = Some r \<and>
     events_of 0 (handled r) @ events_of 0 (channel r) @ unsent r ! 0 =
       fst (handle_connection swap_env ''peer2'' (bytes_of_text ''lock'' @ [10]) True)"
proof -
  obtain r where r: "take_turns swap_env sample_turns sample_start = Some r"
    "accepted r = [(''peer2'', bytes_of_text ''lock'' @ [10], True)]" by (rule sample_course)
  from connections_in_order [OF sample_start_def' take_turns_reachable [OF rt_reachable.init r(1)], of 0] r
  show ?thesis by simp
qed

section \<open>Pollers that never end\<close>

lemma follow_pollers_kept:
  "(i, p) \<in> set ps \<Longrightarrow> list_all (\<lambda>e. e \<noteq> PollerAborted i p) new \<Longrightarrow> (i, p) \<in> set (follow_pollers new ps)"
proof (induction new)
  case (Cons e new)
  then have "(i, p) \<in> set (follow_pollers new ps)" "e \<noteq> PollerAborted i p" by simp_all
  moreover have "(i, p) \<in> set (remove1 (j, q) xs)" if "(i, p) \<in> set xs" "j = i \<longrightarrow> q \<noteq> p" for j q xs
    using in_set_remove1 [of "(i, p)" "(j, q)" xs] that by auto
  ultimately show ?case by (cases e) (auto simp: follow_pollers_def)
qed (simp add: follow_pollers_def)

lemma reachable_lock_unpolled: "reachable E keys cfg c \<Longrightarrow> lock_unpolled sid k (fst c)"
proof (induction rule: reachable.induct)
  case init
  then show ?case by (simp add: lock_unpolled_def daemon_new_def)
next
  case (step c c')
  obtain d t d' t' where c: "c = (d, t)" "c' = (d', t')" by (cases c, cases c')
  have J: "lock_unpolled sid k d" using step c by simp
  have e: "lock_unpolled sid k d'" if "handle_event E ev d t = (Inr d', t')" for ev
    using wp_Inr [OF unpolled.keeping_event [OF J] that] by blast
  from step(2) [unfolded c] show ?case
  proof (cases rule: daemon_stepE [consumes 1, case_names create start peer poll])
    case (create i ps sblock sslot bfee cfee s col w)
    then have "confirmed_lock_txs s = {}" using session_new_fields(3) [OF create(2)] by (auto simp: session_literal_def)
    then show ?thesis using J create c by (auto simp: lock_unpolled_def insert_session_def)
  next
    case (start i ok)
    then show ?thesis using wp_Inr [OF unpolled.keeping_start [OF J] start(1)] c by simp
  qed (use e c in auto)
qed

text \<open>
  C37: nothing stops the task that polls a confirmed lock. When a lock is confirmed, its entry leaves the map of
  pollers without the task being aborted. From then on, as long as the daemon runs, the task keeps
  ticking, into the same bounded channel as the messages of the peers: it is not in the map, so no
  cancellation finds it, also not when the session is over.
\<close>

theorem confirmed_lock_poller_ticks_on:
  assumes "reachable E keys cfg (d, t)" and "run_start bound sh d t = Some r0" and "rt_reachable E r0 r"
    and "hm_get (sessions (served r)) sid = Some s" "k \<in> confirmed_lock_txs s"
    and "(sid, LockTx k) \<in> set (ticking r)" and "rt_reachable E r r'"
  shows "(sid, LockTx k) \<in> set (ticking r') \<and> \<not> hm_contains (active_pollers (served r')) (sid, LockTx k)"
proof -
  have "reachable E keys cfg (served r, history r)" by (rule rt_invariant(3) [OF assms(2,3,1)])
  from reachable_lock_unpolled [OF this] have 0: "lock_confirmed sid k (served r) \<and> lock_unpolled sid k (served r)"
    using assms(4,5) by (auto simp: lock_confirmed_def)
  have "(sid, LockTx k) \<in> set (ticking r') \<and> lock_confirmed sid k (served r') \<and> lock_unpolled sid k (served r')"
    using assms(7)
  proof (induction rule: rt_reachable.induct)
    case init
    then show ?case using 0 assms(6) by simp
  next
    case (step r1 r2)
    then have J: "lock_confirmed sid k (served r1) \<and> lock_unpolled sid k (served r1)" and tick: "(sid, LockTx k) \<in> set (ticking r1)"
      by simp_all
    from step(2) show ?case
    proof (cases rule: rt_stepE [consumes 1, case_names accept send tick receive start])
      case receive
      then obtain src ev rest d' t' where h: "handle_event E ev (served r1) (history r1) = (Inr d', t')"
        and r2: "r2 = r1\<lparr>served := d', history := t', channel := rest, handled := handled r1 @ [(src, ev)],
          ticking := follow_pollers (new_effects (history r1) t') (ticking r1)\<rparr>"
        by (auto simp: receive_event_Some)
      from wp_Inr [OF confirmed.keeping_event [OF J] h]
      have J': "lock_confirmed sid k d' \<and> lock_unpolled sid k d'"
        and g: "grown (\<lambda>e. e \<noteq> PollerAborted sid (LockTx k)) (history r1) t'" by blast+
      have "(sid, LockTx k) \<in> set (follow_pollers (new_effects (history r1) t') (ticking r1))"
        by (rule follow_pollers_kept [OF tick]) (use grown_new [OF g] in simp)
      then show ?thesis using J' by (simp add: r2)
    next
      case (start i ok d' t')
      then show ?thesis using wp_Inr [OF confirmed.keeping_start [OF J] start(3)] tick by simp
    qed (use J tick in \<open>auto simp: accept_turn_def reader_sends_Some poller_ticks_Some split: option.splits\<close>)
  qed
  then show ?thesis by (auto simp: lock_confirmed_def lock_unpolled_def)
qed

theorem confirmed_lock_poller_ticks_on_witness:
  "\<exists>r r'. take_turns swap_env sample_turns sample_start = Some r \<and> take_turns swap_env [Tick 0, Receive] r = Some r' \<and>
     (7, LockTx 2) \<in> set (ticking r') \<and> \<not> hm_contains (active_pollers (served r')) (7, LockTx 2)"
proof -
  obtain r r' s where r: "take_turns swap_env sample_turns sample_start = Some r" "(7, LockTx 2) \<in> set (ticking r)"
    "hm_get (sessions (served r)) 7 = Some s" "2 \<in> confirmed_lock_txs s"
    "take_turns swap_env [Tick 0, Receive] r = Some r'" by (rule sample_course) blast
  have "reachable swap_env sample_keys sample_config (fst (swap_after 11), snd (swap_after 11))"
    using swap_after_reachable by simp
  from confirmed_lock_poller_ticks_on [OF this sample_start_def' take_turns_reachable [OF rt_reachable.init r(1)] r(3,4,2)
      take_turns_reachable [OF rt_reachable.init r(5)]] r
  show ?thesis by blast
qed

end
