(* ===== verification/Trust_Props.thy ===== *)
theory Trust_Props
  imports Peer_Props Protocol_Props
begin

text \<open>
  What the handler of a revealed secret does not look at: the adaptor points announced in the setup. A
  participant may reveal any value, and the leader that it completes is done all the same.
\<close>

section \<open>Computations that ignore the adaptor points\<close>

definition ignores_points :: "(session \<Rightarrow> session act) \<Rightarrow> bool" where
  "ignores_points f \<longleftrightarrow> (\<forall>s ps t. f (s\<lparr>adaptor_points := ps\<rparr>) t =
     (case f s t of (r, t') \<Rightarrow> (map_sum id (\<lambda>s'. s'\<lparr>adaptor_points := ps\<rparr>) r, t')))"

lemma ignores_ret: "(\<And>s ps. g (s\<lparr>adaptor_points := ps\<rparr>) = (g s)\<lparr>adaptor_points := ps\<rparr>) \<Longrightarrow> ignores_points (\<lambda>s. ret (g s))"
  by (simp add: ignores_points_def ret_def)

lemma ignores_bind: "ignores_points f \<Longrightarrow> ignores_points g \<Longrightarrow> ignores_points (\<lambda>s. bind (f s) g)"
  by (auto simp: ignores_points_def bind_def split: prod.splits sum.splits)

lemma ignores_ask:
  "(\<And>s ps. m (s\<lparr>adaptor_points := ps\<rparr>) = m s) \<Longrightarrow> (\<And>x. ignores_points (\<lambda>s. f s x)) \<Longrightarrow>
   ignores_points (\<lambda>s. bind (m s) (f s))"
  by (auto simp: ignores_points_def bind_def split: prod.splits sum.splits)

lemma ignores_if:
  "(\<And>s ps. b (s\<lparr>adaptor_points := ps\<rparr>) = b s) \<Longrightarrow> ignores_points f \<Longrightarrow> ignores_points g \<Longrightarrow>
   ignores_points (\<lambda>s. if b s then f s else g s)"
  by (simp add: ignores_points_def)

lemma ignores_option:
  "(\<And>s ps. x (s\<lparr>adaptor_points := ps\<rparr>) = x s) \<Longrightarrow> ignores_points f \<Longrightarrow> (\<And>y. ignores_points (\<lambda>s. g s y)) \<Longrightarrow>
   ignores_points (\<lambda>s. case x s of None \<Rightarrow> f s | Some y \<Rightarrow> g s y)"
  by (simp add: ignores_points_def split: option.splits)

lemma ignores_chain:
  "ignores_points f \<Longrightarrow> ignores_points g \<Longrightarrow> ignores_points (\<lambda>s. case c of Bitcoin \<Rightarrow> f s | Cardano \<Rightarrow> g s)"
  by (cases c) simp_all

lemmas ignores_rules = ignores_if ignores_option ignores_chain ignores_ask ignores_ret

lemma ignores_announce: "ignores_points (\<lambda>s. announce E s me m)"
  unfolding announce_def ignores_points_def
  by (auto simp: bind_def ret_def split: prod.splits sum.splits)

lemma points_kept [simp]:
  "spent_chain (s\<lparr>adaptor_points := ps\<rparr>) role = spent_chain s role"
  "aggregate_adaptor_secret E (s\<lparr>adaptor_points := ps\<rparr>) = aggregate_adaptor_secret E s"
  "with_collateral E (s\<lparr>adaptor_points := ps\<rparr>) keys me h = with_collateral E s keys me h"
  "all_adaptor_secrets_received (s\<lparr>adaptor_points := ps\<rparr>) = all_adaptor_secrets_received s"
  "transition_to st (s\<lparr>adaptor_points := ps\<rparr>) = (transition_to st s)\<lparr>adaptor_points := ps\<rparr>"
  by (cases role) (simp_all add: spent_chain_def aggregate_adaptor_secret_def with_collateral_def
      all_adaptor_secrets_received_def transition_to_def)

lemma ignores_adapt_role: "ignores_points (\<lambda>s. adapt_role E s role cfg)"
  unfolding adapt_role_def adapt_role_with_def by (intro ignores_rules; simp)

lemma ignores_spend: "ignores_points (\<lambda>s. broadcast_my_spend_tx E s keys cfg)"
  unfolding broadcast_my_spend_tx_def Let_def by (intro ignores_rules; simp)

lemma ignores_claims: "ignores_points (\<lambda>s. leader_claims E cfg keys s me)"
proof -
  have "ignores_points (\<lambda>s. broadcast_my_spend_tx E (transition_to Claiming s) keys cfg)"
    using ignores_spend [of E keys cfg] by (simp add: ignores_points_def)
  then show ?thesis
    unfolding leader_claims_def Let_def
    by (intro ignores_bind ignores_if ignores_adapt_role ignores_announce ignores_ret; simp)
qed

lemma ignores_reveal: "ignores_points (\<lambda>s. handle_session_message E cfg keys s (SecretReveal x) pid)"
proof -
  have "ignores_points (\<lambda>s. leader_claims E cfg keys (s\<lparr>adaptor_secrets := hm_insert pid x (adaptor_secrets s)\<rparr>) me)" for me
    unfolding ignores_points_def
  proof (intro allI)
    fix s :: session and ps t
    have swap: "s\<lparr>adaptor_points := ps, adaptor_secrets := m\<rparr> = s\<lparr>adaptor_secrets := m, adaptor_points := ps\<rparr>" for m
      by simp
    let ?s = "s\<lparr>adaptor_secrets := hm_insert pid x (adaptor_secrets s)\<rparr>"
    have "leader_claims E cfg keys (?s\<lparr>adaptor_points := ps\<rparr>) me t =
        (case leader_claims E cfg keys ?s me t of (r, t') \<Rightarrow> (map_sum id (\<lambda>s'. s'\<lparr>adaptor_points := ps\<rparr>) r, t'))"
      using ignores_claims [of E cfg keys me] unfolding ignores_points_def by blast
    then show "leader_claims E cfg keys ((s\<lparr>adaptor_points := ps\<rparr>)\<lparr>adaptor_secrets :=
          hm_insert pid x (adaptor_secrets (s\<lparr>adaptor_points := ps\<rparr>))\<rparr>) me t =
        (case leader_claims E cfg keys ?s me t of (r, t') \<Rightarrow> (map_sum id (\<lambda>s'. s'\<lparr>adaptor_points := ps\<rparr>) r, t'))"
      by (simp add: swap)
  qed
  moreover have "all_adaptor_secrets_received ((s\<lparr>adaptor_points := ps\<rparr>)\<lparr>adaptor_secrets := m\<rparr>) =
      all_adaptor_secrets_received (s\<lparr>adaptor_secrets := m\<rparr>)" for s ps m
    by (simp add: all_adaptor_secrets_received_def)
  ultimately have "ignores_points (\<lambda>s. on_secret_reveal E cfg keys s x pid)"
    unfolding on_secret_reveal_def Let_def by (intro ignores_rules; simp add: transition_to_def)
  then show ?thesis
    unfolding handle_session_message_def wire_message.case by (intro ignores_if ignores_ret; simp)
qed

section \<open>The leader trusts what is revealed\<close>

text \<open>
  C35: handling a revealed secret never compares it with the adaptor point that its sender announced:
  with any other points in the session the result, the messages and the effects are the same. And
  when the handler returns at the leader and the revealed secret is the last one, the session is
  \<open>Completed\<close>, whatever the secret is.
\<close>

theorem leader_trusts_secrets:
  assumes "\<not> terminal (state s)" and "leader s = Some me" and "get_my_id (participants s) = Inr me"
    and "\<And>k. k \<in> members (participants s) \<Longrightarrow> k = pid \<or> hm_get (adaptor_secrets s) k \<noteq> None"
    and "handle_session_message E cfg keys s (SecretReveal sec) pid t = (Inr s', t')"
  shows "handle_session_message E cfg keys (s\<lparr>adaptor_points := ps\<rparr>) (SecretReveal sec) pid t =
      (Inr (s'\<lparr>adaptor_points := ps\<rparr>), t') \<and> state s' = Completed"
proof -
  have "all_adaptor_secrets_received (s\<lparr>adaptor_secrets := hm_insert pid sec (adaptor_secrets s)\<rparr>)"
    using assms(4) by (auto simp: all_adaptor_secrets_iff)
  then have "state s' = Completed"
    using assms(1-3,5) by (auto simp: handle_session_message_def on_secret_reveal_def Let_def
        leader_claims_def bind_def lift_def ret_def split: prod.splits sum.splits if_splits)
  then show ?thesis
    using ignores_reveal [of E cfg keys sec pid] assms(5) by (simp add: ignores_points_def)
qed

text \<open>A leader that has everything but the secret of participant 2, who announced the point 3. A reveal of
  what is not even hexadecimal is left out of the sum; the leader submits what that gives and is done.\<close>

definition robbed_session :: session where
  "robbed_session = leader_session\<lparr>adaptor_secrets := [(1, ''05'')], adaptor_points := [(1, ''5''), (2, ''3'')],
     adaptor_sigs := [(Spend 1, ''0203'')], unsigned_txs := [(Spend 1, ''b1'')]\<rparr>"

theorem leader_trusts_secrets_witness:
  "\<exists>s' t'. handle_session_message swap_env sample_config sample_keys robbed_session (SecretReveal ''zz'') 2 [] =
       (Inr s', t') \<and> state s' = Completed \<and> list_ex submits t' \<and>
     handle_session_message swap_env sample_config sample_keys (robbed_session\<lparr>adaptor_points := [(2, ''4'')]\<rparr>)
       (SecretReveal ''zz'') 2 [] = (Inr (s'\<lparr>adaptor_points := [(2, ''4'')]\<rparr>), t')"
proof -
  let ?x = "handle_session_message swap_env sample_config sample_keys robbed_session (SecretReveal ''zz'') 2 []"
  have "(case fst ?x of Inl _ \<Rightarrow> False | Inr _ \<Rightarrow> list_ex submits (snd ?x))" by code_simp
  then obtain s' where "fst ?x = Inr s'" and sub: "list_ex submits (snd ?x)" by (auto split: sum.splits)
  then have run: "?x = (Inr s', snd ?x)" by (metis prod.collapse)
  have q: "\<not> terminal (state robbed_session)" "leader robbed_session = Some 1"
    "adaptor_secrets robbed_session = [(1, ''05'')]" "members (participants robbed_session) = {1, 2}"
    by (auto simp: robbed_session_def leader_session_def new_session_def session_literal_def ring2_def bt_keys_def)
  have me: "get_my_id (participants robbed_session) = Inr 1" by code_simp
  have "k = 2 \<or> hm_get (adaptor_secrets robbed_session) k \<noteq> None"
    if "k \<in> members (participants robbed_session)" for k
    using that by (auto simp: q hm_get_def)
  from leader_trusts_secrets [OF q(1,2) me this run, of "[(2, ''4'')]"] show ?thesis
    using run sub by metis
qed

end
