(* ===== verification/Quint_Model.thy ===== *)
theory Quint_Model
  imports Prelude
begin

text \<open>
  The repository's own formal model of the protocol, the Quint specification under
  \<open>src/formal-methods\<close>: its parameters, its state, the guard and the effect of each of its actions, its
  step relation and its fair behaviours. The parameters are a record instead of constants, so that what
  is proved holds of any number of parties, any honest subset and any bound on reorganisations, and not
  only of the three parties of \<open>parameters.qnt\<close>, which are \<open>qnt_parameters\<close> here.
\<close>

section \<open>Types and parameters\<close>

text \<open>\<open>types.qnt\<close>: the phases of a party and the state of the asset it deposits.\<close>

datatype qphase =
    PhaseConfig
  | PhaseSetupAdaptorBroadcast
  | PhaseSetupKey1
  | PhaseSetupKey2
  | PhaseSetupKey3
  | PhaseSetupSignInTx
  | PhaseLock
  | PhaseClaim

datatype 'p asset_status =
    OwnedBy 'p
  | Locked
  | PendingClaim 'p
  | ClaimedBy 'p
  | RefundedTo 'p

fun phaseRank :: "qphase \<Rightarrow> nat" where
  "phaseRank PhaseConfig = 0"
| "phaseRank PhaseSetupAdaptorBroadcast = 1"
| "phaseRank PhaseSetupKey1 = 2"
| "phaseRank PhaseSetupKey2 = 3"
| "phaseRank PhaseSetupKey3 = 4"
| "phaseRank PhaseSetupSignInTx = 5"
| "phaseRank PhaseLock = 6"
| "phaseRank PhaseClaim = 7"

definition phaseAtLeast :: "qphase \<Rightarrow> qphase \<Rightarrow> bool" where
  "phaseAtLeast ph threshold \<longleftrightarrow> phaseRank ph \<ge> phaseRank threshold"

text \<open>\<open>parameters.qnt\<close>.\<close>

record 'p qparams =
  PARTIES :: "'p set"
  LEADER :: 'p
  HONEST :: "'p set"
  TRANSFERS :: "'p \<Rightarrow> 'p"
  INVTRANSFERS :: "'p \<Rightarrow> 'p"
  WINDOWS :: "'p \<Rightarrow> int"
  DELTA :: int
  MAX_REORGS :: int

definition senderOf :: "'p qparams \<Rightarrow> 'p \<Rightarrow> 'p" where
  "senderOf Q p = INVTRANSFERS Q p"

definition recipientOf :: "'p qparams \<Rightarrow> 'p \<Rightarrow> 'p" where
  "recipientOf Q p = TRANSFERS Q p"

definition allLocked :: "'p qparams \<Rightarrow> ('p \<Rightarrow> 'p asset_status) \<Rightarrow> bool" where
  "allLocked Q assts \<longleftrightarrow> (\<forall>p\<in>PARTIES Q. assts p = Locked)"

definition windowsOrdered :: "'p qparams \<Rightarrow> bool" where
  "windowsOrdered Q \<longleftrightarrow> (\<forall>d\<in>PARTIES Q. let recip = recipientOf Q d in
     (recip = LEADER Q \<and> WINDOWS Q d < WINDOWS Q (LEADER Q)) \<or>
     (recip \<noteq> LEADER Q \<and> WINDOWS Q d > WINDOWS Q recip \<and> WINDOWS Q d - WINDOWS Q recip \<ge> DELTA Q))"

datatype abc = A | B | C

definition qnt_parameters :: "abc qparams" where
  "qnt_parameters =
     \<lparr>PARTIES = {A, B, C}, LEADER = A, HONEST = {A, B, C},
      TRANSFERS = (\<lambda>p. case p of A \<Rightarrow> B | B \<Rightarrow> C | C \<Rightarrow> A),
      INVTRANSFERS = (\<lambda>p. case p of A \<Rightarrow> C | B \<Rightarrow> A | C \<Rightarrow> B),
      WINDOWS = (\<lambda>p. case p of A \<Rightarrow> 300 | B \<Rightarrow> 200 | C \<Rightarrow> 100),
      DELTA = 50, MAX_REORGS = 1\<rparr>"

section \<open>State\<close>

text \<open>
  Each of the five kinds of message has three variables: what each recipient received, who has
  committed to a sending, and what each recipient received in a divergent version.
\<close>

record 'p inbox =
  receivedAt :: "'p \<Rightarrow> 'p set"
  decidedBy :: "'p set"
  equivocatedAt :: "'p \<Rightarrow> 'p set"

record 'p qstate =
  phases :: "'p \<Rightarrow> qphase"
  assets :: "'p \<Rightarrow> 'p asset_status"
  adaptors :: "'p inbox"
  keys_sent :: "'p inbox"
  nonces :: "'p inbox"
  tAggs :: "'p inbox"
  preSigs :: "'p \<Rightarrow> 'p set"
  coSigs :: "'p \<Rightarrow> 'p set"
  secrets :: "'p inbox"
  triggerBroadcast :: bool
  openWindows :: "'p set"
  claimsFinalized :: bool
  refunded :: "'p set"
  claimConfirmed :: "'p set"
  reorgCount :: "'p \<Rightarrow> int"
  withheldLocks :: "'p set"
  withheldClaims :: "'p set"
  withheldTrigger :: bool

definition emptyInbox :: "'p inbox" where
  "emptyInbox = \<lparr>receivedAt = (\<lambda>_. {}), decidedBy = {}, equivocatedAt = (\<lambda>_. {})\<rparr>"

definition q_init :: "'p qstate" where
  "q_init =
     \<lparr>phases = (\<lambda>_. PhaseConfig), assets = OwnedBy,
      adaptors = emptyInbox, keys_sent = emptyInbox, nonces = emptyInbox, tAggs = emptyInbox,
      preSigs = (\<lambda>_. {}), coSigs = (\<lambda>_. {}), secrets = emptyInbox, triggerBroadcast = False,
      openWindows = {}, claimsFinalized = False, refunded = {}, claimConfirmed = {},
      reorgCount = (\<lambda>_. 0), withheldLocks = {}, withheldClaims = {}, withheldTrigger = False\<rparr>"

section \<open>Helpers\<close>

text \<open>The three predicates on complete rounds are one definition in three copies in the source.\<close>

definition allPresentFor :: "'p qparams \<Rightarrow> 'p \<Rightarrow> 'p inbox \<Rightarrow> bool" where
  "allPresentFor Q r m \<longleftrightarrow> receivedAt m r = PARTIES Q"

definition noEquivocationAt :: "'p \<Rightarrow> 'p inbox \<Rightarrow> bool" where
  "noEquivocationAt r m \<longleftrightarrow> equivocatedAt m r = {}"

definition roundDoneFor :: "'p qparams \<Rightarrow> 'p \<Rightarrow> ('p \<Rightarrow> 'p set) \<Rightarrow> bool" where
  "roundDoneFor Q p m \<longleftrightarrow> (\<forall>d\<in>PARTIES Q. d \<in> m p) \<and> (\<forall>q\<in>PARTIES Q. p \<in> m q)"

definition honestClaimsDone :: "'p qparams \<Rightarrow> 'p qstate \<Rightarrow> bool" where
  "honestClaimsDone Q s \<longleftrightarrow> (\<forall>p\<in>HONEST Q.
     case assets s (senderOf Q p) of PendingClaim _ \<Rightarrow> True | ClaimedBy _ \<Rightarrow> True | _ \<Rightarrow> False)"

definition anyClaimed :: "'p qparams \<Rightarrow> 'p qstate \<Rightarrow> bool" where
  "anyClaimed Q s \<longleftrightarrow> (\<exists>p\<in>PARTIES Q. case assets s p of ClaimedBy _ \<Rightarrow> True | _ \<Rightarrow> False)"

definition anyRefunded :: "'p qparams \<Rightarrow> 'p qstate \<Rightarrow> bool" where
  "anyRefunded Q s \<longleftrightarrow> (\<exists>p\<in>PARTIES Q. case assets s p of RefundedTo _ \<Rightarrow> True | _ \<Rightarrow> False)"

definition claimedByNext :: "'p qparams \<Rightarrow> 'p \<Rightarrow> ('p \<Rightarrow> 'p asset_status) \<Rightarrow> bool" where
  "claimedByNext Q p assts = (case assts p of
       ClaimedBy q \<Rightarrow> q = recipientOf Q p
     | PendingClaim q \<Rightarrow> q = recipientOf Q p
     | _ \<Rightarrow> False)"

definition iClaimedIncoming :: "'p qparams \<Rightarrow> 'p \<Rightarrow> ('p \<Rightarrow> 'p asset_status) \<Rightarrow> bool" where
  "iClaimedIncoming Q p assts = (case assts (senderOf Q p) of
       ClaimedBy q \<Rightarrow> q = p
     | PendingClaim q \<Rightarrow> q = p
     | _ \<Rightarrow> False)"

section \<open>Enabling predicates\<close>

definition config_enabled :: "'p qstate \<Rightarrow> 'p \<Rightarrow> bool" where
  "config_enabled s p \<longleftrightarrow> phases s p = PhaseConfig"

definition sendAdaptorPointTo_enabled :: "'p qstate \<Rightarrow> 'p \<Rightarrow> bool" where
  "sendAdaptorPointTo_enabled s p \<longleftrightarrow>
     phases s p = PhaseSetupAdaptorBroadcast \<and> p \<notin> decidedBy (adaptors s)"

definition adaptorBroadcastAdvance_enabled :: "'p qparams \<Rightarrow> 'p qstate \<Rightarrow> 'p \<Rightarrow> bool" where
  "adaptorBroadcastAdvance_enabled Q s p \<longleftrightarrow>
     phases s p = PhaseSetupAdaptorBroadcast \<and> allPresentFor Q p (adaptors s) \<and>
     (p \<in> HONEST Q \<longrightarrow> noEquivocationAt p (adaptors s))"

definition sendKeyTo_enabled :: "'p qstate \<Rightarrow> 'p \<Rightarrow> bool" where
  "sendKeyTo_enabled s p \<longleftrightarrow> phases s p = PhaseSetupKey1 \<and> p \<notin> decidedBy (keys_sent s)"

definition key1Advance_enabled :: "'p qparams \<Rightarrow> 'p qstate \<Rightarrow> 'p \<Rightarrow> bool" where
  "key1Advance_enabled Q s p \<longleftrightarrow>
     phases s p = PhaseSetupKey1 \<and> allPresentFor Q p (keys_sent s) \<and>
     (p \<in> HONEST Q \<longrightarrow> noEquivocationAt p (keys_sent s))"

definition sendNonceTo_enabled :: "'p qstate \<Rightarrow> 'p \<Rightarrow> bool" where
  "sendNonceTo_enabled s p \<longleftrightarrow> phases s p = PhaseSetupKey2 \<and> p \<notin> decidedBy (nonces s)"

definition key2Advance_enabled :: "'p qparams \<Rightarrow> 'p qstate \<Rightarrow> 'p \<Rightarrow> bool" where
  "key2Advance_enabled Q s p \<longleftrightarrow>
     phases s p = PhaseSetupKey2 \<and> allPresentFor Q p (nonces s) \<and>
     (p \<in> HONEST Q \<longrightarrow> noEquivocationAt p (nonces s))"

definition sendTAggTo_enabled :: "'p qparams \<Rightarrow> 'p qstate \<Rightarrow> 'p \<Rightarrow> bool" where
  "sendTAggTo_enabled Q s d \<longleftrightarrow>
     phases s (recipientOf Q d) = PhaseSetupKey3 \<and> allPresentFor Q (recipientOf Q d) (adaptors s) \<and>
     d \<notin> decidedBy (tAggs s)"

definition sendPreSig_enabled :: "'p qparams \<Rightarrow> 'p qstate \<Rightarrow> 'p \<Rightarrow> 'p \<Rightarrow> bool" where
  "sendPreSig_enabled Q s p d \<longleftrightarrow>
     phases s p = PhaseSetupKey3 \<and> allPresentFor Q p (adaptors s) \<and>
     d \<in> receivedAt (tAggs s) p \<and> d \<notin> preSigs s p \<and>
     (p \<in> HONEST Q \<longrightarrow> noEquivocationAt p (adaptors s) \<and> d \<notin> equivocatedAt (tAggs s) p)"

definition key3Advance_enabled :: "'p qparams \<Rightarrow> 'p qstate \<Rightarrow> 'p \<Rightarrow> bool" where
  "key3Advance_enabled Q s p \<longleftrightarrow>
     phases s p = PhaseSetupKey3 \<and> roundDoneFor Q p (preSigs s) \<and>
     (p \<in> HONEST Q \<longrightarrow> noEquivocationAt p (tAggs s))"

definition sendCoSig_enabled :: "'p qparams \<Rightarrow> 'p qstate \<Rightarrow> 'p \<Rightarrow> 'p \<Rightarrow> bool" where
  "sendCoSig_enabled Q s q d \<longleftrightarrow>
     phases s q = PhaseSetupSignInTx \<and> d \<notin> coSigs s q \<and>
     ((recipientOf Q d = LEADER Q \<and> WINDOWS Q d < WINDOWS Q (recipientOf Q d)) \<or>
      (recipientOf Q d \<noteq> LEADER Q \<and> WINDOWS Q d > WINDOWS Q (recipientOf Q d))) \<and>
     (recipientOf Q d = LEADER Q \<or> WINDOWS Q d - WINDOWS Q (recipientOf Q d) \<ge> DELTA Q) \<and>
     (q \<in> HONEST Q \<longrightarrow> noEquivocationAt q (adaptors s) \<and> noEquivocationAt q (keys_sent s) \<and>
        noEquivocationAt q (nonces s) \<and> d \<notin> equivocatedAt (tAggs s) q)"

definition signInTxAdvance_enabled :: "'p qparams \<Rightarrow> 'p qstate \<Rightarrow> 'p \<Rightarrow> bool" where
  "signInTxAdvance_enabled Q s p \<longleftrightarrow>
     phases s p = PhaseSetupSignInTx \<and> roundDoneFor Q p (coSigs s)"

definition lock_enabled :: "'p qparams \<Rightarrow> 'p qstate \<Rightarrow> 'p \<Rightarrow> bool" where
  "lock_enabled Q s p \<longleftrightarrow>
     phases s p = PhaseLock \<and> assets s p = OwnedBy p \<and> (p \<in> HONEST Q \<longrightarrow> openWindows s = {}) \<and>
     p \<notin> withheldLocks s"

definition advanceToClaim_enabled :: "'p qparams \<Rightarrow> 'p qstate \<Rightarrow> 'p \<Rightarrow> bool" where
  "advanceToClaim_enabled Q s p \<longleftrightarrow> phases s p = PhaseLock \<and> allLocked Q (assets s)"

definition sendSecretTo_enabled :: "'p qparams \<Rightarrow> 'p qstate \<Rightarrow> 'p \<Rightarrow> bool" where
  "sendSecretTo_enabled Q s p \<longleftrightarrow>
     phases s p = PhaseClaim \<and> p \<noteq> LEADER Q \<and> p \<notin> decidedBy (secrets s)"

definition trigger_enabled :: "'p qparams \<Rightarrow> 'p qstate \<Rightarrow> bool" where
  "trigger_enabled Q s \<longleftrightarrow>
     phases s (LEADER Q) = PhaseClaim \<and> \<not> triggerBroadcast s \<and>
     (\<forall>p\<in>PARTIES Q - {LEADER Q}. p \<in> receivedAt (secrets s) (LEADER Q)) \<and>
     assets s (senderOf Q (LEADER Q)) = Locked \<and> \<not> withheldTrigger s \<and>
     (LEADER Q \<in> HONEST Q \<longrightarrow> noEquivocationAt (LEADER Q) (secrets s))"

definition claim_enabled :: "'p qparams \<Rightarrow> 'p qstate \<Rightarrow> 'p \<Rightarrow> bool" where
  "claim_enabled Q s p \<longleftrightarrow>
     phases s p = PhaseClaim \<and> triggerBroadcast s \<and> assets s (senderOf Q p) = Locked \<and>
     p \<notin> withheldClaims s"

definition confirmClaim_enabled :: "'p qparams \<Rightarrow> 'p qstate \<Rightarrow> 'p \<Rightarrow> bool" where
  "confirmClaim_enabled Q s p \<longleftrightarrow>
     assets s (senderOf Q p) = PendingClaim p \<and> claimsFinalized s \<and> p \<notin> claimConfirmed s"

definition reorgClaim_enabled :: "'p qparams \<Rightarrow> 'p qstate \<Rightarrow> 'p \<Rightarrow> bool" where
  "reorgClaim_enabled Q s p \<longleftrightarrow>
     assets s (senderOf Q p) = PendingClaim p \<and> \<not> claimsFinalized s \<and> reorgCount s p < MAX_REORGS Q"

definition finalizeClaims_enabled :: "'p qparams \<Rightarrow> 'p qstate \<Rightarrow> bool" where
  "finalizeClaims_enabled Q s \<longleftrightarrow> \<not> claimsFinalized s \<and> triggerBroadcast s \<and> honestClaimsDone Q s"

definition refund_enabled :: "'p qstate \<Rightarrow> 'p \<Rightarrow> bool" where
  "refund_enabled s p \<longleftrightarrow>
     (phases s p = PhaseLock \<or> phases s p = PhaseClaim) \<and> assets s p = Locked \<and>
     p \<in> openWindows s \<and> p \<notin> refunded s"

definition withholdLock_enabled :: "'p qparams \<Rightarrow> 'p qstate \<Rightarrow> 'p \<Rightarrow> bool" where
  "withholdLock_enabled Q s p \<longleftrightarrow>
     p \<notin> HONEST Q \<and> phases s p = PhaseLock \<and> assets s p = OwnedBy p \<and> p \<notin> withheldLocks s"

definition withholdClaim_enabled :: "'p qparams \<Rightarrow> 'p qstate \<Rightarrow> 'p \<Rightarrow> bool" where
  "withholdClaim_enabled Q s p \<longleftrightarrow>
     p \<notin> HONEST Q \<and> phases s p = PhaseClaim \<and> triggerBroadcast s \<and>
     assets s (senderOf Q p) = Locked \<and> p \<notin> withheldClaims s"

definition withholdTrigger_enabled :: "'p qparams \<Rightarrow> 'p qstate \<Rightarrow> bool" where
  "withholdTrigger_enabled Q s \<longleftrightarrow>
     LEADER Q \<notin> HONEST Q \<and> phases s (LEADER Q) = PhaseClaim \<and> \<not> triggerBroadcast s \<and>
     \<not> withheldTrigger s"

text \<open>The gate on time: no other action is enabled.\<close>

definition noOtherActionEnabled :: "'p qparams \<Rightarrow> 'p qstate \<Rightarrow> bool" where
  "noOtherActionEnabled Q s \<longleftrightarrow>
     \<not> (\<exists>p\<in>PARTIES Q. config_enabled s p) \<and>
     \<not> (\<exists>p\<in>PARTIES Q. sendAdaptorPointTo_enabled s p) \<and>
     \<not> (\<exists>p\<in>PARTIES Q. adaptorBroadcastAdvance_enabled Q s p) \<and>
     \<not> (\<exists>p\<in>PARTIES Q. sendKeyTo_enabled s p) \<and>
     \<not> (\<exists>p\<in>PARTIES Q. key1Advance_enabled Q s p) \<and>
     \<not> (\<exists>p\<in>PARTIES Q. sendNonceTo_enabled s p) \<and>
     \<not> (\<exists>p\<in>PARTIES Q. key2Advance_enabled Q s p) \<and>
     \<not> (\<exists>d\<in>PARTIES Q. sendTAggTo_enabled Q s d) \<and>
     \<not> (\<exists>p\<in>PARTIES Q. \<exists>d\<in>PARTIES Q. sendPreSig_enabled Q s p d) \<and>
     \<not> (\<exists>p\<in>PARTIES Q. key3Advance_enabled Q s p) \<and>
     \<not> (\<exists>q\<in>PARTIES Q. \<exists>d\<in>PARTIES Q. sendCoSig_enabled Q s q d) \<and>
     \<not> (\<exists>p\<in>PARTIES Q. signInTxAdvance_enabled Q s p) \<and>
     \<not> (\<exists>p\<in>PARTIES Q. lock_enabled Q s p) \<and>
     \<not> (\<exists>p\<in>PARTIES Q. advanceToClaim_enabled Q s p) \<and>
     \<not> (\<exists>p\<in>PARTIES Q. sendSecretTo_enabled Q s p) \<and>
     \<not> trigger_enabled Q s \<and>
     \<not> (\<exists>p\<in>PARTIES Q. claim_enabled Q s p) \<and>
     \<not> (\<exists>p\<in>PARTIES Q. confirmClaim_enabled Q s p) \<and>
     \<not> (\<exists>p\<in>PARTIES Q. reorgClaim_enabled Q s p) \<and>
     \<not> finalizeClaims_enabled Q s \<and>
     \<not> (\<exists>p\<in>PARTIES Q. refund_enabled s p) \<and>
     \<not> (\<exists>p\<in>PARTIES Q. withholdLock_enabled Q s p) \<and>
     \<not> (\<exists>p\<in>PARTIES Q. withholdClaim_enabled Q s p) \<and>
     \<not> withholdTrigger_enabled Q s"

section \<open>Actions\<close>

text \<open>An action with what it leaves open: the party, the depositor, the recipients of a message and those
  of them that get a divergent version.\<close>

datatype 'p qaction =
    Config 'p
  | SendAdaptorPointTo 'p "'p set" "'p set"
  | AdaptorBroadcastAdvance 'p
  | SendKeyTo 'p "'p set" "'p set"
  | Key1Advance 'p
  | SendNonceTo 'p "'p set" "'p set"
  | Key2Advance 'p
  | SendTAggTo 'p "'p set" "'p set"
  | SendPreSig 'p 'p
  | Key3Advance 'p
  | SendCoSig 'p 'p
  | SignInTxAdvance 'p
  | Lock 'p
  | AdvanceToClaim 'p
  | SendSecretTo 'p "'p set" "'p set"
  | Trigger
  | Claim 'p
  | ConfirmClaim 'p
  | ReorgClaim 'p
  | FinalizeClaims
  | RefundDeposit 'p
  | WithholdLock 'p
  | WithholdClaim 'p
  | WithholdTrigger
  | OpenNextWindow 'p

text \<open>The choice of recipients: all of them and no divergence for an honest sender; divergence only towards
  honest recipients.\<close>

definition sends_allowed :: "'p qparams \<Rightarrow> 'p \<Rightarrow> 'p set \<Rightarrow> 'p set \<Rightarrow> bool" where
  "sends_allowed Q p recipients divergent \<longleftrightarrow>
     recipients \<subseteq> PARTIES Q \<and>
     (p \<in> HONEST Q \<longrightarrow> recipients = PARTIES Q) \<and> (p \<in> HONEST Q \<longrightarrow> divergent = {}) \<and>
     divergent \<subseteq> recipients \<inter> HONEST Q"

definition deliver :: "'p \<Rightarrow> 'p set \<Rightarrow> 'p set \<Rightarrow> 'p inbox \<Rightarrow> 'p inbox" where
  "deliver p recipients divergent m =
     \<lparr>receivedAt = (\<lambda>r. if r \<in> recipients then receivedAt m r \<union> {p} else receivedAt m r),
      decidedBy = decidedBy m \<union> {p},
      equivocatedAt = (\<lambda>r. if r \<in> divergent then equivocatedAt m r \<union> {p} else equivocatedAt m r)\<rparr>"

text \<open>The guard of an action, its parameters drawn from the parties.\<close>

fun q_guard :: "'p qparams \<Rightarrow> 'p qstate \<Rightarrow> 'p qaction \<Rightarrow> bool" where
  "q_guard Q s (Config p) \<longleftrightarrow> p \<in> PARTIES Q \<and> config_enabled s p"
| "q_guard Q s (SendAdaptorPointTo p rs ds) \<longleftrightarrow>
     p \<in> PARTIES Q \<and> sendAdaptorPointTo_enabled s p \<and> sends_allowed Q p rs ds"
| "q_guard Q s (AdaptorBroadcastAdvance p) \<longleftrightarrow> p \<in> PARTIES Q \<and> adaptorBroadcastAdvance_enabled Q s p"
| "q_guard Q s (SendKeyTo p rs ds) \<longleftrightarrow> p \<in> PARTIES Q \<and> sendKeyTo_enabled s p \<and> sends_allowed Q p rs ds"
| "q_guard Q s (Key1Advance p) \<longleftrightarrow> p \<in> PARTIES Q \<and> key1Advance_enabled Q s p"
| "q_guard Q s (SendNonceTo p rs ds) \<longleftrightarrow> p \<in> PARTIES Q \<and> sendNonceTo_enabled s p \<and> sends_allowed Q p rs ds"
| "q_guard Q s (Key2Advance p) \<longleftrightarrow> p \<in> PARTIES Q \<and> key2Advance_enabled Q s p"
| "q_guard Q s (SendTAggTo d rs ds) \<longleftrightarrow>
     d \<in> PARTIES Q \<and> sendTAggTo_enabled Q s d \<and> sends_allowed Q (recipientOf Q d) rs ds"
| "q_guard Q s (SendPreSig p d) \<longleftrightarrow> p \<in> PARTIES Q \<and> d \<in> PARTIES Q \<and> sendPreSig_enabled Q s p d"
| "q_guard Q s (Key3Advance p) \<longleftrightarrow> p \<in> PARTIES Q \<and> key3Advance_enabled Q s p"
| "q_guard Q s (SendCoSig q d) \<longleftrightarrow> q \<in> PARTIES Q \<and> d \<in> PARTIES Q \<and> sendCoSig_enabled Q s q d"
| "q_guard Q s (SignInTxAdvance p) \<longleftrightarrow> p \<in> PARTIES Q \<and> signInTxAdvance_enabled Q s p"
| "q_guard Q s (Lock p) \<longleftrightarrow> p \<in> PARTIES Q \<and> lock_enabled Q s p"
| "q_guard Q s (AdvanceToClaim p) \<longleftrightarrow> p \<in> PARTIES Q \<and> advanceToClaim_enabled Q s p"
| "q_guard Q s (SendSecretTo p rs ds) \<longleftrightarrow>
     p \<in> PARTIES Q \<and> sendSecretTo_enabled Q s p \<and> sends_allowed Q p rs ds"
| "q_guard Q s Trigger \<longleftrightarrow> trigger_enabled Q s"
| "q_guard Q s (Claim p) \<longleftrightarrow> p \<in> PARTIES Q \<and> claim_enabled Q s p"
| "q_guard Q s (ConfirmClaim p) \<longleftrightarrow> p \<in> PARTIES Q \<and> confirmClaim_enabled Q s p"
| "q_guard Q s (ReorgClaim p) \<longleftrightarrow> p \<in> PARTIES Q \<and> reorgClaim_enabled Q s p"
| "q_guard Q s FinalizeClaims \<longleftrightarrow> finalizeClaims_enabled Q s"
| "q_guard Q s (RefundDeposit p) \<longleftrightarrow> p \<in> PARTIES Q \<and> refund_enabled s p"
| "q_guard Q s (WithholdLock p) \<longleftrightarrow> p \<in> PARTIES Q \<and> withholdLock_enabled Q s p"
| "q_guard Q s (WithholdClaim p) \<longleftrightarrow> p \<in> PARTIES Q \<and> withholdClaim_enabled Q s p"
| "q_guard Q s WithholdTrigger \<longleftrightarrow> withholdTrigger_enabled Q s"
| "q_guard Q s (OpenNextWindow d) \<longleftrightarrow>
     d \<in> PARTIES Q \<and> noOtherActionEnabled Q s \<and> d \<notin> openWindows s \<and>
     (\<forall>q\<in>PARTIES Q. WINDOWS Q q < WINDOWS Q d \<longrightarrow> q \<in> openWindows s)"

text \<open>The effect; what an action does not name it leaves unchanged.\<close>

fun q_effect :: "'p qparams \<Rightarrow> 'p qaction \<Rightarrow> 'p qstate \<Rightarrow> 'p qstate" where
  "q_effect Q (Config p) s = s\<lparr>phases := (phases s)(p := PhaseSetupAdaptorBroadcast)\<rparr>"
| "q_effect Q (SendAdaptorPointTo p rs ds) s = s\<lparr>adaptors := deliver p rs ds (adaptors s)\<rparr>"
| "q_effect Q (AdaptorBroadcastAdvance p) s = s\<lparr>phases := (phases s)(p := PhaseSetupKey1)\<rparr>"
| "q_effect Q (SendKeyTo p rs ds) s = s\<lparr>keys_sent := deliver p rs ds (keys_sent s)\<rparr>"
| "q_effect Q (Key1Advance p) s = s\<lparr>phases := (phases s)(p := PhaseSetupKey2)\<rparr>"
| "q_effect Q (SendNonceTo p rs ds) s = s\<lparr>nonces := deliver p rs ds (nonces s)\<rparr>"
| "q_effect Q (Key2Advance p) s = s\<lparr>phases := (phases s)(p := PhaseSetupKey3)\<rparr>"
| "q_effect Q (SendTAggTo d rs ds) s = s\<lparr>tAggs := deliver d rs ds (tAggs s)\<rparr>"
| "q_effect Q (SendPreSig p d) s = s\<lparr>preSigs := (preSigs s)(p := preSigs s p \<union> {d})\<rparr>"
| "q_effect Q (Key3Advance p) s = s\<lparr>phases := (phases s)(p := PhaseSetupSignInTx)\<rparr>"
| "q_effect Q (SendCoSig q d) s = s\<lparr>coSigs := (coSigs s)(q := coSigs s q \<union> {d})\<rparr>"
| "q_effect Q (SignInTxAdvance p) s = s\<lparr>phases := (phases s)(p := PhaseLock)\<rparr>"
| "q_effect Q (Lock p) s = s\<lparr>assets := (assets s)(p := Locked)\<rparr>"
| "q_effect Q (AdvanceToClaim p) s = s\<lparr>phases := (phases s)(p := PhaseClaim)\<rparr>"
| "q_effect Q (SendSecretTo p rs ds) s = s\<lparr>secrets := deliver p rs ds (secrets s)\<rparr>"
| "q_effect Q Trigger s = s\<lparr>assets := (assets s)(senderOf Q (LEADER Q) := PendingClaim (LEADER Q)),
     triggerBroadcast := True\<rparr>"
| "q_effect Q (Claim p) s = s\<lparr>assets := (assets s)(senderOf Q p := PendingClaim p)\<rparr>"
| "q_effect Q (ConfirmClaim p) s = s\<lparr>assets := (assets s)(senderOf Q p := ClaimedBy p),
     claimConfirmed := claimConfirmed s \<union> {p}\<rparr>"
| "q_effect Q (ReorgClaim p) s = s\<lparr>assets := (assets s)(senderOf Q p := Locked),
     reorgCount := (reorgCount s)(p := reorgCount s p + 1)\<rparr>"
| "q_effect Q FinalizeClaims s = s\<lparr>claimsFinalized := True\<rparr>"
| "q_effect Q (RefundDeposit p) s = s\<lparr>assets := (assets s)(p := RefundedTo p), refunded := refunded s \<union> {p}\<rparr>"
| "q_effect Q (WithholdLock p) s = s\<lparr>withheldLocks := withheldLocks s \<union> {p}\<rparr>"
| "q_effect Q (WithholdClaim p) s = s\<lparr>withheldClaims := withheldClaims s \<union> {p}\<rparr>"
| "q_effect Q WithholdTrigger s = s\<lparr>withheldTrigger := True\<rparr>"
| "q_effect Q (OpenNextWindow d) s = s\<lparr>openWindows := openWindows s \<union> {d}\<rparr>"

section \<open>Behaviours\<close>

definition q_step :: "'p qparams \<Rightarrow> 'p qstate \<Rightarrow> 'p qstate \<Rightarrow> bool" where
  "q_step Q s s' \<longleftrightarrow> (\<exists>a. q_guard Q s a \<and> s' = q_effect Q a s)"

inductive q_reachable :: "'p qparams \<Rightarrow> nat \<Rightarrow> 'p qstate \<Rightarrow> bool" for Q where
  start: "q_reachable Q 0 q_init"
| step: "q_reachable Q n s \<Longrightarrow> q_guard Q s a \<Longrightarrow> q_reachable Q (Suc n) (q_effect Q a s)"

text \<open>The actions that \<open>stepBy\<close> offers to a party; everything but the passing of time belongs to some party.\<close>

fun acts_for :: "'p qparams \<Rightarrow> 'p \<Rightarrow> 'p qaction \<Rightarrow> bool" where
  "acts_for Q p (SendTAggTo d rs ds) \<longleftrightarrow> recipientOf Q d = p"
| "acts_for Q p Trigger \<longleftrightarrow> p = LEADER Q"
| "acts_for Q p WithholdTrigger \<longleftrightarrow> p = LEADER Q"
| "acts_for Q p FinalizeClaims \<longleftrightarrow> True"
| "acts_for Q p (OpenNextWindow d) \<longleftrightarrow> False"
| "acts_for Q p (Config q) \<longleftrightarrow> q = p"
| "acts_for Q p (SendAdaptorPointTo q rs ds) \<longleftrightarrow> q = p"
| "acts_for Q p (AdaptorBroadcastAdvance q) \<longleftrightarrow> q = p"
| "acts_for Q p (SendKeyTo q rs ds) \<longleftrightarrow> q = p"
| "acts_for Q p (Key1Advance q) \<longleftrightarrow> q = p"
| "acts_for Q p (SendNonceTo q rs ds) \<longleftrightarrow> q = p"
| "acts_for Q p (Key2Advance q) \<longleftrightarrow> q = p"
| "acts_for Q p (SendPreSig q d) \<longleftrightarrow> q = p"
| "acts_for Q p (Key3Advance q) \<longleftrightarrow> q = p"
| "acts_for Q p (SendCoSig q d) \<longleftrightarrow> q = p"
| "acts_for Q p (SignInTxAdvance q) \<longleftrightarrow> q = p"
| "acts_for Q p (Lock q) \<longleftrightarrow> q = p"
| "acts_for Q p (AdvanceToClaim q) \<longleftrightarrow> q = p"
| "acts_for Q p (SendSecretTo q rs ds) \<longleftrightarrow> q = p"
| "acts_for Q p (Claim q) \<longleftrightarrow> q = p"
| "acts_for Q p (ConfirmClaim q) \<longleftrightarrow> q = p"
| "acts_for Q p (ReorgClaim q) \<longleftrightarrow> q = p"
| "acts_for Q p (RefundDeposit q) \<longleftrightarrow> q = p"
| "acts_for Q p (WithholdLock q) \<longleftrightarrow> q = p"
| "acts_for Q p (WithholdClaim q) \<longleftrightarrow> q = p"

definition stepBy :: "'p qparams \<Rightarrow> 'p \<Rightarrow> 'p qstate \<Rightarrow> 'p qstate \<Rightarrow> bool" where
  "stepBy Q p s s' \<longleftrightarrow> (\<exists>a. acts_for Q p a \<and> q_guard Q s a \<and> s' = q_effect Q a s)"

definition openNextWindow :: "'p qparams \<Rightarrow> 'p qstate \<Rightarrow> 'p qstate \<Rightarrow> bool" where
  "openNextWindow Q s s' \<longleftrightarrow> (\<exists>d. q_guard Q s (OpenNextWindow d) \<and> s' = q_effect Q (OpenNextWindow d) s)"

definition finalizeClaims :: "'p qparams \<Rightarrow> 'p qstate \<Rightarrow> 'p qstate \<Rightarrow> bool" where
  "finalizeClaims Q s s' \<longleftrightarrow> q_guard Q s FinalizeClaims \<and> s' = q_effect Q FinalizeClaims s"

text \<open>Behaviours may stutter; fairness speaks of the steps of an action that change the state.\<close>

type_synonym 'p behaviour = "nat \<Rightarrow> 'p qstate"

definition q_behaviour :: "'p qparams \<Rightarrow> 'p behaviour \<Rightarrow> bool" where
  "q_behaviour Q \<sigma> \<longleftrightarrow> \<sigma> 0 = q_init \<and> (\<forall>i. \<sigma> (Suc i) = \<sigma> i \<or> q_step Q (\<sigma> i) (\<sigma> (Suc i)))"

definition enabled_changing :: "('p qstate \<Rightarrow> 'p qstate \<Rightarrow> bool) \<Rightarrow> 'p qstate \<Rightarrow> bool" where
  "enabled_changing R s \<longleftrightarrow> (\<exists>s'. R s s' \<and> s' \<noteq> s)"

definition taken_at :: "('p qstate \<Rightarrow> 'p qstate \<Rightarrow> bool) \<Rightarrow> 'p behaviour \<Rightarrow> nat \<Rightarrow> bool" where
  "taken_at R \<sigma> i \<longleftrightarrow> R (\<sigma> i) (\<sigma> (Suc i)) \<and> \<sigma> (Suc i) \<noteq> \<sigma> i"

definition weakFair :: "('p qstate \<Rightarrow> 'p qstate \<Rightarrow> bool) \<Rightarrow> 'p behaviour \<Rightarrow> bool" where
  "weakFair R \<sigma> \<longleftrightarrow>
     ((\<exists>i. \<forall>j\<ge>i. enabled_changing R (\<sigma> j)) \<longrightarrow> (\<forall>i. \<exists>j\<ge>i. taken_at R \<sigma> j))"

definition strongFair :: "('p qstate \<Rightarrow> 'p qstate \<Rightarrow> bool) \<Rightarrow> 'p behaviour \<Rightarrow> bool" where
  "strongFair R \<sigma> \<longleftrightarrow>
     ((\<forall>i. \<exists>j\<ge>i. enabled_changing R (\<sigma> j)) \<longrightarrow> (\<forall>i. \<exists>j\<ge>i. taken_at R \<sigma> j))"

definition honestFairness :: "'p qparams \<Rightarrow> 'p behaviour \<Rightarrow> bool" where
  "honestFairness Q \<sigma> \<longleftrightarrow>
     (\<forall>p\<in>PARTIES Q. weakFair (stepBy Q p) \<sigma>) \<and> weakFair (openNextWindow Q) \<sigma> \<and>
     strongFair (finalizeClaims Q) \<sigma>"

definition honestSettled :: "'p qparams \<Rightarrow> 'p behaviour \<Rightarrow> bool" where
  "honestSettled Q \<sigma> \<longleftrightarrow>
     (honestFairness Q \<sigma> \<longrightarrow> (\<forall>p\<in>HONEST Q. \<exists>i. \<forall>j\<ge>i. assets (\<sigma> j) p \<noteq> Locked))"

definition atomicOutcome :: "'p qparams \<Rightarrow> 'p behaviour \<Rightarrow> bool" where
  "atomicOutcome Q \<sigma> \<longleftrightarrow>
     (honestFairness Q \<sigma> \<longrightarrow> (\<forall>p\<in>HONEST Q. \<exists>i. \<forall>j\<ge>i.
        (claimedByNext Q p (assets (\<sigma> j)) \<and> iClaimedIncoming Q p (assets (\<sigma> j))) \<or>
        assets (\<sigma> j) p = RefundedTo p \<or> assets (\<sigma> j) p = OwnedBy p))"

end
