(* ===== verification/Quint_Safety.thy ===== *)
theory Quint_Safety
  imports Quint_Model
begin

text \<open>
  The safety half of the Quint model, for any number of parties: its inductive invariant is one, and
  what it implies. The steps considered are those of the model and more: a refund window may open at any time.
\<close>

section \<open>The interface of the parameters\<close>

text \<open>What the lemmas need of the parameters: finitely many parties, the transfers a permutation of them. That the
  windows are ordered is not among it.\<close>

definition parameters_ok :: "'p qparams \<Rightarrow> bool" where
  "parameters_ok Q \<longleftrightarrow>
     finite (PARTIES Q) \<and> LEADER Q \<in> PARTIES Q \<and> HONEST Q \<subseteq> PARTIES Q \<and> 0 \<le> MAX_REORGS Q \<and>
     (\<forall>p\<in>PARTIES Q. senderOf Q p \<in> PARTIES Q \<and> recipientOf Q p \<in> PARTIES Q \<and>
        senderOf Q (recipientOf Q p) = p \<and> recipientOf Q (senderOf Q p) = p)"

locale protocol =
  fixes Q :: "'p qparams"
  assumes ok: "parameters_ok Q"
begin

lemma finite_parties [simp, intro]: "finite (PARTIES Q)"
  and leader_party [simp, intro]: "LEADER Q \<in> PARTIES Q"
  and honest_party: "p \<in> HONEST Q \<Longrightarrow> p \<in> PARTIES Q"
  and reorgs_pos [simp]: "0 \<le> MAX_REORGS Q"
  and sender_party [simp, intro]: "p \<in> PARTIES Q \<Longrightarrow> senderOf Q p \<in> PARTIES Q"
  and recipient_party [simp, intro]: "p \<in> PARTIES Q \<Longrightarrow> recipientOf Q p \<in> PARTIES Q"
  and sender_recipient [simp]: "p \<in> PARTIES Q \<Longrightarrow> senderOf Q (recipientOf Q p) = p"
  and recipient_sender [simp]: "p \<in> PARTIES Q \<Longrightarrow> recipientOf Q (senderOf Q p) = p"
  using ok by (auto simp: parameters_ok_def)

lemma sender_inj: "p \<in> PARTIES Q \<Longrightarrow> q \<in> PARTIES Q \<Longrightarrow> senderOf Q p = senderOf Q q \<longleftrightarrow> p = q"
  by (metis recipient_sender)

end

lemma three_parties: "parameters_ok qnt_parameters"
  by (auto simp: parameters_ok_def qnt_parameters_def senderOf_def recipientOf_def)

interpretation three: protocol qnt_parameters
  by unfold_locales (rule three_parties)

section \<open>The invariants\<close>

definition typeInv :: "'p qparams \<Rightarrow> 'p qstate \<Rightarrow> bool" where
  "typeInv Q s \<longleftrightarrow>
     (\<forall>p\<in>PARTIES Q.
        assets s p \<in> OwnedBy ` PARTIES Q \<union> {Locked} \<union> PendingClaim ` PARTIES Q \<union> ClaimedBy ` PARTIES Q \<union>
          RefundedTo ` PARTIES Q \<and>
        (\<forall>m\<in>{adaptors s, keys_sent s, nonces s, tAggs s, secrets s}.
           receivedAt m p \<subseteq> PARTIES Q \<and> equivocatedAt m p \<subseteq> PARTIES Q) \<and>
        preSigs s p \<subseteq> PARTIES Q \<and> coSigs s p \<subseteq> PARTIES Q \<and>
        0 \<le> reorgCount s p \<and> reorgCount s p \<le> MAX_REORGS Q) \<and>
     (\<forall>m\<in>{adaptors s, keys_sent s, nonces s, tAggs s, secrets s}. decidedBy m \<subseteq> PARTIES Q) \<and>
     openWindows s \<subseteq> PARTIES Q \<and> refunded s \<subseteq> PARTIES Q \<and> claimConfirmed s \<subseteq> PARTIES Q \<and>
     withheldLocks s \<subseteq> PARTIES Q \<and> withheldClaims s \<subseteq> PARTIES Q"

definition invAtomicity :: "'p qparams \<Rightarrow> 'p qstate \<Rightarrow> bool" where
  "invAtomicity Q s \<longleftrightarrow> \<not> (anyClaimed Q s \<and> anyRefunded Q s)"

definition invSetupMonotone :: "'p qparams \<Rightarrow> 'p qstate \<Rightarrow> bool" where
  "invSetupMonotone Q s \<longleftrightarrow> (\<forall>p\<in>PARTIES Q. let ph = phases s p in
     (phaseAtLeast ph PhaseSetupKey1 \<longrightarrow> allPresentFor Q p (adaptors s)) \<and>
     (phaseAtLeast ph PhaseSetupKey2 \<longrightarrow> allPresentFor Q p (keys_sent s)) \<and>
     (phaseAtLeast ph PhaseSetupKey3 \<longrightarrow> allPresentFor Q p (nonces s)) \<and>
     (phaseAtLeast ph PhaseSetupSignInTx \<longrightarrow> roundDoneFor Q p (preSigs s)) \<and>
     (phaseAtLeast ph PhaseLock \<longrightarrow> roundDoneFor Q p (coSigs s)))"

definition invHonestNoLoss :: "'p qparams \<Rightarrow> 'p qstate \<Rightarrow> bool" where
  "invHonestNoLoss Q s \<longleftrightarrow> (\<forall>p\<in>HONEST Q.
     let depositStatus = assets s p; claimStatus = assets s (senderOf Q p) in
     depositStatus = Locked \<or> depositStatus = OwnedBy p \<or> depositStatus = RefundedTo p \<or>
     depositStatus = PendingClaim (recipientOf Q p) \<or> claimStatus = ClaimedBy p \<or>
     claimStatus = PendingClaim p \<or> (claimStatus = Locked \<and> senderOf Q p \<notin> openWindows s))"

definition invSendImpliesPhase :: "'p qparams \<Rightarrow> 'p qstate \<Rightarrow> bool" where
  "invSendImpliesPhase Q s \<longleftrightarrow> (\<forall>q\<in>PARTIES Q.
     (q \<in> decidedBy (keys_sent s) \<longrightarrow> phaseAtLeast (phases s q) PhaseSetupKey1) \<and>
     (q \<in> decidedBy (nonces s) \<longrightarrow> phaseAtLeast (phases s q) PhaseSetupKey2) \<and>
     (preSigs s q \<noteq> {} \<longrightarrow> phaseAtLeast (phases s q) PhaseSetupKey3) \<and>
     (coSigs s q \<noteq> {} \<longrightarrow> phaseAtLeast (phases s q) PhaseSetupSignInTx) \<and>
     (q \<in> decidedBy (secrets s) \<longrightarrow> phaseAtLeast (phases s q) PhaseClaim)) \<and>
   (\<forall>d\<in>PARTIES Q. d \<in> decidedBy (tAggs s) \<longrightarrow> phaseAtLeast (phases s (recipientOf Q d)) PhaseSetupKey3)"

definition invPreSigImpliesTAgg :: "'p qparams \<Rightarrow> 'p qstate \<Rightarrow> bool" where
  "invPreSigImpliesTAgg Q s \<longleftrightarrow> (\<forall>p\<in>PARTIES Q. preSigs s p \<subseteq> receivedAt (tAggs s) p)"

definition invInboxDecided :: "'p qparams \<Rightarrow> 'p qstate \<Rightarrow> bool" where
  "invInboxDecided Q s \<longleftrightarrow> (\<forall>r\<in>PARTIES Q.
     receivedAt (adaptors s) r \<subseteq> decidedBy (adaptors s) \<and>
     receivedAt (keys_sent s) r \<subseteq> decidedBy (keys_sent s) \<and>
     receivedAt (nonces s) r \<subseteq> decidedBy (nonces s) \<and>
     receivedAt (tAggs s) r \<subseteq> decidedBy (tAggs s) \<and>
     receivedAt (secrets s) r \<subseteq> decidedBy (secrets s))"

definition invEquivocatedInInbox :: "'p qparams \<Rightarrow> 'p qstate \<Rightarrow> bool" where
  "invEquivocatedInInbox Q s \<longleftrightarrow> (\<forall>r\<in>PARTIES Q.
     equivocatedAt (adaptors s) r \<subseteq> receivedAt (adaptors s) r \<and>
     equivocatedAt (keys_sent s) r \<subseteq> receivedAt (keys_sent s) r \<and>
     equivocatedAt (nonces s) r \<subseteq> receivedAt (nonces s) r \<and>
     equivocatedAt (tAggs s) r \<subseteq> receivedAt (tAggs s) r \<and>
     equivocatedAt (secrets s) r \<subseteq> receivedAt (secrets s) r)"

definition invNoEquivocationAtAdvance :: "'p qparams \<Rightarrow> 'p qstate \<Rightarrow> bool" where
  "invNoEquivocationAtAdvance Q s \<longleftrightarrow> (\<forall>p\<in>PARTIES Q. p \<in> HONEST Q \<longrightarrow>
     (phaseAtLeast (phases s p) PhaseSetupKey1 \<longrightarrow> equivocatedAt (adaptors s) p = {}) \<and>
     (phaseAtLeast (phases s p) PhaseSetupKey2 \<longrightarrow> equivocatedAt (keys_sent s) p = {}) \<and>
     (phaseAtLeast (phases s p) PhaseSetupKey3 \<longrightarrow> equivocatedAt (nonces s) p = {}) \<and>
     (phaseAtLeast (phases s p) PhaseSetupSignInTx \<longrightarrow> equivocatedAt (tAggs s) p = {}))"

definition invNoSecretEquivAtTrigger :: "'p qparams \<Rightarrow> 'p qstate \<Rightarrow> bool" where
  "invNoSecretEquivAtTrigger Q s \<longleftrightarrow>
     (triggerBroadcast s \<and> LEADER Q \<in> HONEST Q \<longrightarrow> equivocatedAt (secrets s) (LEADER Q) = {})"

text \<open>The further conjuncts of the two inductive invariants, with their labels in the source.\<close>

definition assetCoherence :: "'p qparams \<Rightarrow> 'p qstate \<Rightarrow> bool" where  \<comment> \<open>C1\<close>
  "assetCoherence Q s \<longleftrightarrow> (\<forall>p\<in>PARTIES Q. case assets s p of
       OwnedBy q \<Rightarrow> q = p
     | Locked \<Rightarrow> phaseAtLeast (phases s p) PhaseLock
     | PendingClaim q \<Rightarrow> q = recipientOf Q p \<and> triggerBroadcast s \<and>
         phaseAtLeast (phases s p) PhaseLock \<and> phaseAtLeast (phases s q) PhaseClaim
     | ClaimedBy q \<Rightarrow> q = recipientOf Q p \<and> triggerBroadcast s \<and> claimsFinalized s \<and>
         q \<in> claimConfirmed s \<and> phaseAtLeast (phases s p) PhaseLock
     | RefundedTo q \<Rightarrow> q = p \<and> p \<in> refunded s \<and> p \<in> openWindows s)"

definition flagCoherence :: "'p qparams \<Rightarrow> 'p qstate \<Rightarrow> bool" where  \<comment> \<open>C2\<close>
  "flagCoherence Q s \<longleftrightarrow>
     (\<forall>p\<in>PARTIES Q. p \<in> refunded s \<longrightarrow> assets s p = RefundedTo p) \<and>
     (\<forall>p\<in>PARTIES Q. p \<in> claimConfirmed s \<longrightarrow>
        (case assets s (senderOf Q p) of ClaimedBy q \<Rightarrow> q = p | _ \<Rightarrow> False))"

definition claimAfterLocks :: "'p qparams \<Rightarrow> 'p qstate \<Rightarrow> bool" where  \<comment> \<open>T1\<close>
  "claimAfterLocks Q s \<longleftrightarrow>
     ((\<exists>p\<in>PARTIES Q. phases s p = PhaseClaim \<or> p \<in> claimConfirmed s) \<longrightarrow>
      (\<forall>q\<in>PARTIES Q. assets s q \<noteq> OwnedBy q))"

definition triggerAfterLocks :: "'p qparams \<Rightarrow> 'p qstate \<Rightarrow> bool" where  \<comment> \<open>T1'\<close>
  "triggerAfterLocks Q s \<longleftrightarrow> (triggerBroadcast s \<longrightarrow> (\<forall>q\<in>PARTIES Q. assets s q \<noteq> OwnedBy q))"

definition finalizedAfterClaims :: "'p qparams \<Rightarrow> 'p qstate \<Rightarrow> bool" where  \<comment> \<open>X+\<close>
  "finalizedAfterClaims Q s \<longleftrightarrow> (claimsFinalized s \<longrightarrow> honestClaimsDone Q s)"

definition triggerAfterSecrets :: "'p qparams \<Rightarrow> 'p qstate \<Rightarrow> bool" where  \<comment> \<open>S\<close>
  "triggerAfterSecrets Q s \<longleftrightarrow>
     (triggerBroadcast s \<longrightarrow> (\<forall>p\<in>PARTIES Q - {LEADER Q}. p \<in> receivedAt (secrets s) (LEADER Q)))"

definition refundExcludesFinal :: "'p qparams \<Rightarrow> 'p qstate \<Rightarrow> bool" where  \<comment> \<open>X\<close>
  "refundExcludesFinal Q s \<longleftrightarrow>
     (anyRefunded Q s \<longrightarrow> \<not> claimsFinalized s) \<and> (claimsFinalized s \<longrightarrow> \<not> anyRefunded Q s)"

definition invStructure :: "'p qparams \<Rightarrow> 'p qstate \<Rightarrow> bool" where
  "invStructure Q s \<longleftrightarrow>
     typeInv Q s \<and> invSetupMonotone Q s \<and> invSendImpliesPhase Q s \<and> invPreSigImpliesTAgg Q s \<and>
     invInboxDecided Q s \<and> invEquivocatedInInbox Q s \<and> invNoEquivocationAtAdvance Q s \<and>
     invNoSecretEquivAtTrigger Q s \<and> assetCoherence Q s \<and> flagCoherence Q s \<and> claimAfterLocks Q s \<and>
     triggerAfterLocks Q s \<and> finalizedAfterClaims Q s \<and> triggerAfterSecrets Q s"

definition invHonestNoLossInductive :: "'p qparams \<Rightarrow> 'p qstate \<Rightarrow> bool" where
  "invHonestNoLossInductive Q s \<longleftrightarrow> invHonestNoLoss Q s \<and> invStructure Q s"

definition invAtomicityInductive :: "'p qparams \<Rightarrow> 'p qstate \<Rightarrow> bool" where
  "invAtomicityInductive Q s \<longleftrightarrow> invAtomicity Q s \<and> invStructure Q s \<and> refundExcludesFinal Q s"

lemma coherent:
  assumes "assetCoherence Q s" and "p \<in> PARTIES Q"
  shows "assets s p = OwnedBy q \<Longrightarrow> q = p"
    and "assets s p = Locked \<Longrightarrow> phaseAtLeast (phases s p) PhaseLock"
    and "assets s p = PendingClaim q \<Longrightarrow> q = recipientOf Q p \<and> triggerBroadcast s \<and>
      phaseAtLeast (phases s p) PhaseLock \<and> phaseAtLeast (phases s q) PhaseClaim"
    and "assets s p = ClaimedBy q \<Longrightarrow> q = recipientOf Q p \<and> triggerBroadcast s \<and> claimsFinalized s \<and>
      q \<in> claimConfirmed s \<and> phaseAtLeast (phases s p) PhaseLock"
    and "assets s p = RefundedTo q \<Longrightarrow> q = p \<and> p \<in> refunded s \<and> p \<in> openWindows s"
  using assms by (force simp: assetCoherence_def)+

text \<open>An asset that is on its way to its claimant.\<close>

lemma claims_done_iff: "honestClaimsDone Q s \<longleftrightarrow>
    (\<forall>p\<in>HONEST Q. \<exists>q. assets s (senderOf Q p) = PendingClaim q \<or> assets s (senderOf Q p) = ClaimedBy q)"
  and any_claimed_iff: "anyClaimed Q s \<longleftrightarrow> (\<exists>p\<in>PARTIES Q. \<exists>q. assets s p = ClaimedBy q)"
  and any_refunded_iff: "anyRefunded Q s \<longleftrightarrow> (\<exists>p\<in>PARTIES Q. \<exists>q. assets s p = RefundedTo q)"
  unfolding honestClaimsDone_def anyClaimed_def anyRefunded_def
  by (intro ball_cong bex_cong refl; simp split: asset_status.split)+

section \<open>Steps with a free clock\<close>

definition untimed_guard :: "'p qparams \<Rightarrow> 'p qstate \<Rightarrow> 'p qaction \<Rightarrow> bool" where
  "untimed_guard Q s a = (case a of OpenNextWindow d \<Rightarrow> d \<in> PARTIES Q | _ \<Rightarrow> q_guard Q s a)"

inductive untimed_reachable :: "'p qparams \<Rightarrow> 'p qstate \<Rightarrow> bool" for Q where
  start: "untimed_reachable Q q_init"
| step: "untimed_reachable Q s \<Longrightarrow> untimed_guard Q s a \<Longrightarrow> untimed_reachable Q (q_effect Q a s)"

lemma guard_untimed: "q_guard Q s a \<Longrightarrow> untimed_guard Q s a"
  by (cases a) (simp_all add: untimed_guard_def)

lemma reachable_untimed: "q_reachable Q n s \<Longrightarrow> untimed_reachable Q s"
  by (induction rule: q_reachable.induct) (auto intro: untimed_reachable.intros guard_untimed)

lemmas q_enabled_defs = config_enabled_def sendAdaptorPointTo_enabled_def adaptorBroadcastAdvance_enabled_def
  sendKeyTo_enabled_def key1Advance_enabled_def sendNonceTo_enabled_def key2Advance_enabled_def
  sendTAggTo_enabled_def sendPreSig_enabled_def key3Advance_enabled_def sendCoSig_enabled_def
  signInTxAdvance_enabled_def lock_enabled_def advanceToClaim_enabled_def sendSecretTo_enabled_def
  trigger_enabled_def claim_enabled_def confirmClaim_enabled_def reorgClaim_enabled_def
  finalizeClaims_enabled_def refund_enabled_def withholdLock_enabled_def withholdClaim_enabled_def
  withholdTrigger_enabled_def

lemmas q_facts = q_enabled_defs untimed_guard_def deliver_def sends_allowed_def allPresentFor_def
  noEquivocationAt_def phaseAtLeast_def

context protocol
begin

lemma typeInv_step: "typeInv Q s \<Longrightarrow> untimed_guard Q s a \<Longrightarrow> typeInv Q (q_effect Q a s)"
  by (cases a) (auto simp: typeInv_def q_facts)

lemma setup_step: "invSetupMonotone Q s \<Longrightarrow> typeInv Q s \<Longrightarrow> untimed_guard Q s a \<Longrightarrow> invSetupMonotone Q (q_effect Q a s)"
  by (cases a) (auto simp: invSetupMonotone_def typeInv_def roundDoneFor_def Let_def q_facts)

lemma send_step: "invSendImpliesPhase Q s \<Longrightarrow> untimed_guard Q s a \<Longrightarrow> invSendImpliesPhase Q (q_effect Q a s)"
  by (cases a) (auto simp: invSendImpliesPhase_def q_facts)

lemma presig_step: "invPreSigImpliesTAgg Q s \<Longrightarrow> untimed_guard Q s a \<Longrightarrow> invPreSigImpliesTAgg Q (q_effect Q a s)"
  by (cases a) (auto simp: invPreSigImpliesTAgg_def q_facts)

lemma inbox_step: "invInboxDecided Q s \<Longrightarrow> untimed_guard Q s a \<Longrightarrow> invInboxDecided Q (q_effect Q a s)"
  by (cases a) (auto simp: invInboxDecided_def q_facts)

lemma equivocated_step: "invEquivocatedInInbox Q s \<Longrightarrow> untimed_guard Q s a \<Longrightarrow> invEquivocatedInInbox Q (q_effect Q a s)"
  by (cases a) (auto simp: invEquivocatedInInbox_def q_facts)

lemma all_decided:
  assumes "invInboxDecided Q s" and "typeInv Q s" and "r \<in> PARTIES Q"
  shows "receivedAt (adaptors s) r = PARTIES Q \<Longrightarrow> decidedBy (adaptors s) = PARTIES Q"
    "receivedAt (keys_sent s) r = PARTIES Q \<Longrightarrow> decidedBy (keys_sent s) = PARTIES Q"
    "receivedAt (nonces s) r = PARTIES Q \<Longrightarrow> decidedBy (nonces s) = PARTIES Q"
    "PARTIES Q \<subseteq> receivedAt (tAggs s) r \<Longrightarrow> decidedBy (tAggs s) = PARTIES Q"
  using assms by (auto simp: invInboxDecided_def typeInv_def)

lemma phase_decided:
  assumes "invSetupMonotone Q s" and "invInboxDecided Q s" and "typeInv Q s" and "r \<in> PARTIES Q"
  shows "2 \<le> phaseRank (phases s r) \<Longrightarrow> decidedBy (adaptors s) = PARTIES Q"
    "3 \<le> phaseRank (phases s r) \<Longrightarrow> decidedBy (keys_sent s) = PARTIES Q"
    "4 \<le> phaseRank (phases s r) \<Longrightarrow> decidedBy (nonces s) = PARTIES Q"
  using assms(1,4) all_decided [OF assms(2-4)]
  by (auto simp: invSetupMonotone_def phaseAtLeast_def allPresentFor_def Let_def)

lemma phase_tAggs_decided:
  assumes "invSetupMonotone Q s" and "invInboxDecided Q s" and "typeInv Q s" and "invPreSigImpliesTAgg Q s"
    and "r \<in> PARTIES Q" and "5 \<le> phaseRank (phases s r)"
  shows "decidedBy (tAggs s) = PARTIES Q"
proof -
  have "PARTIES Q \<subseteq> preSigs s r"
    using assms(1,5,6) by (auto simp: invSetupMonotone_def phaseAtLeast_def roundDoneFor_def Let_def)
  also have "\<dots> \<subseteq> receivedAt (tAggs s) r" using assms(4,5) by (auto simp: invPreSigImpliesTAgg_def)
  finally show ?thesis by (rule all_decided(4) [OF assms(2,3,5)])
qed

lemma advance_step:
  assumes "invNoEquivocationAtAdvance Q s" and "invSetupMonotone Q s" and "invInboxDecided Q s" and "typeInv Q s"
    and "invPreSigImpliesTAgg Q s" and "untimed_guard Q s a"
  shows "invNoEquivocationAtAdvance Q (q_effect Q a s)"
  using assms(1,6) phase_decided [OF assms(2-4)] phase_tAggs_decided [OF assms(2-5)]
  by (cases a) (auto simp: invNoEquivocationAtAdvance_def q_facts split: if_splits)

lemma secretEquiv_step:
  assumes "invNoSecretEquivAtTrigger Q s" and "triggerAfterSecrets Q s" and "invInboxDecided Q s"
    and "untimed_guard Q s a"
  shows "invNoSecretEquivAtTrigger Q (q_effect Q a s)"
proof -
  have "triggerBroadcast s \<Longrightarrow> p \<in> PARTIES Q \<Longrightarrow> p \<noteq> LEADER Q \<Longrightarrow> p \<in> decidedBy (secrets s)" for p
    using assms(2,3) leader_party by (auto simp: triggerAfterSecrets_def invInboxDecided_def)
  then show ?thesis using assms(1,4) by (cases a) (auto simp: invNoSecretEquivAtTrigger_def q_facts)
qed

lemma secrets_step: "triggerAfterSecrets Q s \<Longrightarrow> untimed_guard Q s a \<Longrightarrow> triggerAfterSecrets Q (q_effect Q a s)"
  by (cases a) (auto simp: triggerAfterSecrets_def q_facts)

lemma claim_locks_step:
  assumes "claimAfterLocks Q s" and "triggerAfterLocks Q s" and "assetCoherence Q s" and "untimed_guard Q s a"
  shows "claimAfterLocks Q (q_effect Q a s)"
proof -
  have "p \<in> PARTIES Q \<Longrightarrow> assets s (senderOf Q p) = PendingClaim p \<Longrightarrow> triggerBroadcast s" for p
    using coherent(3) [OF assms(3) sender_party] by blast
  then show ?thesis
    using assms(1,2,4) by (cases a) (auto simp: claimAfterLocks_def triggerAfterLocks_def allLocked_def q_facts)
qed

lemma trigger_locks_step:
  assumes "triggerAfterLocks Q s" and "claimAfterLocks Q s" and "untimed_guard Q s a"
  shows "triggerAfterLocks Q (q_effect Q a s)"
  using assms by (cases a) (auto simp: triggerAfterLocks_def claimAfterLocks_def q_facts)

lemma flags_step:
  assumes "flagCoherence Q s" and "assetCoherence Q s" and "untimed_guard Q s a"
  shows "flagCoherence Q (q_effect Q a s)"
  using assms by (cases a) (auto simp: flagCoherence_def sender_inj q_facts split: asset_status.splits)

lemma asset_step:
  assumes "assetCoherence Q s" and "untimed_guard Q s a"
  shows "assetCoherence Q (q_effect Q a s)"
  using assms by (cases a) (auto simp: assetCoherence_def q_facts split: asset_status.splits)

lemma final_step:
  assumes "finalizedAfterClaims Q s" and "untimed_guard Q s a"
  shows "finalizedAfterClaims Q (q_effect Q a s)"
  using assms by (cases a) (auto simp: finalizedAfterClaims_def honestClaimsDone_def q_facts split: asset_status.splits)

lemma structure_init: "invStructure Q q_init"
  by (auto simp: invStructure_def typeInv_def invSetupMonotone_def invSendImpliesPhase_def
      invPreSigImpliesTAgg_def invInboxDecided_def invEquivocatedInInbox_def invNoEquivocationAtAdvance_def
      invNoSecretEquivAtTrigger_def assetCoherence_def flagCoherence_def claimAfterLocks_def
      triggerAfterLocks_def finalizedAfterClaims_def triggerAfterSecrets_def phaseAtLeast_def q_init_def
      emptyInbox_def)

lemma structure_step: "invStructure Q s \<Longrightarrow> untimed_guard Q s a \<Longrightarrow> invStructure Q (q_effect Q a s)"
  unfolding invStructure_def
  by (intro conjI typeInv_step setup_step send_step presig_step inbox_step equivocated_step advance_step
      secretEquiv_step asset_step flags_step claim_locks_step trigger_locks_step final_step secrets_step) simp_all

lemma structure_reachable: "untimed_reachable Q s \<Longrightarrow> invStructure Q s"
  by (induction rule: untimed_reachable.induct) (simp_all add: structure_init structure_step)

text \<open>Honest parties do not lose in any state in which assets are coherent and finality waits for the
  honest claims; neither the refund windows nor their order play a part.\<close>

lemma no_loss:
  assumes "assetCoherence Q s" and "finalizedAfterClaims Q s"
  shows "invHonestNoLoss Q s"
  unfolding invHonestNoLoss_def Let_def
proof
  fix p
  assume p: "p \<in> HONEST Q"
  then have p': "p \<in> PARTIES Q" by (rule honest_party)
  show "assets s p = Locked \<or> assets s p = OwnedBy p \<or> assets s p = RefundedTo p \<or>
      assets s p = PendingClaim (recipientOf Q p) \<or> assets s (senderOf Q p) = ClaimedBy p \<or>
      assets s (senderOf Q p) = PendingClaim p \<or>
      assets s (senderOf Q p) = Locked \<and> senderOf Q p \<notin> openWindows s"
  proof (cases "assets s p")
    case (ClaimedBy q)
    then have "claimsFinalized s" using coherent(4) [OF assms(1) p'] by blast
    then obtain r where "assets s (senderOf Q p) = PendingClaim r \<or> assets s (senderOf Q p) = ClaimedBy r"
      using assms(2) p by (auto simp: finalizedAfterClaims_def claims_done_iff)
    then show ?thesis using coherent(3,4) [OF assms(1) sender_party [OF p']] p' by auto
  qed (use coherent [OF assms(1) p'] in auto)
qed

lemma no_loss_init: "invHonestNoLossInductive Q q_init"
  and no_loss_step: "invHonestNoLossInductive Q s \<Longrightarrow> untimed_guard Q s a \<Longrightarrow> invHonestNoLossInductive Q (q_effect Q a s)"
  using structure_init structure_step [of s a] no_loss
  unfolding invHonestNoLossInductive_def invStructure_def by blast+

text \<open>When all are honest, finality needs every deposit claimed or about to be, so nothing is refunded then.\<close>

lemma atomicity_init: "invAtomicityInductive Q q_init"
proof -
  have "assets q_init p = OwnedBy p" for p :: 'p by (simp add: q_init_def)
  then show ?thesis
    by (simp add: invAtomicityInductive_def structure_init invAtomicity_def refundExcludesFinal_def
        any_claimed_iff any_refunded_iff)
qed

lemma final_no_refund:
  assumes "HONEST Q = PARTIES Q" and "finalizedAfterClaims Q s" and "claimsFinalized s"
  shows "\<not> anyRefunded Q s"
proof -
  have "\<exists>r. assets s q = PendingClaim r \<or> assets s q = ClaimedBy r" if "q \<in> PARTIES Q" for q
    using assms recipient_party [OF that] sender_recipient [OF that]
    unfolding finalizedAfterClaims_def claims_done_iff by metis
  then show ?thesis by (fastforce simp: any_refunded_iff)
qed

lemma atomicity_from_structure:
  assumes "HONEST Q = PARTIES Q" and "invStructure Q s"
  shows "invAtomicityInductive Q s"
proof -
  have i: "assetCoherence Q s" "finalizedAfterClaims Q s" using assms(2) by (simp_all add: invStructure_def)
  have "anyClaimed Q s \<Longrightarrow> claimsFinalized s"
    using coherent(4) [OF i(1)] by (auto simp: any_claimed_iff)
  then show ?thesis
    using assms(2) final_no_refund [OF assms(1) i(2)]
    by (auto simp: invAtomicityInductive_def invAtomicity_def refundExcludesFinal_def)
qed

end

end
