(* ===== verification/Quint_Runs.thy ===== *)
theory Quint_Runs
  imports Quint_Safety
begin

text \<open>
  The liveness half of the Quint model, for any number of parties: every action uses up something, so that every run
  ends; what holds in a state in which nothing is enabled; and that a fair behaviour comes to rest in such a state.
\<close>

section \<open>What is left to do\<close>

text \<open>The amounts are integers so that each action's share is a plain equation.\<close>

definition absent :: "'p qparams \<Rightarrow> 'p set \<Rightarrow> int" where
  "absent Q D = int (card (PARTIES Q - D))"

definition phases_left :: "'p qparams \<Rightarrow> ('p \<Rightarrow> qphase) \<Rightarrow> int" where
  "phases_left Q f = (\<Sum>p\<in>PARTIES Q. 7 - int (phaseRank (f p)))"

definition unsigned :: "'p qparams \<Rightarrow> ('p \<Rightarrow> 'p set) \<Rightarrow> int" where
  "unsigned Q f = (\<Sum>p\<in>PARTIES Q. absent Q (f p))"

fun asset_left :: "'p asset_status \<Rightarrow> int" where
  "asset_left (OwnedBy p) = 3"
| "asset_left Locked = 2"
| "asset_left (PendingClaim p) = 1"
| "asset_left (ClaimedBy p) = 0"
| "asset_left (RefundedTo p) = 0"

definition assets_left :: "'p qparams \<Rightarrow> ('p \<Rightarrow> 'p asset_status) \<Rightarrow> int" where
  "assets_left Q f = (\<Sum>p\<in>PARTIES Q. asset_left (f p))"

definition reorgs_left :: "'p qparams \<Rightarrow> ('p \<Rightarrow> int) \<Rightarrow> int" where
  "reorgs_left Q f = (\<Sum>p\<in>PARTIES Q. MAX_REORGS Q - f p)"

definition setup_left :: "'p qparams \<Rightarrow> 'p qstate \<Rightarrow> int" where
  "setup_left Q s = phases_left Q (phases s) + absent Q (decidedBy (adaptors s)) +
     absent Q (decidedBy (keys_sent s)) + absent Q (decidedBy (nonces s)) + absent Q (decidedBy (tAggs s)) +
     unsigned Q (preSigs s) + unsigned Q (coSigs s)"

definition settling_left :: "'p qparams \<Rightarrow> 'p qstate \<Rightarrow> int" where
  "settling_left Q s = absent Q (decidedBy (secrets s)) + assets_left Q (assets s) +
     2 * reorgs_left Q (reorgCount s) + absent Q (openWindows s) + absent Q (withheldLocks s) +
     absent Q (withheldClaims s) + of_bool (\<not> triggerBroadcast s) + of_bool (\<not> claimsFinalized s) +
     of_bool (\<not> withheldTrigger s)"

definition work_left :: "'p qparams \<Rightarrow> 'p qstate \<Rightarrow> nat" where
  "work_left Q s = nat (setup_left Q s + settling_left Q s)"

context protocol
begin

lemma sum_update:
  fixes h :: "'a \<Rightarrow> int"
  shows "p \<in> PARTIES Q \<Longrightarrow> (\<Sum>x\<in>PARTIES Q. h ((f(p := v)) x)) = (\<Sum>x\<in>PARTIES Q. h (f x)) - h (f p) + h v"
  by (simp add: sum.remove [OF finite_parties, of p])

lemma left_update:
  "p \<in> PARTIES Q \<Longrightarrow> phases_left Q (f(p := x)) = phases_left Q f + int (phaseRank (f p)) - int (phaseRank x)"
  "p \<in> PARTIES Q \<Longrightarrow> unsigned Q (m(p := D)) = unsigned Q m - absent Q (m p) + absent Q D"
  "p \<in> PARTIES Q \<Longrightarrow> assets_left Q (g(p := y)) = assets_left Q g - asset_left (g p) + asset_left y"
  "p \<in> PARTIES Q \<Longrightarrow> reorgs_left Q (c(p := n)) = reorgs_left Q c + c p - n"
  by (simp_all add: phases_left_def unsigned_def assets_left_def reorgs_left_def
      sum_update [where h = "\<lambda>x. 7 - int (phaseRank x)"] sum_update [where h = "absent Q"]
      sum_update [where h = asset_left] sum_update [where h = "\<lambda>x. MAX_REORGS Q - x"] del: fun_upd_apply)

lemma absent_insert: "p \<in> PARTIES Q \<Longrightarrow> p \<notin> D \<Longrightarrow> absent Q (insert p D) = absent Q D - 1"
  using card_Suc_Diff1 [of "PARTIES Q - D" p] by (auto simp: absent_def Diff_insert2 [symmetric] insert_Diff_if)

lemma left_nonneg:
  "0 \<le> phases_left Q f" "0 \<le> absent Q D" "0 \<le> unsigned Q m" "0 \<le> assets_left Q g"
proof -
  have "phaseRank x \<le> 7" for x by (cases x) simp_all
  then have "int (phaseRank x) \<le> 7" for x by (metis of_nat_le_iff of_nat_numeral)
  then show "0 \<le> phases_left Q f" by (simp add: phases_left_def sum_nonneg)
  show "0 \<le> absent Q D" "0 \<le> unsigned Q m" by (simp_all add: unsigned_def absent_def sum_nonneg)
  have "0 \<le> asset_left x" for x :: "'p asset_status" by (cases x) simp_all
  then show "0 \<le> assets_left Q g" by (simp add: assets_left_def sum_nonneg)
qed

lemma work_nonneg: "typeInv Q s \<Longrightarrow> 0 \<le> setup_left Q s + settling_left Q s"
proof -
  assume "typeInv Q s"
  then have "0 \<le> reorgs_left Q (reorgCount s)" by (simp add: reorgs_left_def typeInv_def sum_nonneg)
  then show ?thesis by (simp add: setup_left_def settling_left_def left_nonneg)
qed

lemma work_decreases: "q_guard Q s a \<Longrightarrow>
   setup_left Q (q_effect Q a s) + settling_left Q (q_effect Q a s) < setup_left Q s + settling_left Q s"
  by (cases a) (simp_all add: setup_left_def settling_left_def q_enabled_defs deliver_def left_update absent_insert
      del: fun_upd_apply)

lemma setup_decreases_by_one: "q_guard Q s a \<Longrightarrow> setup_left Q s \<le> setup_left Q (q_effect Q a s) + 1"
  by (cases a) (simp_all add: setup_left_def q_enabled_defs deliver_def left_update absent_insert
      del: fun_upd_apply)

lemma work_step: "typeInv Q s \<Longrightarrow> q_guard Q s a \<Longrightarrow> work_left Q (q_effect Q a s) < work_left Q s"
  using work_decreases [of s a] work_nonneg [OF typeInv_step [OF _ guard_untimed], of s a]
  by (simp add: work_left_def)

lemma step_changes: "q_guard Q s a \<Longrightarrow> q_effect Q a s \<noteq> s"
  using work_decreases [of s a] by auto

lemma work_init: "work_left Q q_init =
    2 * card (PARTIES Q) ^ 2 + 18 * card (PARTIES Q) + 2 * nat (MAX_REORGS Q) * card (PARTIES Q) + 3"
proof -
  let ?n = "int (card (PARTIES Q))"
  have "setup_left Q q_init + settling_left Q q_init = 2 * (?n * ?n) + 18 * ?n + 2 * (MAX_REORGS Q * ?n) + 3"
    by (simp add: setup_left_def settling_left_def q_init_def emptyInbox_def phases_left_def absent_def
        unsigned_def assets_left_def reorgs_left_def algebra_simps)
  then show ?thesis
    by (simp add: work_left_def power2_eq_square nat_add_distrib nat_mult_distrib)
qed

lemma reachable_structure: "q_reachable Q n s \<Longrightarrow> invStructure Q s"
  by (rule structure_reachable [OF reachable_untimed])

lemma reachable_type: "q_reachable Q n s \<Longrightarrow> typeInv Q s"
  using reachable_structure by (simp add: invStructure_def)

lemma work_reachable: "q_reachable Q n s \<Longrightarrow> n + work_left Q s \<le> work_left Q q_init"
proof (induction rule: q_reachable.induct)
  case (step n s a)
  from work_step [OF reachable_type [OF step.hyps(1)] step.hyps(2)] step.IH show ?case by linarith
qed simp

text \<open>How deep the first deposit is: by then every signature on the refund of its depositor has been given, and what
  comes before.\<close>

lemma setup_init: "setup_left Q q_init = 2 * (int (card (PARTIES Q)))\<^sup>2 + 11 * int (card (PARTIES Q))"
  by (simp add: setup_left_def q_init_def emptyInbox_def phases_left_def absent_def unsigned_def
      power2_eq_square algebra_simps)

lemma setup_reachable: "q_reachable Q n s \<Longrightarrow> setup_left Q q_init \<le> setup_left Q s + int n"
proof (induction rule: q_reachable.induct)
  case (step n s a)
  from setup_decreases_by_one [OF step.hyps(2)] step.IH show ?case by linarith
qed simp

lemma deposit_phase: "q_reachable Q n s \<Longrightarrow> p \<in> PARTIES Q \<Longrightarrow> assets s p \<noteq> OwnedBy p \<Longrightarrow> 6 \<le> phaseRank (phases s p)"
proof (induction rule: q_reachable.induct)
  case (step n s a)
  then show ?case by (cases a) (auto simp: q_enabled_defs split: if_splits)
qed (simp add: q_init_def)

lemma sum_one_smaller:
  fixes f :: "'p \<Rightarrow> int"
  assumes "p \<in> PARTIES Q" and "\<And>q. q \<in> PARTIES Q \<Longrightarrow> f q \<le> b" and "f p \<le> c"
  shows "(\<Sum>q\<in>PARTIES Q. f q) \<le> (int (card (PARTIES Q)) - 1) * b + c"
proof -
  have n: "0 < card (PARTIES Q)" using assms(1) card_gt_0_iff by blast
  have "(\<Sum>q\<in>PARTIES Q - {p}. f q) \<le> (\<Sum>q\<in>PARTIES Q - {p}. b)" using assms(2) by (intro sum_mono) simp
  also have "\<dots> = (int (card (PARTIES Q)) - 1) * b" using assms(1) n by (simp add: of_nat_diff)
  finally show ?thesis using assms(1,3) by (simp add: sum.remove [OF finite_parties assms(1)])
qed

lemma deposit_setup_left:
  assumes inv: "invStructure Q s" and p: "p \<in> PARTIES Q" and six: "6 \<le> phaseRank (phases s p)"
  shows "setup_left Q s \<le> (int (card (PARTIES Q)))\<^sup>2"
proof -
  let ?n = "int (card (PARTIES Q))"
  have i: "invSetupMonotone Q s" "invInboxDecided Q s" "typeInv Q s" "invPreSigImpliesTAgg Q s" "invSendImpliesPhase Q s"
    using inv by (simp_all add: invStructure_def)
  have cosigs: "PARTIES Q \<subseteq> coSigs s p" "q \<in> PARTIES Q \<Longrightarrow> p \<in> coSigs s q" for q
    using i(1) p six by (auto simp: invSetupMonotone_def phaseAtLeast_def roundDoneFor_def Let_def)
  have five: "5 \<le> phaseRank (phases s q)" if "q \<in> PARTIES Q" for q
    using i(5) cosigs(2) [OF that] that by (auto simp: invSendImpliesPhase_def phaseAtLeast_def)
  have presigs: "PARTIES Q \<subseteq> preSigs s q" if "q \<in> PARTIES Q" for q
    using i(1) five [OF that] that by (auto simp: invSetupMonotone_def phaseAtLeast_def roundDoneFor_def Let_def)
  have "phases_left Q (phases s) \<le> (?n - 1) * 2 + 1"
    unfolding phases_left_def using five six by (intro sum_one_smaller [OF p]) force+
  moreover have "unsigned Q (coSigs s) \<le> (?n - 1) * (?n - 1) + 0"
    unfolding unsigned_def
  proof (intro sum_one_smaller [OF p])
    fix q assume q: "q \<in> PARTIES Q"
    have "PARTIES Q - coSigs s q \<subseteq> PARTIES Q - {p}" using cosigs(2) [OF q] by blast
    then have "card (PARTIES Q - coSigs s q) \<le> card (PARTIES Q - {p})" by (intro card_mono) auto
    then show "absent Q (coSigs s q) \<le> ?n - 1"
      using p card_gt_0_iff [of "PARTIES Q"] by (auto simp: absent_def of_nat_diff)
  qed (use cosigs(1) in \<open>simp add: absent_def Diff_eq_empty_iff [THEN iffD2]\<close>)
  moreover have "unsigned Q (preSigs s) = 0"
    using presigs by (simp add: unsigned_def absent_def Diff_eq_empty_iff [THEN iffD2])
  moreover have "absent Q (decidedBy (adaptors s)) = 0" "absent Q (decidedBy (keys_sent s)) = 0"
    "absent Q (decidedBy (nonces s)) = 0" "absent Q (decidedBy (tAggs s)) = 0"
    using phase_decided [OF i(1-3) p] phase_tAggs_decided [OF i(1-4) p] six by (simp_all add: absent_def)
  ultimately show ?thesis by (simp add: setup_left_def power2_eq_square algebra_simps)
qed

lemma deposit_depth:
  assumes "q_reachable Q n s" and "p \<in> PARTIES Q" and "assets s p \<noteq> OwnedBy p"
  shows "(card (PARTIES Q))\<^sup>2 + 11 * card (PARTIES Q) \<le> n"
proof -
  have "(int (card (PARTIES Q)))\<^sup>2 + 11 * int (card (PARTIES Q)) \<le> int n"
    using setup_reachable [OF assms(1)] setup_init
      deposit_setup_left [OF reachable_structure [OF assms(1)] assms(2) deposit_phase [OF assms]] by linarith
  then have "int ((card (PARTIES Q))\<^sup>2 + 11 * card (PARTIES Q)) \<le> int n" by simp
  then show ?thesis by (rule of_nat_le_iff [THEN iffD1])
qed

end

section \<open>The gate on time\<close>

text \<open>The gate says what it is meant to say: no action but the passing of time is possible.\<close>

lemma gate_exact: "parameters_ok Q \<Longrightarrow>
    noOtherActionEnabled Q s \<longleftrightarrow> (\<forall>a. q_guard Q s a \<longrightarrow> (\<exists>d. a = OpenNextWindow d))"
proof
  assume "noOtherActionEnabled Q s"
  then have "\<not> q_guard Q s a \<or> (\<exists>d. a = OpenNextWindow d)" for a
    by (cases a) (auto simp: noOtherActionEnabled_def)
  then show "\<forall>a. q_guard Q s a \<longrightarrow> (\<exists>d. a = OpenNextWindow d)" by blast
next
  assume r: "\<forall>a. q_guard Q s a \<longrightarrow> (\<exists>d. a = OpenNextWindow d)"
  have all: "sends_allowed Q p (PARTIES Q) {}" for p by (simp add: sends_allowed_def)
  have no: "\<not> q_guard Q s a" if "\<And>d. a \<noteq> OpenNextWindow d" for a using r that by blast
  show "noOtherActionEnabled Q s"
    unfolding noOtherActionEnabled_def
    using no [of "Config _"] no [of "SendAdaptorPointTo _ (PARTIES Q) {}"] no [of "AdaptorBroadcastAdvance _"]
      no [of "SendKeyTo _ (PARTIES Q) {}"] no [of "Key1Advance _"] no [of "SendNonceTo _ (PARTIES Q) {}"]
      no [of "Key2Advance _"] no [of "SendTAggTo _ (PARTIES Q) {}"] no [of "SendPreSig _ _"] no [of "Key3Advance _"]
      no [of "SendCoSig _ _"] no [of "SignInTxAdvance _"] no [of "Lock _"] no [of "AdvanceToClaim _"]
      no [of "SendSecretTo _ (PARTIES Q) {}"] no [of Trigger] no [of "Claim _"] no [of "ConfirmClaim _"]
      no [of "ReorgClaim _"] no [of FinalizeClaims] no [of "RefundDeposit _"] no [of "WithholdLock _"]
      no [of "WithholdClaim _"] no [of WithholdTrigger] all
    by simp
qed

definition stuck :: "'p qparams \<Rightarrow> 'p qstate \<Rightarrow> bool" where
  "stuck Q s \<longleftrightarrow> (\<forall>a. \<not> q_guard Q s a)"

lemma stuck_gate: "parameters_ok Q \<Longrightarrow> stuck Q s \<Longrightarrow> noOtherActionEnabled Q s"
  by (simp add: gate_exact stuck_def)

context protocol
begin

lemma stuck_all_open:
  assumes "stuck Q s"
  shows "PARTIES Q \<subseteq> openWindows s"
proof (rule ccontr)
  assume "\<not> PARTIES Q \<subseteq> openWindows s"
  then have ne: "PARTIES Q - openWindows s \<noteq> {}" and fin: "finite (PARTIES Q - openWindows s)" by auto
  let ?d = "arg_min_on (WINDOWS Q) (PARTIES Q - openWindows s)"
  have "?d \<in> PARTIES Q - openWindows s" by (rule arg_min_if_finite(1) [OF fin ne])
  moreover have "\<not> (\<exists>q\<in>PARTIES Q - openWindows s. WINDOWS Q q < WINDOWS Q ?d)"
    by (rule arg_min_if_finite(2) [OF fin ne])
  ultimately have "q_guard Q s (OpenNextWindow ?d)" using stuck_gate [OF ok assms] by auto
  with assms show False unfolding stuck_def by blast
qed

end

section \<open>What the passing of time freezes\<close>

text \<open>The actions up to the trigger. Once a window is open none of them is possible any more: the first window opens
  only when none is, and no later action makes one possible again.\<close>

fun preparing :: "'p qaction \<Rightarrow> bool" where
  "preparing (Claim p) = False"
| "preparing (ConfirmClaim p) = False"
| "preparing (ReorgClaim p) = False"
| "preparing FinalizeClaims = False"
| "preparing (RefundDeposit p) = False"
| "preparing (WithholdClaim p) = False"
| "preparing (OpenNextWindow d) = False"
| "preparing a = True"

definition honestDoNotWithhold :: "'p qparams \<Rightarrow> 'p qstate \<Rightarrow> bool" where
  "honestDoNotWithhold Q s \<longleftrightarrow> HONEST Q \<inter> (withheldLocks s \<union> withheldClaims s) = {} \<and>
     (withheldTrigger s \<longrightarrow> LEADER Q \<notin> HONEST Q)"

definition triggerByLeader :: "'p qparams \<Rightarrow> 'p qstate \<Rightarrow> bool" where
  "triggerByLeader Q s \<longleftrightarrow> (triggerBroadcast s \<longrightarrow> phases s (LEADER Q) = PhaseClaim)"

definition frozen :: "'p qparams \<Rightarrow> 'p qstate \<Rightarrow> bool" where
  "frozen Q s \<longleftrightarrow> (openWindows s \<noteq> {} \<longrightarrow> (\<forall>a. preparing a \<longrightarrow> \<not> q_guard Q s a))"

text \<open>The race that the windows leave to an honest claimant is over when the window opens.\<close>

definition raceOver :: "'p qparams \<Rightarrow> 'p qstate \<Rightarrow> bool" where
  "raceOver Q s \<longleftrightarrow> (triggerBroadcast s \<longrightarrow> (\<forall>h\<in>HONEST Q. senderOf Q h \<in> openWindows s \<longrightarrow>
     assets s (senderOf Q h) = ClaimedBy h \<or>
     (assets s (senderOf Q h) = PendingClaim h \<and> (claimsFinalized s \<or> MAX_REORGS Q \<le> reorgCount s h))))"

definition invTime :: "'p qparams \<Rightarrow> 'p qstate \<Rightarrow> bool" where
  "invTime Q s \<longleftrightarrow> honestDoNotWithhold Q s \<and> triggerByLeader Q s \<and> frozen Q s \<and> raceOver Q s"

context protocol
begin

lemma withhold_step: "honestDoNotWithhold Q s \<Longrightarrow> untimed_guard Q s a \<Longrightarrow> honestDoNotWithhold Q (q_effect Q a s)"
  by (cases a) (auto simp: honestDoNotWithhold_def q_facts)

lemma leader_step: "triggerByLeader Q s \<Longrightarrow> untimed_guard Q s a \<Longrightarrow> triggerByLeader Q (q_effect Q a s)"
  by (cases a) (auto simp: triggerByLeader_def q_facts)

lemma at_least_claim: "phaseAtLeast ph PhaseClaim \<longleftrightarrow> ph = PhaseClaim"
  by (cases ph) (simp_all add: phaseAtLeast_def)

lemma all_claiming:
  assumes "invStructure Q s" and "triggerByLeader Q s" and "triggerBroadcast s" and "p \<in> PARTIES Q"
  shows "phases s p = PhaseClaim"
proof (cases "p = LEADER Q")
  case False
  then have "p \<in> receivedAt (secrets s) (LEADER Q)"
    using assms(1,3,4) by (simp add: invStructure_def triggerAfterSecrets_def)
  moreover have "receivedAt (secrets s) (LEADER Q) \<subseteq> decidedBy (secrets s)"
    using assms(1) leader_party by (simp add: invStructure_def invInboxDecided_def)
  ultimately have "p \<in> decidedBy (secrets s)" by blast
  then show ?thesis using assms(1,4) by (auto simp: invStructure_def invSendImpliesPhase_def at_least_claim)
qed (use assms(2,3) in \<open>simp add: triggerByLeader_def\<close>)

text \<open>A guard of a preparing action carries over to an earlier state that has the same setup and no deposit
  that the later one shows as untouched or locked.\<close>

definition same_setup :: "'p qstate \<Rightarrow> 'p qstate \<Rightarrow> bool" where
  "same_setup s s' \<longleftrightarrow> phases s' = phases s \<and> adaptors s' = adaptors s \<and> keys_sent s' = keys_sent s \<and>
     nonces s' = nonces s \<and> tAggs s' = tAggs s \<and> preSigs s' = preSigs s \<and> coSigs s' = coSigs s \<and>
     secrets s' = secrets s \<and> triggerBroadcast s' = triggerBroadcast s \<and> withheldLocks s' = withheldLocks s \<and>
     withheldTrigger s' = withheldTrigger s \<and> (openWindows s' = {} \<longrightarrow> openWindows s = {}) \<and>
     (\<forall>p\<in>PARTIES Q. assets s' p = OwnedBy p \<longrightarrow> assets s p = OwnedBy p) \<and>
     (triggerBroadcast s \<or> (\<forall>p\<in>PARTIES Q. assets s' p = Locked \<longrightarrow> assets s p = Locked)) \<and>
     (triggerBroadcast s \<longrightarrow> (\<forall>p\<in>PARTIES Q. phases s p = PhaseClaim))"

lemma preparing_back:
  assumes "same_setup s s'" and "preparing a" and "q_guard Q s' a"
  shows "q_guard Q s a"
  using assms by (cases a) (auto simp: same_setup_def q_enabled_defs allLocked_def)

lemma settling_same_setup:
  assumes "invStructure Q s" and "triggerByLeader Q s" and "q_guard Q s a" and "\<not> preparing a"
  shows "same_setup s (q_effect Q a s)"
proof -
  note cl = all_claiming [OF assms(1,2)]
  have pend: "p \<in> PARTIES Q \<Longrightarrow> assets s (senderOf Q p) = PendingClaim p \<Longrightarrow> triggerBroadcast s" for p
    using coherent(3) [OF _ sender_party, of s p p] assms(1) by (simp add: invStructure_def)
  show ?thesis using assms(3,4) cl pend by (cases a) (auto simp: same_setup_def q_enabled_defs)
qed

lemma frozen_step:
  assumes "frozen Q s" and "invStructure Q s" and "triggerByLeader Q s" and "q_guard Q s a"
  shows "frozen Q (q_effect Q a s)"
  unfolding frozen_def
proof (intro impI allI)
  fix b :: "'p qaction"
  assume o: "openWindows (q_effect Q a s) \<noteq> {}" and b: "preparing b"
  have no: "\<not> preparing a" "\<not> q_guard Q s b"
  proof -
    show "\<not> q_guard Q s b"
    proof (cases "openWindows s = {}")
      case True
      with o obtain d where "a = OpenNextWindow d" by (cases a) simp_all
      with assms(4) have "noOtherActionEnabled Q s" by simp
      with b show ?thesis using gate_exact [OF ok, of s] by (metis preparing.simps(7))
    qed (use assms(1) b in \<open>simp add: frozen_def\<close>)
    show "\<not> preparing a"
    proof (cases "openWindows s = {}")
      case True
      with o show ?thesis by (cases a) simp_all
    qed (use assms(1,4) in \<open>auto simp: frozen_def\<close>)
  qed
  show "\<not> q_guard Q (q_effect Q a s) b"
    using preparing_back [OF settling_same_setup [OF assms(2-4) no(1)] b] no(2) by blast
qed

lemma race_opens:
  assumes "invStructure Q s" and "honestDoNotWithhold Q s" and "triggerByLeader Q s" and "noOtherActionEnabled Q s"
    and "triggerBroadcast s" and "h \<in> HONEST Q" and "senderOf Q h \<notin> openWindows s"
  shows "assets s (senderOf Q h) = ClaimedBy h \<or>
     (assets s (senderOf Q h) = PendingClaim h \<and> (claimsFinalized s \<or> MAX_REORGS Q \<le> reorgCount s h))"
proof -
  have h: "h \<in> PARTIES Q" using assms(6) by (rule honest_party)
  note c = coherent [OF _ sender_party [OF h], of s]
  have co: "assetCoherence Q s" "triggerAfterLocks Q s" using assms(1) by (simp_all add: invStructure_def)
  have no: "\<not> claim_enabled Q s h" "\<not> reorgClaim_enabled Q s h"
    using assms(4) h by (auto simp: noOtherActionEnabled_def)
  have "h \<notin> withheldClaims s" using assms(2,6) by (auto simp: honestDoNotWithhold_def)
  then have "assets s (senderOf Q h) \<noteq> Locked"
    using no(1) all_claiming [OF assms(1,3,5) h] assms(5) by (simp add: claim_enabled_def)
  then show ?thesis
    using c [OF co(1)] co(2) no(2) assms(5,7) h
    by (cases "assets s (senderOf Q h)") (auto simp: triggerAfterLocks_def reorgClaim_enabled_def)
qed

lemma race_step:
  assumes "invTime Q s" and "invStructure Q s" and "q_guard Q s a"
  shows "raceOver Q (q_effect Q a s)"
proof -
  have i: "honestDoNotWithhold Q s" "triggerByLeader Q s" "frozen Q s" "raceOver Q s"
    using assms(1) by (simp_all add: invTime_def)
  show ?thesis
  proof (cases a)
    case Trigger
    then have "preparing a" by simp
    then have "openWindows s = {}" using i(3) assms(3) unfolding frozen_def by blast
    with Trigger show ?thesis by (simp add: raceOver_def)
  next
    case (OpenNextWindow d)
    then show ?thesis using i(4) assms(3) race_opens [OF assms(2) i(1,2)] by (auto simp: raceOver_def)
  qed (use i(4) assms(3) in \<open>auto simp: raceOver_def q_enabled_defs sender_inj honest_party\<close>)
qed

lemma time_init: "invTime Q q_init"
  by (simp add: invTime_def honestDoNotWithhold_def triggerByLeader_def frozen_def raceOver_def q_init_def)

lemma time_step: "invTime Q s \<Longrightarrow> invStructure Q s \<Longrightarrow> q_guard Q s a \<Longrightarrow> invTime Q (q_effect Q a s)"
  using race_step [of s a] frozen_step [of s a] withhold_step [OF _ guard_untimed, of s a]
    leader_step [OF _ guard_untimed, of s a]
  by (simp add: invTime_def)

lemma time_reachable: "q_reachable Q n s \<Longrightarrow> invTime Q s"
proof (induction rule: q_reachable.induct)
  case (step n s a)
  then show ?case using time_step reachable_structure by blast
qed (rule time_init)

end

section \<open>States in which nothing is enabled\<close>

context protocol
begin

lemma phase_locked: "phaseAtLeast ph PhaseLock \<longleftrightarrow> ph = PhaseLock \<or> ph = PhaseClaim"
  by (cases ph) (simp_all add: phaseAtLeast_def)

lemma stuck_not_locked:
  assumes "invStructure Q s" and "stuck Q s" and "p \<in> PARTIES Q"
  shows "assets s p \<noteq> Locked"
proof
  assume l: "assets s p = Locked"
  have i: "assetCoherence Q s" "flagCoherence Q s" using assms(1) by (simp_all add: invStructure_def)
  have "phases s p = PhaseLock \<or> phases s p = PhaseClaim"
    using coherent(2) [OF i(1) assms(3) l] by (simp add: phase_locked)
  moreover have "p \<notin> refunded s" using i(2) assms(3) l by (auto simp: flagCoherence_def)
  ultimately have "q_guard Q s (RefundDeposit p)"
    using l assms(3) stuck_all_open [OF assms(2)] by (auto simp: refund_enabled_def)
  with assms(2) show False unfolding stuck_def by blast
qed

text \<open>Nor is a claim pending: were one, the honest claims would be done, hence final, hence confirmed.\<close>

lemma stuck_claims_done:
  assumes "invStructure Q s" and "invTime Q s" and "stuck Q s" and "triggerBroadcast s"
  shows "honestClaimsDone Q s"
  unfolding claims_done_iff
proof
  fix h assume h: "h \<in> HONEST Q"
  then have "senderOf Q h \<in> openWindows s" using stuck_all_open [OF assms(3)] honest_party by blast
  then show "\<exists>q. assets s (senderOf Q h) = PendingClaim q \<or> assets s (senderOf Q h) = ClaimedBy q"
    using assms(2,4) h unfolding invTime_def raceOver_def by blast
qed

lemma stuck_not_pending:
  assumes "invStructure Q s" and "invTime Q s" and "stuck Q s" and "p \<in> PARTIES Q"
  shows "assets s p \<noteq> PendingClaim q"
proof
  assume l: "assets s p = PendingClaim q"
  have i: "assetCoherence Q s" "flagCoherence Q s" using assms(1) by (simp_all add: invStructure_def)
  have q: "q = recipientOf Q p" "triggerBroadcast s" using coherent(3) [OF i(1) assms(4) l] by simp_all
  have "\<not> q_guard Q s FinalizeClaims" using assms(3) unfolding stuck_def by blast
  then have "claimsFinalized s"
    using stuck_claims_done [OF assms(1-3) q(2)] q(2) by (simp add: finalizeClaims_enabled_def)
  moreover have "q \<notin> claimConfirmed s" using i(2) assms(4) l q(1) by (auto simp: flagCoherence_def)
  ultimately have "q_guard Q s (ConfirmClaim q)" using l q(1) assms(4) by (simp add: confirmClaim_enabled_def)
  with assms(3) show False unfolding stuck_def by blast
qed

lemma stuck_outcome:
  assumes "invStructure Q s" and "invTime Q s" and "stuck Q s" and "p \<in> HONEST Q"
  shows "(assets s p = ClaimedBy (recipientOf Q p) \<and> assets s (senderOf Q p) = ClaimedBy p) \<or>
    assets s p = RefundedTo p \<or> assets s p = OwnedBy p"
proof -
  have p: "p \<in> PARTIES Q" using assms(4) by (rule honest_party)
  have i: "assetCoherence Q s" "finalizedAfterClaims Q s" using assms(1) by (simp_all add: invStructure_def)
  show ?thesis
  proof (cases "assets s p")
    case (ClaimedBy q)
    with coherent(4) [OF i(1) p] have q: "q = recipientOf Q p" "claimsFinalized s" by auto
    then obtain r where "assets s (senderOf Q p) = PendingClaim r \<or> assets s (senderOf Q p) = ClaimedBy r"
      using i(2) assms(4) by (auto simp: finalizedAfterClaims_def claims_done_iff)
    then have "assets s (senderOf Q p) = ClaimedBy r"
      using stuck_not_pending [OF assms(1-3) sender_party [OF p]] by blast
    then show ?thesis using ClaimedBy q coherent(4) [OF i(1) sender_party [OF p]] p by auto
  qed (use stuck_not_locked [OF assms(1,3) p] stuck_not_pending [OF assms(1-3) p] coherent(1,5) [OF i(1) p] in auto)
qed

end

section \<open>Fair behaviours come to rest\<close>

lemma enabled_step_by: "q_guard Q s a \<Longrightarrow> parameters_ok Q \<Longrightarrow>
    (\<exists>p\<in>PARTIES Q. acts_for Q p a) \<or> (\<exists>d. a = OpenNextWindow d)"
  by (cases a) (auto simp: parameters_ok_def)

context protocol
begin

lemma behaviour_reachable:
  assumes "q_behaviour Q \<sigma>"
  shows "\<exists>n. q_reachable Q n (\<sigma> i)"
proof (induction i)
  case 0
  show ?case using assms q_reachable.start by (metis q_behaviour_def)
next
  case (Suc i)
  then show ?case using assms q_reachable.step unfolding q_behaviour_def q_step_def by metis
qed

lemma behaviour_work:
  assumes "q_behaviour Q \<sigma>"
  shows "\<sigma> (Suc i) = \<sigma> i \<or> work_left Q (\<sigma> (Suc i)) < work_left Q (\<sigma> i)"
  using assms behaviour_reachable [OF assms, of i] work_step reachable_type
  unfolding q_behaviour_def q_step_def by metis

lemma behaviour_rests:
  assumes "q_behaviour Q \<sigma>"
  shows "\<exists>i. \<forall>j\<ge>i. \<sigma> j = \<sigma> i"
proof -
  obtain i where i: "\<And>j. work_left Q (\<sigma> i) \<le> work_left Q (\<sigma> j)"
    using ex_has_least_nat [of "\<lambda>_. True" 0 "\<lambda>i. work_left Q (\<sigma> i)"] by auto
  have "\<sigma> (i + k) = \<sigma> i" for k
  proof (induction k)
    case (Suc k)
    then show ?case using behaviour_work [OF assms, of "i + k"] i [of "i + Suc k"] by auto
  qed simp
  then show ?thesis by (metis le_add_diff_inverse)
qed

lemma rests_unfair:
  assumes "weakFair R \<sigma>" and "\<forall>j\<ge>i. \<sigma> j = \<sigma> i"
  shows "\<not> enabled_changing R (\<sigma> i)"
proof
  assume "enabled_changing R (\<sigma> i)"
  with assms obtain j where "j \<ge> i" "taken_at R \<sigma> j" unfolding weakFair_def by metis
  with assms(2) show False unfolding taken_at_def by (metis le_SucI)
qed

lemma fair_stuck:
  assumes "q_behaviour Q \<sigma>" and "honestFairness Q \<sigma>"
  shows "\<exists>i. stuck Q (\<sigma> i) \<and> (\<forall>j\<ge>i. \<sigma> j = \<sigma> i)"
proof -
  obtain i where i: "\<forall>j\<ge>i. \<sigma> j = \<sigma> i" using behaviour_rests [OF assms(1)] by blast
  have "\<not> q_guard Q (\<sigma> i) a" for a
  proof
    assume g: "q_guard Q (\<sigma> i) a"
    have no: "\<not> enabled_changing (openNextWindow Q) (\<sigma> i)"
      "\<And>p. p \<in> PARTIES Q \<Longrightarrow> \<not> enabled_changing (stepBy Q p) (\<sigma> i)"
      using assms(2) rests_unfair [OF _ i] by (auto simp: honestFairness_def)
    from enabled_step_by [OF g ok] show False
    proof
      assume "\<exists>p\<in>PARTIES Q. acts_for Q p a"
      then obtain p where p: "p \<in> PARTIES Q" and "stepBy Q p (\<sigma> i) (q_effect Q a (\<sigma> i))"
        using g unfolding stepBy_def by blast
      then have "enabled_changing (stepBy Q p) (\<sigma> i)"
        unfolding enabled_changing_def using step_changes [OF g] by (intro exI conjI)
      with no(2) [OF p] show False by contradiction
    next
      assume "\<exists>d. a = OpenNextWindow d"
      then have "openNextWindow Q (\<sigma> i) (q_effect Q a (\<sigma> i))"
        using g unfolding openNextWindow_def by (elim exE) (intro exI conjI, simp_all)
      then have "enabled_changing (openNextWindow Q) (\<sigma> i)"
        unfolding enabled_changing_def using step_changes [OF g] by (intro exI conjI)
      with no(1) show False by contradiction
    qed
  qed
  then have "stuck Q (\<sigma> i)" by (simp add: stuck_def)
  with i show ?thesis by (intro exI conjI)
qed

lemma fair_outcome:
  assumes "q_behaviour Q \<sigma>" and "honestFairness Q \<sigma>"
  shows "\<exists>i. \<forall>j\<ge>i. \<forall>p\<in>HONEST Q.
    (assets (\<sigma> j) p = ClaimedBy (recipientOf Q p) \<and> assets (\<sigma> j) (senderOf Q p) = ClaimedBy p) \<or>
    assets (\<sigma> j) p = RefundedTo p \<or> assets (\<sigma> j) p = OwnedBy p"
proof -
  obtain i where i: "stuck Q (\<sigma> i)" "\<forall>j\<ge>i. \<sigma> j = \<sigma> i" using fair_stuck [OF assms] by blast
  obtain n where n: "q_reachable Q n (\<sigma> i)" using behaviour_reachable [OF assms(1)] by blast
  show ?thesis
  proof (intro exI allI impI ballI)
    fix j p assume "i \<le> j" "p \<in> HONEST Q"
    then have "\<sigma> j = \<sigma> i" and "p \<in> HONEST Q" using i(2) by blast+
    then show "(assets (\<sigma> j) p = ClaimedBy (recipientOf Q p) \<and> assets (\<sigma> j) (senderOf Q p) = ClaimedBy p) \<or>
      assets (\<sigma> j) p = RefundedTo p \<or> assets (\<sigma> j) p = OwnedBy p"
      using stuck_outcome [OF reachable_structure [OF n] time_reachable [OF n] i(1)] by simp
  qed
qed

end

end
