(* ===== verification/Quint_Honest.thy ===== *)
theory Quint_Honest
  imports Quint_Runs
begin

text \<open>
  The Quint model when every party is honest and the windows are ordered: time does not pass before every deposit
  is claimed by the party it is meant for, so that every run ends there.
\<close>

section \<open>Honest messages\<close>

definition delivered :: "'p qparams \<Rightarrow> 'p inbox \<Rightarrow> bool" where
  "delivered Q m \<longleftrightarrow> (\<forall>r\<in>PARTIES Q. decidedBy m \<subseteq> receivedAt m r \<and> equivocatedAt m r = {})"

definition honestInboxes :: "'p qparams \<Rightarrow> 'p qstate \<Rightarrow> bool" where
  "honestInboxes Q s \<longleftrightarrow> delivered Q (adaptors s) \<and> delivered Q (keys_sent s) \<and> delivered Q (nonces s) \<and>
     delivered Q (tAggs s) \<and> delivered Q (secrets s)"

definition everyoneClaimed :: "'p qparams \<Rightarrow> 'p qstate \<Rightarrow> bool" where
  "everyoneClaimed Q s \<longleftrightarrow> (\<forall>p\<in>PARTIES Q. assets s p = ClaimedBy (recipientOf Q p))"

lemma claimed_final: "everyoneClaimed Q s \<Longrightarrow> parameters_ok Q \<Longrightarrow> q_guard Q s a \<Longrightarrow> everyoneClaimed Q (q_effect Q a s)"
  by (cases a) (auto simp: everyoneClaimed_def parameters_ok_def q_enabled_defs)

locale honest_protocol = protocol Q for Q :: "'p qparams" +
  assumes all_honest: "HONEST Q = PARTIES Q" and ordered: "windowsOrdered Q"
begin

lemma delivered_step: "honestInboxes Q s \<Longrightarrow> q_guard Q s a \<Longrightarrow> honestInboxes Q (q_effect Q a s)"
  by (cases a) (auto simp: honestInboxes_def delivered_def deliver_def sends_allowed_def all_honest)

lemma delivered_all:
  assumes "delivered Q m" and "decidedBy m = PARTIES Q" and "\<forall>r\<in>PARTIES Q. receivedAt m r \<subseteq> PARTIES Q"
    and "p \<in> PARTIES Q"
  shows "allPresentFor Q p m \<and> noEquivocationAt p m"
  using assms by (auto simp: delivered_def allPresentFor_def noEquivocationAt_def)

end

text \<open>A state in which nothing but time can move, with all windows still shut.\<close>

locale quiet = honest_protocol Q for Q :: "'p qparams" +
  fixes s :: "'p qstate"
  assumes struct_inv: "invStructure Q s" and time_inv: "invTime Q s" and inboxes: "honestInboxes Q s"
    and gate: "noOtherActionEnabled Q s" and shut: "openWindows s = {}"
begin

lemma parts: "typeInv Q s" "invSetupMonotone Q s" "invInboxDecided Q s" "invPreSigImpliesTAgg Q s"
  "assetCoherence Q s" "flagCoherence Q s" "claimAfterLocks Q s" "triggerByLeader Q s" "honestDoNotWithhold Q s"
  using struct_inv time_inv by (simp_all add: invStructure_def invTime_def)

lemma quiet_guard: "preparing a \<Longrightarrow> \<not> q_guard Q s a"
  using gate gate_exact [OF ok, of s] by (metis preparing.simps(7))

lemma inbox_types:
  "m \<in> {adaptors s, keys_sent s, nonces s, tAggs s, secrets s} \<Longrightarrow>
     delivered Q m \<and> decidedBy m \<subseteq> PARTIES Q \<and> (\<forall>r\<in>PARTIES Q. receivedAt m r \<subseteq> PARTIES Q)"
  using inboxes parts(1) unfolding honestInboxes_def typeInv_def by blast

lemma inbox_complete:
  assumes "m \<in> {adaptors s, keys_sent s, nonces s, tAggs s, secrets s}"
    and "\<And>q. q \<in> PARTIES Q \<Longrightarrow> q \<in> decidedBy m" and "p \<in> PARTIES Q"
  shows "allPresentFor Q p m \<and> noEquivocationAt p m"
  using inbox_types [OF assms(1)] assms(2,3) by (intro delivered_all) blast+

lemma no_equivocation: "p \<in> PARTIES Q \<Longrightarrow> noEquivocationAt p (adaptors s) \<and> noEquivocationAt p (keys_sent s) \<and>
    noEquivocationAt p (nonces s) \<and> noEquivocationAt p (tAggs s) \<and> noEquivocationAt p (secrets s)"
  using inboxes by (simp add: honestInboxes_def delivered_def noEquivocationAt_def)

lemma rank1: "p \<in> PARTIES Q \<Longrightarrow> 1 \<le> phaseRank (phases s p)"
  using quiet_guard [of "Config p"] by (cases "phases s p") (simp_all add: config_enabled_def)

lemma rank2: assumes "p \<in> PARTIES Q" shows "2 \<le> phaseRank (phases s p)"
proof -
  have "q \<in> decidedBy (adaptors s)" if q: "q \<in> PARTIES Q" for q
    using quiet_guard [of "SendAdaptorPointTo q (PARTIES Q) {}"] rank1 [OF q] phase_decided(1) [OF parts(2,3,1) q] q
    by (cases "phases s q") (auto simp: sendAdaptorPointTo_enabled_def sends_allowed_def)
  then have "allPresentFor Q p (adaptors s) \<and> noEquivocationAt p (adaptors s)" using assms by (intro inbox_complete) simp_all
  with rank1 [OF assms] quiet_guard [of "AdaptorBroadcastAdvance p"] assms
  show ?thesis by (cases "phases s p") (simp_all add: adaptorBroadcastAdvance_enabled_def)
qed

lemma rank3: assumes "p \<in> PARTIES Q" shows "3 \<le> phaseRank (phases s p)"
proof -
  have "q \<in> decidedBy (keys_sent s)" if q: "q \<in> PARTIES Q" for q
    using quiet_guard [of "SendKeyTo q (PARTIES Q) {}"] rank2 [OF q] phase_decided(2) [OF parts(2,3,1) q] q
    by (cases "phases s q") (auto simp: sendKeyTo_enabled_def sends_allowed_def)
  then have "allPresentFor Q p (keys_sent s) \<and> noEquivocationAt p (keys_sent s)" using assms by (intro inbox_complete) simp_all
  with rank2 [OF assms] quiet_guard [of "Key1Advance p"] assms
  show ?thesis by (cases "phases s p") (simp_all add: key1Advance_enabled_def)
qed

lemma rank4: assumes "p \<in> PARTIES Q" shows "4 \<le> phaseRank (phases s p)"
proof -
  have "q \<in> decidedBy (nonces s)" if q: "q \<in> PARTIES Q" for q
    using quiet_guard [of "SendNonceTo q (PARTIES Q) {}"] rank3 [OF q] phase_decided(3) [OF parts(2,3,1) q] q
    by (cases "phases s q") (auto simp: sendNonceTo_enabled_def sends_allowed_def)
  then have "allPresentFor Q p (nonces s) \<and> noEquivocationAt p (nonces s)" using assms by (intro inbox_complete) simp_all
  with rank3 [OF assms] quiet_guard [of "Key2Advance p"] assms
  show ?thesis by (cases "phases s p") (simp_all add: key2Advance_enabled_def)
qed

lemma adaptors_here: "p \<in> PARTIES Q \<Longrightarrow> allPresentFor Q p (adaptors s)"
  using rank4 [of p] parts(2) by (auto simp: invSetupMonotone_def phaseAtLeast_def Let_def)

lemma tAggs_decided: assumes d: "d \<in> PARTIES Q" shows "d \<in> decidedBy (tAggs s)"
proof -
  have r: "recipientOf Q d \<in> PARTIES Q" using d by simp
  show "d \<in> decidedBy (tAggs s)"
  proof (cases "5 \<le> phaseRank (phases s (recipientOf Q d))")
    case True
    then show ?thesis using phase_tAggs_decided [OF parts(2,3,1,4) r] d by simp
  next
    case False
    then have "phases s (recipientOf Q d) = PhaseSetupKey3"
      using rank4 [OF r] by (cases "phases s (recipientOf Q d)") simp_all
    then show ?thesis
      using quiet_guard [of "SendTAggTo d (PARTIES Q) {}"] adaptors_here [OF r] d
      by (auto simp: sendTAggTo_enabled_def sends_allowed_def)
  qed
qed

lemma presigned: assumes "p \<in> PARTIES Q" "d \<in> PARTIES Q" shows "d \<in> preSigs s p"
proof (cases "5 \<le> phaseRank (phases s p)")
  case True
  then show ?thesis using parts(2) assms by (auto simp: invSetupMonotone_def phaseAtLeast_def roundDoneFor_def Let_def)
next
  case False
  then have "phases s p = PhaseSetupKey3" using rank4 [OF assms(1)] by (cases "phases s p") simp_all
  moreover have "allPresentFor Q p (tAggs s)" using inbox_complete [OF _ tAggs_decided assms(1)] by simp
  ultimately show ?thesis
    using quiet_guard [of "SendPreSig p d"] adaptors_here [OF assms(1)]
      no_equivocation [OF assms(1)] assms
    by (auto simp: sendPreSig_enabled_def allPresentFor_def noEquivocationAt_def)
qed

lemma rank5: assumes "p \<in> PARTIES Q" shows "5 \<le> phaseRank (phases s p)"
  using rank4 [OF assms] quiet_guard [of "Key3Advance p"] presigned no_equivocation [OF assms] assms
  by (cases "phases s p") (simp_all add: key3Advance_enabled_def roundDoneFor_def)

lemma cosigned: assumes "p \<in> PARTIES Q" "d \<in> PARTIES Q" shows "d \<in> coSigs s p"
proof (cases "6 \<le> phaseRank (phases s p)")
  case True
  then show ?thesis using parts(2) assms by (auto simp: invSetupMonotone_def phaseAtLeast_def roundDoneFor_def Let_def)
next
  case False
  then have "phases s p = PhaseSetupSignInTx" using rank5 [OF assms(1)] by (cases "phases s p") simp_all
  moreover have "(recipientOf Q d = LEADER Q \<and> WINDOWS Q d < WINDOWS Q (LEADER Q)) \<or>
      (recipientOf Q d \<noteq> LEADER Q \<and> WINDOWS Q d > WINDOWS Q (recipientOf Q d) \<and>
       WINDOWS Q d - WINDOWS Q (recipientOf Q d) \<ge> DELTA Q)"
    using ordered assms(2) by (simp add: windowsOrdered_def Let_def)
  ultimately show ?thesis
    using quiet_guard [of "SendCoSig p d"] no_equivocation [OF assms(1)] assms
    by (auto simp: sendCoSig_enabled_def noEquivocationAt_def)
qed

lemma rank6: assumes "p \<in> PARTIES Q" shows "6 \<le> phaseRank (phases s p)"
  using rank5 [OF assms] quiet_guard [of "SignInTxAdvance p"] cosigned assms
  by (cases "phases s p") (simp_all add: signInTxAdvance_enabled_def roundDoneFor_def)

text \<open>Then the deposits: all made, all locked until the trigger, and from then on claimed to the end.\<close>

lemma not_withheld: "p \<in> PARTIES Q \<Longrightarrow> p \<notin> withheldLocks s \<and> p \<notin> withheldClaims s" "\<not> withheldTrigger s"
  using parts(9) all_honest leader_party by (auto simp: honestDoNotWithhold_def)

lemma deposited: assumes "p \<in> PARTIES Q" shows "assets s p \<noteq> OwnedBy q"
proof
  assume o: "assets s p = OwnedBy q"
  then have "assets s p = OwnedBy p" using coherent(1) [OF parts(5) assms] by simp
  then have "phases s p \<noteq> PhaseClaim" using parts(7) assms by (auto simp: claimAfterLocks_def)
  then have "phases s p = PhaseLock" using rank6 [OF assms] by (cases "phases s p") simp_all
  with \<open>assets s p = OwnedBy p\<close> show False
    using quiet_guard [of "Lock p"] not_withheld(1) [OF assms] shut assms by (simp add: lock_enabled_def)
qed

lemma not_refunded: "p \<in> PARTIES Q \<Longrightarrow> assets s p \<noteq> RefundedTo q"
  using coherent(5) [OF parts(5), of p q] shut by auto

lemma untriggered_locked: "\<not> triggerBroadcast s \<Longrightarrow> p \<in> PARTIES Q \<Longrightarrow> assets s p = Locked"
  using deposited [of p] not_refunded [of p] coherent(3,4) [OF parts(5), of p] by (cases "assets s p") auto

lemma claiming: assumes "p \<in> PARTIES Q" shows "phases s p = PhaseClaim"
proof (cases "triggerBroadcast s")
  case True
  then show ?thesis by (rule all_claiming [OF struct_inv parts(8) _ assms])
next
  case False
  then show ?thesis
    using rank6 [OF assms] quiet_guard [of "AdvanceToClaim p"] untriggered_locked assms
    by (cases "phases s p") (simp_all add: advanceToClaim_enabled_def allLocked_def)
qed

lemma triggered: "triggerBroadcast s"
proof (rule ccontr)
  assume n: "\<not> triggerBroadcast s"
  have "p \<in> decidedBy (secrets s)" if "p \<in> PARTIES Q - {LEADER Q}" for p
    using quiet_guard [of "SendSecretTo p (PARTIES Q) {}"] claiming that
    by (auto simp: sendSecretTo_enabled_def sends_allowed_def)
  moreover have "decidedBy (secrets s) \<subseteq> receivedAt (secrets s) (LEADER Q)"
    using inboxes leader_party by (simp add: honestInboxes_def delivered_def)
  ultimately have "\<forall>p\<in>PARTIES Q - {LEADER Q}. p \<in> receivedAt (secrets s) (LEADER Q)" by blast
  then have "q_guard Q s Trigger"
    using n claiming untriggered_locked not_withheld(2) no_equivocation by (simp add: trigger_enabled_def)
  with quiet_guard [of Trigger] show False by simp
qed

lemma everyone_claimed: "everyoneClaimed Q s"
  unfolding everyoneClaimed_def
proof
  have way: "assets s p = PendingClaim (recipientOf Q p) \<or> assets s p = ClaimedBy (recipientOf Q p)"
    if p: "p \<in> PARTIES Q" for p
  proof -
    have "\<not> claim_enabled Q s (recipientOf Q p)" using gate p by (auto simp: noOtherActionEnabled_def)
    then have "assets s p \<noteq> Locked"
      using claiming [of "recipientOf Q p"] triggered not_withheld(1) [of "recipientOf Q p"] p
      by (simp add: claim_enabled_def)
    then show ?thesis
      using deposited [OF p] not_refunded [OF p] coherent(3,4) [OF parts(5) p] by (cases "assets s p") auto
  qed
  have "honestClaimsDone Q s"
    using way [OF sender_party] all_honest unfolding claims_done_iff by metis
  then have fin: "claimsFinalized s"
    using gate triggered by (simp add: noOtherActionEnabled_def finalizeClaims_enabled_def)
  fix p assume p: "p \<in> PARTIES Q"
  have "\<not> confirmClaim_enabled Q s (recipientOf Q p)" using gate p by (auto simp: noOtherActionEnabled_def)
  moreover have "assets s p = PendingClaim (recipientOf Q p) \<Longrightarrow> recipientOf Q p \<notin> claimConfirmed s"
    using parts(6) recipient_party [OF p] sender_recipient [OF p] by (force simp: flagCoherence_def)
  ultimately show "assets s p = ClaimedBy (recipientOf Q p)"
    using way [OF p] fin p by (auto simp: confirmClaim_enabled_def)
qed

end

text \<open>So time never passes in an honest run before the swap is complete.\<close>

definition invHonestRun :: "'p qparams \<Rightarrow> 'p qstate \<Rightarrow> bool" where
  "invHonestRun Q s \<longleftrightarrow> honestInboxes Q s \<and> (openWindows s \<noteq> {} \<longrightarrow> everyoneClaimed Q s)"

context honest_protocol
begin

lemma honest_run_step:
  assumes "invHonestRun Q s" and "invStructure Q s" and "invTime Q s" and "q_guard Q s a"
  shows "invHonestRun Q (q_effect Q a s)"
proof -
  have i: "honestInboxes Q s" "openWindows s \<noteq> {} \<Longrightarrow> everyoneClaimed Q s"
    using assms(1) by (simp_all add: invHonestRun_def)
  have "everyoneClaimed Q s" if o: "openWindows (q_effect Q a s) \<noteq> {}"
  proof (cases "openWindows s = {}")
    case True
    with o obtain d where "a = OpenNextWindow d" by (cases a) simp_all
    with assms(4) have "noOtherActionEnabled Q s" by simp
    then have "quiet Q s" using honest_protocol_axioms assms i True by (simp add: quiet_def quiet_axioms_def)
    then show ?thesis by (rule quiet.everyone_claimed)
  qed (rule i(2))
  with claimed_final [OF _ ok assms(4)] delivered_step [OF i(1) assms(4)] show ?thesis
    by (simp add: invHonestRun_def)
qed

lemma honest_run_reachable: "q_reachable Q n s \<Longrightarrow> invHonestRun Q s"
proof (induction rule: q_reachable.induct)
  case start
  show ?case by (simp add: invHonestRun_def honestInboxes_def delivered_def q_init_def emptyInbox_def)
next
  case (step n s a)
  then show ?case using honest_run_step reachable_structure time_reachable by blast
qed

lemma honest_stuck_claimed: "q_reachable Q n s \<Longrightarrow> stuck Q s \<Longrightarrow> everyoneClaimed Q s"
  using honest_run_reachable [of n s] stuck_all_open [of s] leader_party by (auto simp: invHonestRun_def)

lemma honest_fair_claimed:
  assumes "q_behaviour Q \<sigma>" and "honestFairness Q \<sigma>"
  shows "\<exists>i. \<forall>j\<ge>i. everyoneClaimed Q (\<sigma> j)"
proof -
  obtain i where i: "stuck Q (\<sigma> i)" "\<forall>j\<ge>i. \<sigma> j = \<sigma> i" using fair_stuck [OF assms] by blast
  obtain n where n: "q_reachable Q n (\<sigma> i)" using behaviour_reachable [OF assms(1)] by blast
  have "everyoneClaimed Q (\<sigma> i)" by (rule honest_stuck_claimed [OF n i(1)])
  show ?thesis
  proof (intro exI allI impI)
    fix j assume "i \<le> j"
    with i(2) have "\<sigma> j = \<sigma> i" by blast
    with \<open>everyoneClaimed Q (\<sigma> i)\<close> show "everyoneClaimed Q (\<sigma> j)" by (rule ssubst [of _ _ "everyoneClaimed Q", rotated])
  qed
qed

end

section \<open>Running the model\<close>

fun q_run :: "'p qparams \<Rightarrow> 'p qaction list \<Rightarrow> 'p qstate \<Rightarrow> 'p qstate option" where
  "q_run Q [] s = Some s"
| "q_run Q (a # as) s = (if q_guard Q s a then q_run Q as (q_effect Q a s) else None)"

lemma run_reachable: "q_reachable Q n s \<Longrightarrow> q_run Q as s = Some s' \<Longrightarrow> q_reachable Q (n + length as) s'"
proof (induction as arbitrary: n s)
  case (Cons a as)
  then show ?case using q_reachable.step by (fastforce split: if_splits)
qed simp

lemma run_append: "q_run Q (as @ bs) s = (case q_run Q as s of None \<Rightarrow> None | Some s' \<Rightarrow> q_run Q bs s')"
  by (induction as arbitrary: s) simp_all

lemma run_take: "q_run Q as s = Some s' \<Longrightarrow> \<exists>u. q_run Q (take i as) s = Some u"
  using run_append [of Q "take i as" "drop i as" s] by (auto split: option.splits)

text \<open>The behaviour that makes these moves and then rests.\<close>

definition run_then_rest :: "'p qparams \<Rightarrow> 'p qaction list \<Rightarrow> 'p behaviour" where
  "run_then_rest Q as i = the (q_run Q (take i as) q_init)"

lemma run_then_rest_behaviour:
  assumes "q_run Q as q_init = Some s"
  shows "q_behaviour Q (run_then_rest Q as)"
  unfolding q_behaviour_def
proof (intro conjI allI)
  fix i
  obtain u where u: "q_run Q (take i as) q_init = Some u" using run_take [OF assms] by blast
  obtain v where v: "q_run Q (take (Suc i) as) q_init = Some v" using run_take [OF assms] by blast
  show "run_then_rest Q as (Suc i) = run_then_rest Q as i \<or>
      q_step Q (run_then_rest Q as i) (run_then_rest Q as (Suc i))"
  proof (cases "i < length as")
    case True
    then have "q_run Q [as ! i] u = Some v"
      using v u run_append [of Q "take i as" "[as ! i]" q_init] by (simp add: take_Suc_conv_app_nth)
    then show ?thesis using u v by (auto simp: run_then_rest_def q_step_def split: if_splits)
  qed (simp add: run_then_rest_def)
qed (simp add: run_then_rest_def)

lemma run_then_rest_fair:
  assumes "q_run Q as q_init = Some s" and "stuck Q s"
  shows "honestFairness Q (run_then_rest Q as)"
proof -
  have last: "run_then_rest Q as j = s" if "length as \<le> j" for j
    using that assms(1) by (simp add: run_then_rest_def)
  have none: "\<not> (\<forall>i. \<exists>j\<ge>i. enabled_changing R (run_then_rest Q as j))" "\<not> (\<exists>i. \<forall>j\<ge>i. enabled_changing R (run_then_rest Q as j))"
    if "\<And>s'. \<not> R s s'" for R
  proof -
    have no: "\<not> enabled_changing R (run_then_rest Q as j)" if "length as \<le> j" for j
      using last [OF that] \<open>\<And>s'. \<not> R s s'\<close> by (simp add: enabled_changing_def)
    then show "\<not> (\<forall>i. \<exists>j\<ge>i. enabled_changing R (run_then_rest Q as j))" by blast
    show "\<not> (\<exists>i. \<forall>j\<ge>i. enabled_changing R (run_then_rest Q as j))"
      using no [OF max.cobounded1] max.cobounded2 by blast
  qed
  have fair: "weakFair R (run_then_rest Q as)" "strongFair R (run_then_rest Q as)" if "\<And>s'. \<not> R s s'" for R
    unfolding weakFair_def strongFair_def using none [of R] that by blast+
  have "\<not> stepBy Q p s s'" "\<not> openNextWindow Q s s'" "\<not> finalizeClaims Q s s'" for p s'
    using assms(2) unfolding stuck_def stepBy_def openNextWindow_def finalizeClaims_def by blast+
  then show ?thesis unfolding honestFairness_def by (intro conjI ballI fair)
qed

lemma stuck_if: "parameters_ok Q \<Longrightarrow> noOtherActionEnabled Q s \<Longrightarrow> PARTIES Q \<subseteq> openWindows s \<Longrightarrow> stuck Q s"
  unfolding stuck_def using gate_exact [of Q s] by (metis q_guard.simps(25) subsetD)

text \<open>Any maximal run gives a fair behaviour, so there is one.\<close>

context protocol
begin

lemma run_to_rest: "typeInv Q s \<Longrightarrow> \<exists>as s'. q_run Q as s = Some s' \<and> stuck Q s'"
proof (induction "work_left Q s" arbitrary: s rule: less_induct)
  case less
  show ?case
  proof (cases "stuck Q s")
    case True
    then show ?thesis by (intro exI [of _ "[]"]) simp
  next
    case False
    then obtain a where a: "q_guard Q s a" by (auto simp: stuck_def)
    obtain as s' where "q_run Q as (q_effect Q a s) = Some s'" "stuck Q s'"
      using less.hyps [OF work_step [OF less.prems a] typeInv_step [OF less.prems guard_untimed [OF a]]] by blast
    with a have "q_run Q (a # as) s = Some s' \<and> stuck Q s'" by simp
    then show ?thesis by blast
  qed
qed

lemma fair_behaviour_exists: "\<exists>\<sigma>. q_behaviour Q \<sigma> \<and> honestFairness Q \<sigma>"
proof -
  have "typeInv Q q_init" using structure_init by (simp add: invStructure_def)
  then obtain as s where "q_run Q as q_init = Some s" "stuck Q s" using run_to_rest by blast
  then show ?thesis using run_then_rest_behaviour run_then_rest_fair by blast
qed

end

end
