(* ===== verification/Quint_Sample.thy ===== *)
theory Quint_Sample
  imports Quint_Honest
begin

text \<open>
  The Quint model run on its own three parties: the swap in which all are honest, up to the point where only time can
  pass and then to the end.
\<close>

section \<open>The honest swap of three\<close>

definition abc_list :: "abc list" where
  "abc_list = [A, B, C]"

definition abc_pairs :: "(abc \<times> abc) list" where
  "abc_pairs = List.product abc_list abc_list"

definition honest_moves :: "abc qaction list" where
  "honest_moves =
     map Config abc_list @ map (\<lambda>p. SendAdaptorPointTo p {A, B, C} {}) abc_list @
     map AdaptorBroadcastAdvance abc_list @ map (\<lambda>p. SendKeyTo p {A, B, C} {}) abc_list @
     map Key1Advance abc_list @ map (\<lambda>p. SendNonceTo p {A, B, C} {}) abc_list @ map Key2Advance abc_list @
     map (\<lambda>d. SendTAggTo d {A, B, C} {}) abc_list @ map (\<lambda>(p, d). SendPreSig p d) abc_pairs @
     map Key3Advance abc_list @ map (\<lambda>(q, d). SendCoSig q d) abc_pairs @ map SignInTxAdvance abc_list @
     map Lock abc_list @ map AdvanceToClaim abc_list @ map (\<lambda>p. SendSecretTo p {A, B, C} {}) [B, C] @
     [Trigger, Claim B, Claim C, FinalizeClaims] @ map ConfirmClaim abc_list"

definition honest_end :: "abc qaction list" where
  "honest_end = honest_moves @ map OpenNextWindow [C, B, A]"

definition swap_done :: "abc qstate" where
  "swap_done = the (q_run qnt_parameters honest_moves q_init)"

definition swap_rests :: "abc qstate" where
  "swap_rests = the (q_run qnt_parameters honest_end q_init)"

lemma honest_moves_run: "q_run qnt_parameters honest_moves q_init = Some swap_done"
proof -
  have "q_run qnt_parameters honest_moves q_init \<noteq> None" by code_simp
  then show ?thesis by (auto simp: swap_done_def)
qed

lemma done_quiet: "noOtherActionEnabled qnt_parameters swap_done" "openWindows swap_done = {}"
  by code_simp+

lemma honest_end_run: "q_run qnt_parameters honest_end q_init = Some swap_rests"
proof -
  have "q_run qnt_parameters honest_end q_init \<noteq> None" by code_simp
  then show ?thesis by (auto simp: swap_rests_def)
qed

lemma rests_stuck: "stuck qnt_parameters swap_rests"
proof (rule stuck_if [OF three_parties])
  show "noOtherActionEnabled qnt_parameters swap_rests" by code_simp
  show "PARTIES qnt_parameters \<subseteq> openWindows swap_rests" by code_simp
qed

lemma three_honest: "HONEST qnt_parameters = PARTIES qnt_parameters" "windowsOrdered qnt_parameters"
  by code_simp+

interpretation three_full: honest_protocol qnt_parameters
  by unfold_locales (rule three_honest)+

interpretation three_done: quiet qnt_parameters swap_done
proof unfold_locales
  have r: "q_reachable qnt_parameters (0 + length honest_moves) swap_done"
    by (rule run_reachable [OF q_reachable.start honest_moves_run])
  show "invStructure qnt_parameters swap_done" by (rule three.reachable_structure [OF r])
  show "invTime qnt_parameters swap_done" by (rule three.time_reachable [OF r])
  show "honestInboxes qnt_parameters swap_done"
    using three_full.honest_run_reachable [OF r] by (simp add: invHonestRun_def)
qed (rule done_quiet)+

end
