(* ===== verification/Quint_Code.thy ===== *)
theory Quint_Code
  imports Quint_Sample Cycle
begin

text \<open>
  The Quint model with the parameters of a session of the daemon: its participants, its leader, the transfers that
  the targets say, and the refund windows that the code computes. What the model assumes of its windows,
  the code provides.
\<close>

section \<open>The parameters of a session\<close>

text \<open>The participant that claims what \<open>d\<close> deposits: the one whose target is \<open>d\<close>.\<close>

definition claimant_of :: "participants \<Rightarrow> participant_id \<Rightarrow> participant_id" where
  "claimant_of ps d = (case find (\<lambda>k. next_of ps k = d) (bt_keys ps) of None \<Rightarrow> d | Some k \<Rightarrow> k)"

definition window_of :: "bool \<Rightarrow> session \<Rightarrow> participant_id \<Rightarrow> int" where
  "window_of ov s k = (case refund_locktime_btc ov s k of Inl _ \<Rightarrow> 0 | Inr w \<Rightarrow> int (unat w))"

definition session_protocol ::
  "bool \<Rightarrow> session \<Rightarrow> participant_id \<Rightarrow> participant_id set \<Rightarrow> int \<Rightarrow> participant_id qparams" where
  "session_protocol ov s l honest reorgs =
     \<lparr>PARTIES = members (participants s), LEADER = l, HONEST = honest,
      TRANSFERS = claimant_of (participants s), INVTRANSFERS = next_of (participants s),
      WINDOWS = window_of ov s, DELTA = int (btc_hop s), MAX_REORGS = reorgs\<rparr>"

lemma session_protocol_simps [simp]:
  "PARTIES (session_protocol ov s l H R) = members (participants s)" "LEADER (session_protocol ov s l H R) = l"
  "HONEST (session_protocol ov s l H R) = H" "MAX_REORGS (session_protocol ov s l H R) = R"
  "WINDOWS (session_protocol ov s l H R) = window_of ov s" "DELTA (session_protocol ov s l H R) = int (btc_hop s)"
  "senderOf (session_protocol ov s l H R) k = next_of (participants s) k"
  "recipientOf (session_protocol ov s l H R) k = claimant_of (participants s) k"
  by (simp_all add: session_protocol_def senderOf_def recipientOf_def)

section \<open>A cycle is a permutation\<close>

lemma next_inj:
  assumes "single_cycle ps"
  shows "inj_on (next_of ps) (members ps)"
proof (rule finite_surj_inj)
  show "members ps \<subseteq> next_of ps ` members ps"
  proof
    fix b assume b: "b \<in> members ps"
    then have "next_of ps b \<in> members ps" by (rule next_member [OF assms])
    then obtain i where "(next_of ps ^^ i) (next_of ps b) = b" using assms b by (auto simp: single_cycle_def)
    then have "next_of ps ((next_of ps ^^ i) b) = b" by (simp add: funpow_swap1)
    moreover have "(next_of ps ^^ i) b \<in> members ps"
      by (rule iterate_member [OF single_cycle_closed [OF assms] b])
    ultimately show "b \<in> next_of ps ` members ps" by force
  qed
qed simp

lemma claimant_member:
  assumes "single_cycle ps" and "d \<in> members ps"
  shows "claimant_of ps d \<in> members ps \<and> next_of ps (claimant_of ps d) = d"
proof -
  have "next_of ps ` members ps = members ps"
    using assms(1) next_inj [OF assms(1)] by (intro endo_inj_surj) (auto simp: single_cycle_def targets_closed_def)
  then obtain k where "k \<in> members ps" "next_of ps k = d" using assms(2) by (metis imageE)
  then have "find (\<lambda>k. next_of ps k = d) (bt_keys ps) \<noteq> None" by (auto simp: find_None_iff)
  then obtain j where j: "find (\<lambda>k. next_of ps k = d) (bt_keys ps) = Some j" by blast
  then have "j \<in> members ps" "next_of ps j = d" by (auto simp: find_Some_iff in_set_conv_nth)
  then show ?thesis using j by (simp add: claimant_of_def)
qed

lemma claimant_next: "single_cycle ps \<Longrightarrow> k \<in> members ps \<Longrightarrow> claimant_of ps (next_of ps k) = k"
  using claimant_member [of ps "next_of ps k"] next_member [of ps k] next_inj [of ps]
  by (metis inj_onD)

lemma session_parameters_ok:
  assumes "led_cycle s l" and "H \<subseteq> members (participants s)" and "0 \<le> R"
  shows "parameters_ok (session_protocol ov s l H R)"
  using assms claimant_member claimant_next next_member
  by (auto simp: parameters_ok_def led_cycle_def)

section \<open>The windows of the code are ordered\<close>

lemma window_steps:
  assumes "led_cycle s l" and "btc_in_range s" and "steps_to (participants s) l k d"
  shows "window_of ov s k = int (unat (start_block s)) + int d * int (btc_hop s)"
  using locktime_btc_exact [OF assms, of ov] by (auto simp: window_of_def)

lemma session_windows_ordered:
  assumes led: "led_cycle s l" and rng: "btc_in_range s" and w: "0 < refund_window_secs s"
    and two: "1 < length (participants s)"
  shows "windowsOrdered (session_protocol ov s l H R)"
proof -
  let ?ps = "participants s"
  have hop: "0 < int (btc_hop s)"
    using w by (simp add: btc_hop_def word_less_nat_alt div_greater_zero_iff)
  have sc: "single_cycle ?ps" using led by (simp add: led_cycle_def)
  have ne: "?ps \<noteq> []" using two by auto
  have l: "steps_to ?ps l l (length ?ps)"
    using led ne single_cycle_full by (intro steps_to_leader) (auto simp: led_cycle_def)
  have "if r = l then window_of ov s (next_of ?ps r) < window_of ov s l
      else window_of ov s (next_of ?ps r) = window_of ov s r + int (btc_hop s)" if r: "r \<in> members ?ps" for r
  proof (cases "r = l")
    case True
    have "int 1 * int (btc_hop s) < int (length ?ps) * int (btc_hop s)"
      using hop two by (intro mult_strict_right_mono) simp_all
    then show ?thesis
      using True window_steps [OF led rng l, of ov] window_steps [OF led rng steps_to_next_leader [OF ne], of ov] by simp
  next
    case False
    obtain d where d: "steps_to ?ps l r d" "steps_to ?ps l (next_of ?ps r) (Suc d)"
      using led_cycle_steps [OF led r False] .
    then show ?thesis
      using False window_steps [OF led rng d(1), of ov] window_steps [OF led rng d(2), of ov] by (simp add: algebra_simps)
  qed
  then show ?thesis
    using claimant_member [OF sc] hop unfolding windowsOrdered_def Let_def
    by (intro ballI) (smt (verit) session_protocol_simps)
qed

lemma session_honest_protocol:
  assumes "led_cycle s l" and "btc_in_range s" and "0 < refund_window_secs s" and "1 < length (participants s)"
    and "0 \<le> R"
  shows "honest_protocol (session_protocol ov s l (members (participants s)) R)"
  using session_parameters_ok [OF assms(1) _ assms(5), of "members (participants s)" ov]
    session_windows_ordered [OF assms(1-4), of ov]
  by unfold_locales simp_all

lemma ring3_honest: "honest_protocol (session_protocol ov ring3_session 2 (members ring3) 1)"
  using session_honest_protocol [OF ring3_led ring3_ranges(1), of 1 ov] by (simp add: ring3_length)

interpretation ring3_swap: honest_protocol "session_protocol True ring3_session 2 (members ring3) 1"
  by (rule ring3_honest)

end
