(* ===== verification/Start_Up.thy ===== *)
theory Start_Up
  imports Runtime
begin

text \<open>
  \<open>src/swap-daemon/src/test_utils.rs\<close>, the constructors of keys, participants and sessions that the
  binaries and the tests share, and \<open>src/swap-daemon/src/main.rs\<close>, which makes a daemon of them and
  runs it. Generating keys is a parameter: the crates' maps from bytes to secret keys and from
  these to public keys.
\<close>

section \<open>Keys\<close>

record key_gen =
  sec_of :: "bytes \<Rightarrow> seckey option"
  pub_of :: "seckey \<Rightarrow> pubkey"
  verifying_of :: "bytes \<Rightarrow> bytes"

definition make_swap_keys :: "key_gen \<Rightarrow> env \<Rightarrow> swap_keys act" where
  "make_swap_keys G E =
     bind (random_bytes E 32) (\<lambda>bs.
     bind (lift (unwrap (sec_of G bs))) (\<lambda>sk.
     bind (random_bytes E 32) (\<lambda>ed25519_bytes.
     ret \<lparr>secret_key = sk, public_key = pub_of G sk, wallet_secret_key = ed25519_bytes,
          wallet_public_key = verifying_of G ed25519_bytes\<rparr>)))"

fun make_keys :: "key_gen \<Rightarrow> env \<Rightarrow> nat \<Rightarrow> swap_keys list act" where
  "make_keys G E 0 = ret []"
| "make_keys G E (Suc n) = bind (make_swap_keys G E) (\<lambda>k. bind (make_keys G E n) (\<lambda>ks. ret (k # ks)))"

definition make_pubkeys :: "key_gen \<Rightarrow> env \<Rightarrow> nat \<Rightarrow> (swap_keys list \<times> pubkey list) act" where
  "make_pubkeys G E n = bind (make_keys G E n) (\<lambda>keys. ret (keys, map public_key keys))"

definition make_seed :: "env \<Rightarrow> bytes act" where
  "make_seed E = random_bytes E 32"

section \<open>Participants\<close>

text \<open>The format \<open>{id:02}\<close>.\<close>

definition two_digits :: "u8 \<Rightarrow> string" where
  "two_digits i = (let s = show_nat (unat i) in if length s < 2 then CHR ''0'' # s else s)"

definition sample_txid :: string where
  "sample_txid = ''a1b2c3d4e5f6a1b2c3d4e5f6a1b2c3d4e5f6a1b2c3d4e5f6a1b2c3d4e5f6a1b2''"

definition make_participant :: "key_gen \<Rightarrow> env \<Rightarrow> u8 \<Rightarrow> bool \<Rightarrow> participant act" where
  "make_participant G E i me =
     bind (random_bytes E 32) (\<lambda>bs.
     bind (lift (unwrap (sec_of G bs))) (\<lambda>sk.
     ret \<lparr>p_id = i, blockchain = Bitcoin, tcp_address = ''127.0.0.1:90'' @ two_digits i,
          target_participant = (if i = 1 then 2 else 1), amount_locking = 100, amount_claiming = 100,
          is_me = me, secp256k1_public_key = pk_to_string (musig E) (pub_of G sk), p_wallet_public_key = [],
          funding_utxo_txid = sample_txid, funding_utxo_vout = 0\<rparr>))"

definition make_participants :: "key_gen \<Rightarrow> env \<Rightarrow> participants act" where
  "make_participants G E =
     bind (make_participant G E 1 True) (\<lambda>p1.
     bind (make_participant G E 2 False) (\<lambda>p2.
     ret (bt_insert 2 p2 (bt_insert 1 p1 []))))"

definition make_session :: "key_gen \<Rightarrow> env \<Rightarrow> session_id \<Rightarrow> session act" where
  "make_session G E sid = bind (make_participants G E) (\<lambda>ps. session_new E sid ps 0 0 5000 2000000)"

definition make_participant_with_key :: "env \<Rightarrow> u8 \<Rightarrow> bool \<Rightarrow> pubkey \<Rightarrow> participant" where
  "make_participant_with_key E i me pk =
     \<lparr>p_id = i, blockchain = Bitcoin, tcp_address = ''127.0.0.1:91'' @ two_digits i,
      target_participant = (if i = 1 then 2 else 1), amount_locking = 100, amount_claiming = 100,
      is_me = me, secp256k1_public_key = pk_to_string (musig E) pk, p_wallet_public_key = [],
      funding_utxo_txid = sample_txid, funding_utxo_vout = 0\<rparr>"

text \<open>The ids count from one and wrap at 256.\<close>

fun participants_loop :: "env \<Rightarrow> nat \<Rightarrow> nat \<Rightarrow> swap_keys list \<Rightarrow> participants \<Rightarrow> participants" where
  "participants_loop E me n [] ps = ps"
| "participants_loop E me n (key # keys) ps =
     (let i = of_nat (n + 1) in
      participants_loop E me (Suc n) keys
        (bt_insert i (make_participant_with_key E i (n = me) (public_key key)) ps))"

definition make_participants_from :: "env \<Rightarrow> swap_keys list \<Rightarrow> nat \<Rightarrow> participants" where
  "make_participants_from E keys me = participants_loop E me 0 keys []"

section \<open>The program\<close>

definition main_participant :: "env \<Rightarrow> u8 \<Rightarrow> u8 \<Rightarrow> bool \<Rightarrow> string \<Rightarrow> pubkey \<Rightarrow> participant" where
  "main_participant E i tgt me addr pk =
     \<lparr>p_id = i, blockchain = Bitcoin, tcp_address = addr, target_participant = tgt, amount_locking = 100000,
      amount_claiming = 100000, is_me = me, secp256k1_public_key = pk_to_string (musig E) pk,
      p_wallet_public_key = [], funding_utxo_txid = sample_txid, funding_utxo_vout = 0\<rparr>"

text \<open>The daemon that \<open>main\<close> runs, with the value of the variable that holds the key of the indexer.\<close>

definition main_daemon :: "key_gen \<Rightarrow> env \<Rightarrow> string option \<Rightarrow> daemon act" where
  "main_daemon G E api_key_var =
     bind (make_swap_keys G E) (\<lambda>keys.
     let d = daemon_new keys (config_testnet api_key_var ''127.0.0.1:9000'');
         ps = bt_insert 1 (main_participant E 1 2 True ''127.0.0.1:9001'' (public_key keys)) [] in
     bind (make_swap_keys G E) (\<lambda>other.
     let ps' = bt_insert 2 (main_participant E 2 1 False ''127.0.0.1:9002'' (public_key other)) ps in
     bind (session_new E 1 ps' 0 0 5000 2000000) (\<lambda>s.
     ret (insert_session s d))))"

definition main_run :: "key_gen \<Rightarrow> env \<Rightarrow> string option \<Rightarrow> bool \<Rightarrow> runtime option act" where
  "main_run G E api_key_var bound =
     bind (main_daemon G E api_key_var) (\<lambda>d t. (Inr (run_start bound False d t), t))"

text \<open>The binaries that print a new address: of the wallet key for the test networks of Cardano, and of the
  public key alone for Bitcoin's regression test network. The address format of Bitcoin is a parameter.\<close>

definition generate_bitcoin_address ::
  "key_gen \<Rightarrow> env \<Rightarrow> (bytes \<Rightarrow> string) \<Rightarrow> (swap_keys \<times> string) act" where
  "generate_bitcoin_address G E p2tr_regtest =
     bind (make_swap_keys G E) (\<lambda>keys.
     bind (lift (unwrap (xonly_from_slice (btc E) (tl (pk_serialize (musig E) (public_key keys)))))) (\<lambda>xonly.
     ret (keys, p2tr_regtest xonly)))"

definition generate_cardano_address :: "key_gen \<Rightarrow> env \<Rightarrow> (swap_keys \<times> string) act" where
  "generate_cardano_address G E =
     bind (make_swap_keys G E) (\<lambda>keys.
     bind (lift (unwrap (key_enterprise_address (csl E) CARDANO_TESTNET (wallet_public_key keys)))) (\<lambda>address.
     bind (lift (unwrap (address_to_bech32 (csl E) address))) (\<lambda>bech32.
     ret (keys, bech32))))"

section \<open>What they make\<close>

definition points_at_first :: "participants \<Rightarrow> bool" where
  "points_at_first ps \<longleftrightarrow> (\<forall>k p. bt_get ps k = Some p \<longrightarrow> p_id p = k \<and> target_participant p = (if k = 1 then 2 else 1))"

lemma participants_loop_spec:
  "bt_ok ps \<Longrightarrow> points_at_first ps \<Longrightarrow>
   bt_ok (participants_loop E me n keys ps) \<and> points_at_first (participants_loop E me n keys ps) \<and>
   members (participants_loop E me n keys ps) = members ps \<union> (\<lambda>j. of_nat (j + 1)) ` {n ..< n + length keys}"
proof (induction E me n keys ps rule: participants_loop.induct)
  case (2 E me n key keys ps)
  let ?i = "of_nat (n + 1) :: u8"
  let ?ps = "bt_insert ?i (make_participant_with_key E ?i (n = me) (public_key key)) ps"
  have "bt_ok ?ps" using 2(2) by simp
  moreover have "points_at_first ?ps"
    using 2(3) unfolding points_at_first_def by (simp add: make_participant_with_key_def)
  ultimately have ih: "bt_ok (participants_loop E me (Suc n) keys ?ps) \<and>
      points_at_first (participants_loop E me (Suc n) keys ?ps) \<and>
      members (participants_loop E me (Suc n) keys ?ps) =
        members ?ps \<union> (\<lambda>j. of_nat (j + 1)) ` {Suc n ..< Suc n + length keys}"
    using 2(1) [OF refl] by blast
  have "{n ..< n + length (key # keys)} = insert n {Suc n ..< Suc n + length keys}" by auto
  then have "(\<lambda>j. of_nat (j + 1) :: u8) ` {n ..< n + length (key # keys)} =
      insert ?i ((\<lambda>j. of_nat (j + 1)) ` {Suc n ..< Suc n + length keys})" by simp
  then show ?case using ih unfolding participants_loop.simps Let_def set_bt_keys_insert by (simp only:) blast
qed simp

lemma make_participants_from_spec:
  "bt_ok (make_participants_from E keys me) \<and> points_at_first (make_participants_from E keys me) \<and>
   members (make_participants_from E keys me) = (\<lambda>j. of_nat (j + 1)) ` {..< length keys}"
  using participants_loop_spec [of "[]" E me 0 keys]
  by (simp add: make_participants_from_def bt_ok_def points_at_first_def bt_get_def bt_keys_def atLeast0LessThan)

text \<open>Everyone but the first claims from the first.\<close>

lemma points_at_first_next: "points_at_first ps \<Longrightarrow> k \<in> members ps \<Longrightarrow> next_of ps k = (if k = 1 then 2 else 1)"
  using bt_keys_get [of k ps] by (auto simp: points_at_first_def next_of_def)

lemma points_at_first_orbit:
  assumes "points_at_first ps" "1 \<in> members ps" "2 \<in> members ps"
  shows "(next_of ps ^^ i) 1 = (if even i then 1 else 2)"
  by (induction i) (simp_all add: points_at_first_next [OF assms(1)] assms(2,3))

lemma points_at_first_cyclic:
  assumes "bt_ok ps" "points_at_first ps"
  shows "check_cyclic ps = Inr (members ps = {1, 2})"
proof -
  have "target_participant p \<noteq> p_id p" if "(k, p) \<in> set ps" for k p
  proof -
    have "p_id p = k \<and> target_participant p = (if k = 1 then 2 else 1)"
      using assms(2) bt_ok_entry [OF assms(1) that] by (auto simp: points_at_first_def)
    then show ?thesis by simp
  qed
  then have "no_self_target ps" by (auto simp: no_self_target_def bt_values_def)
  moreover have "members ps = {1, 2}" if c: "single_cycle ps"
  proof -
    have ne: "members ps \<noteq> {}" and closed: "\<And>k. k \<in> members ps \<Longrightarrow> next_of ps k \<in> members ps"
      using c by (auto simp: single_cycle_def targets_closed_def bt_keys_def)
    from ne obtain k where "k \<in> members ps" by (metis ex_in_conv)
    then have "next_of ps k \<in> members ps" "next_of ps k = (if k = 1 then 2 else 1)"
      using closed points_at_first_next [OF assms(2)] by blast+
    then have "1 \<in> members ps \<or> 2 \<in> members ps" by (cases "k = 1") simp_all
    moreover have "2 \<in> members ps" if "1 \<in> members ps"
      using closed [OF that] points_at_first_next [OF assms(2) that] by simp
    moreover have "1 \<in> members ps" if "2 \<in> members ps"
      using closed [OF that] points_at_first_next [OF assms(2) that] by simp
    ultimately have m: "1 \<in> members ps" "2 \<in> members ps" by blast+
    have "b \<in> {1, 2}" if "b \<in> members ps" for b
      using c m(1) that points_at_first_orbit [OF assms(2) m] by (auto simp: single_cycle_def split: if_splits) metis
    then show ?thesis using m by auto
  qed
  moreover have "single_cycle ps" if m: "members ps = {1, 2}"
  proof -
    have n: "next_of ps 1 = 2" "next_of ps 2 = 1" using points_at_first_next [OF assms(2)] m by simp_all
    have "\<exists>i. (next_of ps ^^ i) a = b" if "a \<in> {1, 2}" "b \<in> {1, 2}" for a b
      using that n by (auto intro: exI [of _ 0] exI [of _ 1])
    then show ?thesis using m n by (auto simp: single_cycle_def targets_closed_def bt_keys_def)
  qed
  ultimately show ?thesis using check_cyclic_spec [OF assms(1)] by auto
qed

text \<open>
  The participants made for a list of keys form a swap only when there are two of them. Whatever the
  keys and whoever is marked as oneself, \<open>check_cyclic\<close> accepts them exactly when there are two keys: from
  three on, all but the first claim from the first.
\<close>

theorem make_participants_from_cyclic:
  "check_cyclic (make_participants_from E keys me) = Inr (length keys = 2)"
proof -
  let ?f = "\<lambda>j. of_nat (j + 1) :: u8"
  have m: "members (make_participants_from E keys me) = ?f ` {..< length keys}" (is "?M = _")
    using make_participants_from_spec [of E keys me] by blast
  have "?M = {1, 2} \<longleftrightarrow> length keys = 2"
  proof
    assume "length keys = 2"
    then show "?M = {1, 2}" by (simp add: m lessThan_nat_numeral numeral_2_eq_2 lessThan_Suc insert_commute)
  next
    assume e: "?M = {1, 2}"
    consider "length keys = 0" | "length keys = 1" | "length keys = 2" | "2 < length keys" by linarith
    then show "length keys = 2"
    proof cases
      case 4
      then have "?f 2 \<in> ?M" unfolding m by blast
      then show ?thesis using e by simp
    qed (use e m in \<open>auto simp: lessThan_Suc\<close>)
  qed
  then show ?thesis using points_at_first_cyclic make_participants_from_spec [of E keys me] by auto
qed

text \<open>An index out of range is not an error: nobody is marked as oneself.\<close>

lemma participants_loop_nobody:
  "n + length keys \<le> me \<Longrightarrow> \<forall>kp \<in> set ps. \<not> is_me (snd kp) \<Longrightarrow>
   \<forall>kp \<in> set (participants_loop E me n keys ps). \<not> is_me (snd kp)"
proof (induction E me n keys ps rule: participants_loop.induct)
  case (2 E me n key keys ps)
  have ins: "set (bt_insert k v m) \<subseteq> insert (k, v) (set m)" for k :: u8 and v :: participant and m
    by (induction k v m rule: bt_insert.induct) auto
  have "\<forall>kp \<in> set (bt_insert i (make_participant_with_key E i (n = me) pk) ps). \<not> is_me (snd kp)" for i pk
    using 2(2,3) ins [of i "make_participant_with_key E i (n = me) pk" ps]
    by (auto simp: make_participant_with_key_def)
  then show ?case using 2(1) [OF refl] 2(2) by (simp add: Let_def)
qed simp

theorem make_participants_from_nobody:
  assumes "length keys \<le> me"
  shows "List.find is_me (bt_values (make_participants_from E keys me)) = None"
  using participants_loop_nobody [of 0 keys me "[]" E] assms
  by (auto simp: make_participants_from_def find_None_iff bt_values_def)

text \<open>What \<open>main\<close> runs: one session, created and never started, in a daemon that listens on another address
  than the one its peers are given.\<close>

theorem main_runs_unstarted:
  assumes "main_run G E var True t = (Inr (Some r), t')"
  shows "\<exists>s p. hm_get (sessions (served r)) 1 = Some s \<and> state_history s = [Initialized] \<and>
    check_cyclic (participants s) = Inr True \<and> bt_get (participants s) 1 = Some p \<and> is_me p \<and>
    tcp_address p \<noteq> cfg_tcp_address (config (served r)) \<and> \<not> shared r \<and> channel r = []"
proof -
  obtain d where d: "main_daemon G E var t = (Inr d, t')" and r: "run_start True False d t' = Some r"
    using assms by (auto simp: main_run_def bind_def split: prod.splits sum.splits)
  have bind_Inr: "bind m f u = (Inr y, u') \<longleftrightarrow> (\<exists>x u1. m u = (Inr x, u1) \<and> f x u1 = (Inr y, u'))"
    for m :: "'a act" and f :: "'a \<Rightarrow> 'b act" and u y u'
    by (auto simp: bind_def split: prod.splits sum.splits)
  obtain keys u1 other u2 s where s: "session_new E 1 (bt_insert 2
        (main_participant E 2 1 False ''127.0.0.1:9002'' (public_key other))
        (bt_insert 1 (main_participant E 1 2 True ''127.0.0.1:9001'' (public_key keys)) [])) 0 0 5000 2000000 u2 =
      (Inr s, t')"
    and d': "d = insert_session s (daemon_new keys (config_testnet var ''127.0.0.1:9000''))"
    and "make_swap_keys G E t = (Inr keys, u1)" "make_swap_keys G E u1 = (Inr other, u2)"
    using d unfolding main_daemon_def Let_def bind_Inr by (auto simp: ret_def)
  from session_new_fields(1) [OF s] session_new_fields(3) [OF s] d' r show ?thesis
    by (auto simp: run_start_def insert_session_def session_literal_def main_participant_def config_testnet_def
        bt_get_def daemon_new_def)
qed

end
