(* ===== verification/Unit_Tests.thy ===== *)
theory Unit_Tests
  imports Start_Up System_Props
begin

text \<open>
  The unit tests that the source keeps beside its functions, for those that do without a running chain and
  without the concrete curve: of \<open>utils.rs\<close>, \<open>leader_election.rs\<close>, \<open>networking.rs\<close> and \<open>chain_monitor.rs\<close>. A test
  is a definition whose value is whether its assertions hold; the model passes all of them, those that need an
  environment in every environment with what the test relies on.
\<close>

section \<open>\<open>utils.rs\<close>\<close>

definition utils_participant :: "u8 \<Rightarrow> u8 \<Rightarrow> participant" where
  "utils_participant i target =
     \<lparr>p_id = i, blockchain = Bitcoin, tcp_address = ''127.0.0.1:91'' @ two_digits i, target_participant = target,
      amount_locking = 100, amount_claiming = 100, is_me = (i = 1),
      secp256k1_public_key = ''0279be667ef9dcbbac55a06295ce870b07029bfcdb2dce28d959f2815b16f81798'',
      p_wallet_public_key = [], funding_utxo_txid = sample_txid, funding_utxo_vout = 0\<rparr>"

fun utils_participants :: "(u8 \<times> u8) list \<Rightarrow> participants \<Rightarrow> participants" where
  "utils_participants [] ps = ps"
| "utils_participants ((i, target) # rest) ps = utils_participants rest (bt_insert i (utils_participant i target) ps)"

definition make_session_with_leader :: "env \<Rightarrow> participant_id \<Rightarrow> session act" where
  "make_session_with_leader E l =
     bind (session_new E 1 (utils_participants [(1, 2), (2, 3), (3, 1)] []) 100 5000000 5000 2000000)
       (\<lambda>s. ret (s\<lparr>leader := Some l\<rparr>))"

definition make_four_party_session_with_leader :: "env \<Rightarrow> participant_id \<Rightarrow> session act" where
  "make_four_party_session_with_leader E l =
     bind (session_new E 1 (utils_participants [(1, 2), (2, 3), (3, 4), (4, 1)] []) 100 5000000 5000 2000000)
       (\<lambda>s. ret (s\<lparr>leader := Some l\<rparr>))"

definition valid_cycle_two_participants :: bool where
  "valid_cycle_two_participants \<longleftrightarrow> check_cyclic (utils_participants [(1, 2), (2, 1)] []) = Inr True"

definition valid_cycle_three_participants :: bool where
  "valid_cycle_three_participants \<longleftrightarrow> check_cyclic (utils_participants [(1, 2), (2, 3), (3, 1)] []) = Inr True"

definition invalid_sub_cycle :: bool where
  "invalid_sub_cycle \<longleftrightarrow> check_cyclic (utils_participants [(1, 2), (2, 1), (3, 1)] []) = Inr False"

definition invalid_self_loop :: bool where
  "invalid_self_loop \<longleftrightarrow> check_cyclic (utils_participants [(1, 1), (2, 1)] []) = Inr False"

definition invalid_missing_receiver :: bool where
  "invalid_missing_receiver \<longleftrightarrow> check_cyclic (utils_participants [(1, 2), (2, 99)] []) = Inr False"

definition invalid_empty :: bool where
  "invalid_empty \<longleftrightarrow> check_cyclic [] = Inr False"

text \<open>The expected locktimes, computed as the tests do.\<close>

definition btc_windows :: "session \<Rightarrow> nat \<Rightarrow> u32" where
  "btc_windows s n = start_block s + of_nat n * ucast ((refund_window_secs s + 599) div 600)"

definition cardano_windows :: "session \<Rightarrow> nat \<Rightarrow> u64" where
  "cardano_windows s n = start_slot s + of_nat n * refund_window_secs s"

definition btc_locktimes_are :: "bool \<Rightarrow> session \<Rightarrow> (participant_id \<times> nat) list \<Rightarrow> bool" where
  "btc_locktimes_are ov s kns \<longleftrightarrow> list_all (\<lambda>(k, n). refund_locktime_btc ov s k = Inr (btc_windows s n)) kns"

definition cardano_locktimes_are :: "bool \<Rightarrow> session \<Rightarrow> (participant_id \<times> nat) list \<Rightarrow> bool" where
  "cardano_locktimes_are ov s kns \<longleftrightarrow> list_all (\<lambda>(k, n). refund_locktime_cardano ov s k = Inr (cardano_windows s n)) kns"

definition btc_locktimes_non_default_leader :: "env \<Rightarrow> bool act" where
  "btc_locktimes_non_default_leader E = bind (make_session_with_leader E 2)
     (\<lambda>s. ret (btc_locktimes_are (overflow_checks E) s [(3, 1), (1, 2), (2, 3)]))"

definition cardano_locktimes_non_default_leader :: "env \<Rightarrow> bool act" where
  "cardano_locktimes_non_default_leader E = bind (make_session_with_leader E 2)
     (\<lambda>s. ret (cardano_locktimes_are (overflow_checks E) s [(3, 1), (1, 2), (2, 3)]))"

definition four_party_btc_locktimes_are_multiples_of_window :: "env \<Rightarrow> bool act" where
  "four_party_btc_locktimes_are_multiples_of_window E = bind (make_four_party_session_with_leader E 1)
     (\<lambda>s. ret (btc_locktimes_are (overflow_checks E) s [(2, 1), (3, 2), (4, 3), (1, 4)]))"

definition four_party_cardano_locktimes_are_multiples_of_window :: "env \<Rightarrow> bool act" where
  "four_party_cardano_locktimes_are_multiples_of_window E = bind (make_four_party_session_with_leader E 1)
     (\<lambda>s. ret (cardano_locktimes_are (overflow_checks E) s [(2, 1), (3, 2), (4, 3), (1, 4)]))"

definition btc_locktimes_are_multiples_of_window :: "env \<Rightarrow> bool act" where
  "btc_locktimes_are_multiples_of_window E = bind (make_session_with_leader E 1)
     (\<lambda>s. ret (btc_locktimes_are (overflow_checks E) s [(2, 1), (3, 2), (1, 3)]))"

definition cardano_locktimes_are_multiples_of_window :: "env \<Rightarrow> bool act" where
  "cardano_locktimes_are_multiples_of_window E = bind (make_session_with_leader E 1)
     (\<lambda>s. ret (cardano_locktimes_are (overflow_checks E) s [(2, 1), (3, 2), (1, 3)]))"

definition leader_has_longest_window :: "env \<Rightarrow> bool act" where
  "leader_has_longest_window E = bind (make_session_with_leader E 1) (\<lambda>s.
     let ov = overflow_checks E in
     bind (lift (refund_locktime_btc ov s 1)) (\<lambda>b1. bind (lift (refund_locktime_btc ov s 3)) (\<lambda>b3.
     bind (lift (refund_locktime_btc ov s 2)) (\<lambda>b2. bind (lift (refund_locktime_cardano ov s 1)) (\<lambda>c1.
     bind (lift (refund_locktime_cardano ov s 3)) (\<lambda>c3. bind (lift (refund_locktime_cardano ov s 2)) (\<lambda>c2.
     ret (b1 > b3 \<and> b3 > b2 \<and> c1 > c3 \<and> c3 > c2))))))))"

text \<open>A test passes when it returns true: no assertion fails and nothing panics.\<close>

definition passes :: "bool act \<Rightarrow> trace \<Rightarrow> bool" where
  "passes m t \<longleftrightarrow> (\<exists>t'. m t = (Inr True, t'))"

lemma bind_Inr: "bind m f t = (Inr y, t') \<longleftrightarrow> (\<exists>x u. m t = (Inr x, u) \<and> f x u = (Inr y, t'))"
  by (auto simp: bind_def split: prod.splits sum.splits)

lemma passes_ret [simp]: "passes (ret b) t \<longleftrightarrow> b"
  by (simp add: passes_def ret_def bind_def)

lemma passes_bind:
  "passes (bind m f) t \<longleftrightarrow> (case m t of (Inl p, t1) \<Rightarrow> False | (Inr x, t1) \<Rightarrow> passes (f x) t1)"
  by (simp add: passes_def bind_def split: prod.split sum.split)

lemma cyclic_tests_pass:
  "valid_cycle_two_participants" "valid_cycle_three_participants" "invalid_sub_cycle" "invalid_self_loop"
  "invalid_missing_receiver" "invalid_empty"
  by code_simp+

text \<open>The locktimes depend on the few fields of a session that the constructors of the tests set.\<close>

definition three_led :: "participant_id \<Rightarrow> session" where
  "three_led l = (session_literal 1 (utils_participants [(1, 2), (2, 3), (3, 1)] []) 100 5000000 5000 2000000 [] [])
     \<lparr>leader := Some l\<rparr>"

definition four_led :: "participant_id \<Rightarrow> session" where
  "four_led l = (session_literal 1 (utils_participants [(1, 2), (2, 3), (3, 4), (4, 1)] []) 100 5000000 5000 2000000 [] [])
     \<lparr>leader := Some l\<rparr>"

definition same_schedule :: "session \<Rightarrow> session \<Rightarrow> bool" where
  "same_schedule s s' \<longleftrightarrow> participants s = participants s' \<and> leader s = leader s' \<and> start_block s = start_block s' \<and>
     start_slot s = start_slot s' \<and> refund_window_secs s = refund_window_secs s'"

lemma schedule_locktimes:
  assumes "same_schedule s s'"
  shows "refund_locktime_btc ov s = refund_locktime_btc ov s'" "refund_locktime_cardano ov s = refund_locktime_cardano ov s'"
    "btc_windows s = btc_windows s'" "cardano_windows s = cardano_windows s'"
  using assms by (auto simp: same_schedule_def refund_locktime_btc_def refund_locktime_cardano_def
      btc_windows_def cardano_windows_def fun_eq_iff)

lemma made_sessions:
  "make_session_with_leader E l t = (Inr s, t') \<Longrightarrow> same_schedule s (three_led l)"
  "make_four_party_session_with_leader E l t = (Inr s, t') \<Longrightarrow> same_schedule s (four_led l)"
  unfolding make_session_with_leader_def make_four_party_session_with_leader_def bind_Inr three_led_def four_led_def
  by (auto dest!: session_new_fields(3) simp: ret_def same_schedule_def session_literal_def)

lemma expected_locktimes:
  "btc_locktimes_are ov (three_led 2) [(3, 1), (1, 2), (2, 3)]"
  "cardano_locktimes_are ov (three_led 2) [(3, 1), (1, 2), (2, 3)]"
  "btc_locktimes_are ov (four_led 1) [(2, 1), (3, 2), (4, 3), (1, 4)]"
  "cardano_locktimes_are ov (four_led 1) [(2, 1), (3, 2), (4, 3), (1, 4)]"
  "btc_locktimes_are ov (three_led 1) [(2, 1), (3, 2), (1, 3)]"
  "cardano_locktimes_are ov (three_led 1) [(2, 1), (3, 2), (1, 3)]"
  by (cases ov; (simp only:)?; code_simp)+

lemma expected_order:
  "\<exists>b1 b2 b3. refund_locktime_btc ov (three_led 1) 1 = Inr b1 \<and> refund_locktime_btc ov (three_led 1) 2 = Inr b2 \<and>
     refund_locktime_btc ov (three_led 1) 3 = Inr b3 \<and> b1 > b3 \<and> b3 > b2"
  "\<exists>c1 c2 c3. refund_locktime_cardano ov (three_led 1) 1 = Inr c1 \<and> refund_locktime_cardano ov (three_led 1) 2 = Inr c2 \<and>
     refund_locktime_cardano ov (three_led 1) 3 = Inr c3 \<and> c1 > c3 \<and> c3 > c2"
  using expected_locktimes(5,6) [of ov]
  by (auto simp: btc_locktimes_are_def cardano_locktimes_are_def btc_windows_def cardano_windows_def three_led_def
      session_literal_def)

theorem locktime_tests_pass:
  assumes "make_session_with_leader E 2 t = (Inr s2, t2)"
    and "make_session_with_leader E 1 t = (Inr s1, t1)"
    and "make_four_party_session_with_leader E 1 t = (Inr s4, t4)"
  shows "passes (btc_locktimes_non_default_leader E) t" "passes (cardano_locktimes_non_default_leader E) t"
    "passes (four_party_btc_locktimes_are_multiples_of_window E) t"
    "passes (four_party_cardano_locktimes_are_multiples_of_window E) t"
    "passes (btc_locktimes_are_multiples_of_window E) t" "passes (cardano_locktimes_are_multiples_of_window E) t"
    "passes (leader_has_longest_window E) t"
proof -
  note two = schedule_locktimes [OF made_sessions(1) [OF assms(1)]]
  note one = schedule_locktimes [OF made_sessions(1) [OF assms(2)]]
  note four = schedule_locktimes [OF made_sessions(2) [OF assms(3)]]
  note simps = btc_locktimes_are_def cardano_locktimes_are_def
  show "passes (btc_locktimes_non_default_leader E) t" "passes (cardano_locktimes_non_default_leader E) t"
    unfolding btc_locktimes_non_default_leader_def cardano_locktimes_non_default_leader_def
    using expected_locktimes(1,2) [of "overflow_checks E"] by (simp_all add: passes_bind assms(1) simps two)
  show "passes (four_party_btc_locktimes_are_multiples_of_window E) t"
    "passes (four_party_cardano_locktimes_are_multiples_of_window E) t"
    unfolding four_party_btc_locktimes_are_multiples_of_window_def four_party_cardano_locktimes_are_multiples_of_window_def
    using expected_locktimes(3,4) [of "overflow_checks E"] by (simp_all add: passes_bind assms(3) simps four)
  show "passes (btc_locktimes_are_multiples_of_window E) t" "passes (cardano_locktimes_are_multiples_of_window E) t"
    unfolding btc_locktimes_are_multiples_of_window_def cardano_locktimes_are_multiples_of_window_def
    using expected_locktimes(5,6) [of "overflow_checks E"] by (simp_all add: passes_bind assms(2) simps one)
  show "passes (leader_has_longest_window E) t"
    unfolding leader_has_longest_window_def Let_def
    using expected_order [of "overflow_checks E"] by (auto simp: passes_bind assms(2) one lift_def)
qed

section \<open>\<open>leader_election.rs\<close>\<close>

text \<open>Each takes a session of the shared constructor; byte arrays as the tests write them.\<close>

definition bytes32 :: "u8 \<Rightarrow> bytes" where
  "bytes32 b = replicate 32 b"

definition start_leader_election_sets_my_nonce_and_commitment :: "key_gen \<Rightarrow> env \<Rightarrow> bool act" where
  "start_leader_election_sets_my_nonce_and_commitment G E =
     bind (make_session G E 42) (\<lambda>s.
     bind (start_leader_election E s) (\<lambda>s'.
     bind (lift (get_my_id (participants s'))) (\<lambda>me_id.
     bind (lift (unwrap (bt_get (leader_nonces s') me_id))) (\<lambda>nonce.
     bind (lift (unwrap (bt_get (leader_commitments s') me_id))) (\<lambda>commitment.
     ret (sha256 E nonce = commitment))))))"

definition received_leader_commitment_sets_commitment_for_participant :: "key_gen \<Rightarrow> env \<Rightarrow> bool act" where
  "received_leader_commitment_sets_commitment_for_participant G E =
     bind (make_session G E 42) (\<lambda>s.
     let s' = received_leader_commitment s (bytes32 7) 2 in
     ret (bt_get (leader_commitments s') 2 = Some (bytes32 7)))"

definition received_leader_commitment_stores_commitment_for_participant :: "key_gen \<Rightarrow> env \<Rightarrow> bool act" where
  "received_leader_commitment_stores_commitment_for_participant G E =
     bind (make_session G E 42) (\<lambda>s.
     let s' = received_leader_commitment s (bytes32 7) 2 in
     ret (bt_get (leader_commitments s') 2 = Some (bytes32 7)))"

definition received_leader_nonce_sets_nonce_for_participant :: "key_gen \<Rightarrow> env \<Rightarrow> bool act" where
  "received_leader_nonce_sets_nonce_for_participant G E =
     bind (make_session G E 42) (\<lambda>s.
     let nonce = bytes32 5;
         s1 = s\<lparr>leader_commitments := bt_insert 2 (sha256 E nonce) (leader_commitments s)\<rparr> in
     bind (lift (received_leader_nonce E s1 nonce 2)) (\<lambda>s2.
     ret (bt_get (leader_nonces s2) 2 = Some nonce)))"

definition received_leader_nonce_stores_nonce_for_participant :: "key_gen \<Rightarrow> env \<Rightarrow> bool act" where
  "received_leader_nonce_stores_nonce_for_participant G E =
     bind (make_session G E 42) (\<lambda>s.
     let my_nonce = bytes32 1;
         s1 = s\<lparr>leader_nonces := bt_insert 1 my_nonce (leader_nonces s),
                leader_commitments := bt_insert 1 (sha256 E my_nonce) (leader_commitments s)\<rparr>;
         other_nonce = bytes32 5;
         s2 = s1\<lparr>leader_commitments := bt_insert 2 (sha256 E other_nonce) (leader_commitments s1)\<rparr> in
     bind (lift (received_leader_nonce E s2 other_nonce 2)) (\<lambda>s3.
     ret (bt_get (leader_nonces s3) 2 = Some other_nonce)))"

text \<open>\<open>should_panic\<close> with the expected message.\<close>

definition received_leader_nonce_panics_if_nonce_does_not_match_commitment :: "key_gen \<Rightarrow> env \<Rightarrow> bool act" where
  "received_leader_nonce_panics_if_nonce_does_not_match_commitment G E =
     bind (make_session G E 42) (\<lambda>s.
     let s1 = s\<lparr>leader_commitments := bt_insert 2 (bytes32 1) (leader_commitments s)\<rparr> in
     ret (case received_leader_nonce E s1 (bytes32 2) 2 of
            Inl p \<Rightarrow> p = PanicMsg ''Nonce invalid with commitment'' | Inr _ \<Rightarrow> False))"

definition compute_leader_marks_exactly_one_leader :: "key_gen \<Rightarrow> env \<Rightarrow> bool act" where
  "compute_leader_marks_exactly_one_leader G E =
     bind (make_session G E 42) (\<lambda>s.
     let s1 = s\<lparr>leader_nonces := bt_insert 2 (bytes32 2) (bt_insert 1 (bytes32 1) (leader_nonces s))\<rparr> in
     bind (lift (compute_leader E s1)) (\<lambda>s2. ret (leader s2 \<noteq> None)))"

definition leader_index_is_within_bounds :: bool where
  "leader_index_is_within_bounds \<longleftrightarrow>
     list_all (\<lambda>n. case leader_index (bytes32 3) n of Inl _ \<Rightarrow> False | Inr idx \<Rightarrow> idx < n) [1 ..< 10]"

lemma leader_index_test_passes: leader_index_is_within_bounds
  by code_simp

lemma made_session_fields:
  assumes "make_session G E sid t = (Inr s, t1)"
  shows "get_my_id (participants s) = Inr 1" "bt_keys (participants s) = [1, 2]" "sess_id s = sid"
    "\<exists>i me. find_me (participants s) = Some (i, me) \<and> hm_contains (adaptor_points s) (p_id me)"
  using assms unfolding make_session_def make_participants_def make_participant_def bind_Inr
  by (auto dest!: session_new_fields(3) simp: ret_def lift_def session_literal_def get_my_id_def bt_values_def bt_keys_def hm_contains_def expect_def)

theorem leader_election_tests_pass:
  assumes s: "make_session G E 42 t = (Inr s, t1)" and hash: "\<And>b. length (sha256 E b) = 32"
    and no_collision: "sha256 E (bytes32 2) \<noteq> bytes32 1"
  shows "passes (start_leader_election_sets_my_nonce_and_commitment G E) t"
    "passes (received_leader_commitment_sets_commitment_for_participant G E) t"
    "passes (received_leader_commitment_stores_commitment_for_participant G E) t"
    "passes (received_leader_nonce_sets_nonce_for_participant G E) t"
    "passes (received_leader_nonce_stores_nonce_for_participant G E) t"
    "passes (received_leader_nonce_panics_if_nonce_does_not_match_commitment G E) t"
    "passes (compute_leader_marks_exactly_one_leader G E) t"
proof -
  note id = made_session_fields(1) [OF s] and keys = made_session_fields(2) [OF s]
  obtain nonce pool t' where "start_leader_election E s t1 =
      (Inr (s\<lparr>leader_nonces := bt_insert 1 nonce (leader_nonces s),
         leader_commitments := bt_insert 1 (sha256 E nonce) (leader_commitments s), connection_pool := pool\<rparr>), t')"
    using wp_start_leader_election [OF id, of E t1] by (auto simp: wp_def split: prod.splits sum.splits)
  then show "passes (start_leader_election_sets_my_nonce_and_commitment G E) t"
    unfolding start_leader_election_sets_my_nonce_and_commitment_def by (simp add: passes_bind s id lift_def unwrap_def)
  show "passes (received_leader_commitment_sets_commitment_for_participant G E) t"
    "passes (received_leader_commitment_stores_commitment_for_participant G E) t"
    unfolding received_leader_commitment_sets_commitment_for_participant_def
      received_leader_commitment_stores_commitment_for_participant_def
    by (simp_all add: passes_bind s received_leader_commitment_def)
  show "passes (received_leader_nonce_sets_nonce_for_participant G E) t"
    "passes (received_leader_nonce_stores_nonce_for_participant G E) t"
    "passes (received_leader_nonce_panics_if_nonce_does_not_match_commitment G E) t"
    unfolding received_leader_nonce_sets_nonce_for_participant_def
      received_leader_nonce_stores_nonce_for_participant_def
      received_leader_nonce_panics_if_nonce_does_not_match_commitment_def
    using no_collision by (simp_all add: passes_bind s received_leader_nonce_def expect_def lift_def Let_def)
  have "participants s \<noteq> []" using keys by (auto simp: bt_keys_def)
  then show "passes (compute_leader_marks_exactly_one_leader G E) t"
    using compute_leader_picks [OF hash, of "s\<lparr>leader_nonces := bt_insert 2 (bytes32 2) (bt_insert 1 (bytes32 1) (leader_nonces s))\<rparr>"]
    unfolding compute_leader_marks_exactly_one_leader_def by (auto simp: passes_bind s lift_def Let_def)
qed

section \<open>\<open>daemon.rs\<close>\<close>

definition tests_daemon :: "key_gen \<Rightarrow> env \<Rightarrow> string option \<Rightarrow> daemon act" where
  "tests_daemon G E api_key_var = bind (make_swap_keys G E) (\<lambda>keys.
     ret (daemon_new keys (config_testnet api_key_var ''127.0.0.1:9000'')))"

definition start_swap_session_returns_error_for_missing_session :: "key_gen \<Rightarrow> env \<Rightarrow> string option \<Rightarrow> bool act" where
  "start_swap_session_returns_error_for_missing_session G E api_key_var =
     bind (tests_daemon G E api_key_var) (\<lambda>d.
     bind (start_swap_session E d 999) (\<lambda>(ok, d'). ret (\<not> ok)))"

definition start_swap_session_returns_ok_for_existing_session :: "key_gen \<Rightarrow> env \<Rightarrow> string option \<Rightarrow> bool act" where
  "start_swap_session_returns_ok_for_existing_session G E api_key_var =
     bind (tests_daemon G E api_key_var) (\<lambda>d.
     bind (make_session G E 42) (\<lambda>s.
     bind (start_swap_session E (insert_session s d) 42) (\<lambda>(ok, d').
     ret (ok \<and> hm_contains (sessions d') 42))))"

theorem missing_session_test_passes:
  assumes "tests_daemon G E k t = (Inr d, t1)"
  shows "passes (start_swap_session_returns_error_for_missing_session G E k) t"
proof -
  have "sessions d = []"
    using assms by (auto simp: tests_daemon_def bind_Inr ret_def daemon_new_def)
  then show ?thesis
    unfolding start_swap_session_returns_error_for_missing_session_def
    by (simp add: passes_bind assms start_swap_session_def ret_def)
qed

text \<open>The requests that validate the funding outputs return, whatever they are answered.\<close>

lemma returns_bind: "wp m (\<lambda>_ _. False) (\<lambda>_ _. True) t \<Longrightarrow> (\<And>x u. wp (f x) (\<lambda>_ _. False) (\<lambda>_ _. True) u) \<Longrightarrow>
    wp (bind m f) (\<lambda>_ _. False) (\<lambda>_ _. True) t"
  unfolding wp_bind by (erule wp_mono) auto

lemma validate_returns:
  "cardano_network cfg = CarPreprod \<Longrightarrow> wp (validate_funding_utxos E s cfg) (\<lambda>_ _. False) (\<lambda>_ _. True) t"
proof -
  assume n: "cardano_network cfg = CarPreprod"
  have "wp (validate_participant_utxo E cfg p) (\<lambda>_ _. False) (\<lambda>_ _. True) u" for p u
    by (auto simp: validate_participant_utxo_def validate_bitcoin_utxo_def validate_cardano_utxo_blockfrost_def n
        http_get_def http_get_key_def Let_def wp_simps split: blockchain.splits option.splits)
  then have "wp (validate_utxos_loop E cfg ps) (\<lambda>_ _. False) (\<lambda>_ _. True) u" for ps u
    by (induction ps arbitrary: u) (auto simp: wp_ret intro!: returns_bind)
  then show ?thesis by (simp add: validate_funding_utxos_def)
qed

theorem existing_session_test_passes:
  assumes d: "tests_daemon G E k t = (Inr d, t1)" and s: "make_session G E 42 t1 = (Inr s, t2)"
  shows "passes (start_swap_session_returns_ok_for_existing_session G E k) t"
proof -
  have "cardano_network (config d) = CarPreprod"
    using d by (auto simp: tests_daemon_def bind_Inr ret_def daemon_new_def config_testnet_def)
  then obtain valid t3 where v: "validate_funding_utxos E s (config d) t2 = (Inr valid, t3)"
    using validate_returns [of "config d" E s t2] by (auto simp: wp_def split: prod.splits sum.splits)
  obtain p me where me: "find_me (participants s) = Some (p, me)" "hm_contains (adaptor_points s) (p_id me)"
    using made_session_fields(4) [OF s] by blast
  have "\<exists>s' t4. broadcast_adaptor_point E s t3 = (Inr s', t4)"
    using me announce_returns [of E s p _ t3]
    by (fastforce simp: broadcast_adaptor_point_def bind_def lift_def get_my_id_def hm_contains_def expect_def)
  then obtain s' t4 where b: "broadcast_adaptor_point E s t3 = (Inr s', t4)" by blast
  have "sess_id s = 42" by (rule made_session_fields(3) [OF s])
  moreover have "validate_utxos (config d)"
    using d by (auto simp: tests_daemon_def bind_Inr ret_def daemon_new_def config_testnet_def)
  ultimately show ?thesis
    unfolding start_swap_session_returns_ok_for_existing_session_def
    by (auto simp: passes_bind d s start_swap_session_def insert_session_def put_session_def v b hm_contains_def
        bind_def ret_def Let_def)
qed

section \<open>\<open>networking.rs\<close>\<close>

definition nonce_envelope :: "session_id \<Rightarrow> participant_id \<Rightarrow> string \<Rightarrow> envelope" where
  "nonce_envelope sid pid n = \<lparr>env_session_id = sid, env_participant_id = pid, env_msg = SchnorrNonce (Refund 1) n\<rparr>"

text \<open>\<open>serde_json::to_string\<close> is the text of \<open>to_vec\<close>.\<close>

definition parse_envelope_from_json :: "env \<Rightarrow> bool" where
  "parse_envelope_from_json E \<longleftrightarrow>
     (let v = nonce_envelope 42 7 ''abc123'' in
      case serde_to_vec E v of None \<Rightarrow> False | Some b \<Rightarrow> parse_envelope E (text_of b) = Some v)"

definition envelope_json_round_trip_secret_reveal :: "env \<Rightarrow> bool" where
  "envelope_json_round_trip_secret_reveal E \<longleftrightarrow>
     (let v = \<lparr>env_session_id = 99, env_participant_id = 3, env_msg = SecretReveal ''secret''\<rparr> in
      case serde_to_vec E v of None \<Rightarrow> False | Some b \<Rightarrow> serde_from_str E (text_of b) = Some v)"

text \<open>The first event of the channel, from the bytes of a connection.\<close>

definition first_event_is :: "daemon_event list \<times> bool \<Rightarrow> envelope \<Rightarrow> bool" where
  "first_event_is r v \<longleftrightarrow> (case fst r of PeerMessage v' sender # _ \<Rightarrow> v' = v \<and> sender \<noteq> [] | _ \<Rightarrow> False)"

definition handle_connection_emits_peer_message_event_from_json_line :: "env \<Rightarrow> string \<Rightarrow> bool" where
  "handle_connection_emits_peer_message_event_from_json_line E peer_addr \<longleftrightarrow>
     (let expected = nonce_envelope 42 7 ''abc123'' in
      case serde_to_vec E expected of
        None \<Rightarrow> False
      | Some payload \<Rightarrow>
          let r = handle_connection E peer_addr (payload @ [10]) True in first_event_is r expected \<and> snd r)"

text \<open>The listener reads what the broadcast wrote to its address.\<close>

definition broadcast_sends_json_line :: "env \<Rightarrow> address \<Rightarrow> bool act" where
  "broadcast_sends_json_line E addr =
     (let v = nonce_envelope 5 2 ''deadbeef'' in
      bind (broadcast E [addr] v new_connection_pool) (\<lambda>(ok, pool) t.
        ret (ok \<and> (case fst (lines_from [] (written_to addr t)) of
               line # _ \<Rightarrow> serde_from_str E (trim (text_of line)) = Some v | [] \<Rightarrow> False)) t))"

definition broadcast_and_handle_connection_work_together :: "env \<Rightarrow> address \<Rightarrow> string \<Rightarrow> bool act" where
  "broadcast_and_handle_connection_work_together E addr peer_addr =
     (let expected = nonce_envelope 123 9 ''hello-world'' in
      bind (broadcast E [addr] expected new_connection_pool) (\<lambda>(ok, pool) t.
        ret (ok \<and> first_event_is (handle_connection E peer_addr (written_to addr t) True) expected) t))"

text \<open>The listener is up, and nothing was written to it before.\<close>

lemma broadcast_to_listener:
  assumes "\<And>t a. connect_answer E t a" "\<And>t a b. write_answer E t a b" "serde_to_vec E v = Some b"
  shows "\<exists>new. broadcast E [addr] v new_connection_pool t = (Inr (True, {addr}), new @ t) \<and> written_to addr new = b @ [10]"
  using io_fold_send_written [OF assms(1,2), of "[addr]" v "b @ [10]" "{}" t]
  by (fastforce simp: broadcast_def assms(3) new_connection_pool_def bind_def ret_def)

theorem networking_tests_pass:
  assumes laws: "\<And>v. reads_back E v" "\<And>v b. serde_to_vec E v = Some b \<Longrightarrow> trim (text_of b) = text_of b"
    and up: "\<And>t a. connect_answer E t a" "\<And>t a b. write_answer E t a b"
    and fresh: "written_to addr t = []" and peer: "peer_addr \<noteq> []"
  shows "parse_envelope_from_json E" "envelope_json_round_trip_secret_reveal E"
    "handle_connection_emits_peer_message_event_from_json_line E peer_addr"
    "passes (broadcast_sends_json_line E addr) t"
    "passes (broadcast_and_handle_connection_work_together E addr peer_addr) t"
proof -
  have vec: "\<exists>b. serde_to_vec E v = Some b \<and> serde_from_str E (text_of b) = Some v \<and> 10 \<notin> set b \<and> drop_cr b = b \<and>
      trim (text_of b) = text_of b" for v
    using laws [of v] by (auto simp: reads_back_def split: option.splits)
  show "parse_envelope_from_json E" "envelope_json_round_trip_secret_reveal E"
    using vec [of "nonce_envelope 42 7 ''abc123''"]
      vec [of "\<lparr>env_session_id = 99, env_participant_id = 3, env_msg = SecretReveal ''secret''\<rparr>"]
    by (auto simp: parse_envelope_from_json_def envelope_json_round_trip_secret_reveal_def parse_envelope_def)
  obtain b where "serde_to_vec E (nonce_envelope 42 7 ''abc123'') = Some b" using vec by blast
  then show "handle_connection_emits_peer_message_event_from_json_line E peer_addr"
    using framed_read_back [OF laws(1)] peer
    by (simp add: handle_connection_emits_peer_message_event_from_json_line_def Let_def first_event_is_def)
  let ?v = "nonce_envelope 5 2 ''deadbeef''"
  obtain b where b: "serde_to_vec E ?v = Some b" "serde_from_str E (text_of b) = Some ?v" "10 \<notin> set b"
    "drop_cr b = b" "trim (text_of b) = text_of b" using vec by blast
  obtain new where "broadcast E [addr] ?v new_connection_pool t = (Inr (True, {addr}), new @ t)"
    "written_to addr new = b @ [10]" using broadcast_to_listener [OF up b(1)] by blast
  then show "passes (broadcast_sends_json_line E addr) t"
    using lines_from_line [OF b(3), of "[]" "[]"]
    by (simp add: broadcast_sends_json_line_def Let_def passes_bind fresh b passes_def ret_def bind_def)
  let ?w = "nonce_envelope 123 9 ''hello-world''"
  obtain c where c: "serde_to_vec E ?w = Some c" using vec by blast
  obtain new where "broadcast E [addr] ?w new_connection_pool t = (Inr (True, {addr}), new @ t)"
    "written_to addr new = c @ [10]" using broadcast_to_listener [OF up c] by blast
  then show "passes (broadcast_and_handle_connection_work_together E addr peer_addr) t"
    using framed_read_back [OF laws(1) c] peer
    by (simp add: broadcast_and_handle_connection_work_together_def Let_def passes_bind fresh passes_def ret_def bind_def
        first_event_is_def)
qed

section \<open>\<open>chain_monitor.rs\<close>\<close>

text \<open>The dummy transaction, with the null output point and the largest sequence number, and the answer
  of the mocked indexer, which the only request of the function under test gets.\<close>

definition null_out_point :: out_point where
  "null_out_point = \<lparr>op_txid = replicate 64 (CHR ''0''), op_vout = 0xFFFFFFFF\<rparr>"

definition dummy_tx :: "u64 \<Rightarrow> btc_tx" where
  "dummy_tx sats = \<lparr>tx_version = 2, lock_time = 0,
     tx_input = [\<lparr>previous_output = null_out_point, script_sig = [], sequence = 0xFFFFFFFF, witness = []\<rparr>],
     tx_output = [\<lparr>out_value = sats, script_pubkey = []\<rparr>]\<rparr>"

definition make_dummy_bitcoin_tx :: "env \<Rightarrow> hex_string" where
  "make_dummy_bitcoin_tx E = btc_serialize_hex (btc E) (dummy_tx 1000)"

definition mocked :: "env \<Rightarrow> bool \<Rightarrow> env" where
  "mocked E confirmed = E\<lparr>net_answer := \<lambda>t rq.
     Some \<lparr>rs_success = True, rs_text = None, rs_json = Some (JObject [(''confirmed'', JBool confirmed)])\<rparr>\<rparr>"

definition bitcoin_confirmed_returns_true_when_api_says_confirmed :: "env \<Rightarrow> string \<Rightarrow> bool act" where
  "bitcoin_confirmed_returns_true_when_api_says_confirmed E uri =
     check_bitcoin_confirmed_with_url (mocked E True) (make_dummy_bitcoin_tx E) uri"

definition bitcoin_confirmed_returns_false_when_api_says_unconfirmed :: "env \<Rightarrow> string \<Rightarrow> bool act" where
  "bitcoin_confirmed_returns_false_when_api_says_unconfirmed E uri =
     bind (check_bitcoin_confirmed_with_url (mocked E False) (make_dummy_bitcoin_tx E) uri) (\<lambda>result. ret (\<not> result))"

definition bitcoin_confirmed_returns_false_on_network_error :: "env \<Rightarrow> bool act" where
  "bitcoin_confirmed_returns_false_on_network_error E =
     bind (check_bitcoin_confirmed_with_url (E\<lparr>net_answer := \<lambda>t rq. None\<rparr>) (make_dummy_bitcoin_tx E) ''http://127.0.0.1:1'')
       (\<lambda>result. ret (\<not> result))"

definition check_lock_tx_confirmed_inserts_participant_when_confirmed :: "key_gen \<Rightarrow> env \<Rightarrow> string \<Rightarrow> bool act" where
  "check_lock_tx_confirmed_inserts_participant_when_confirmed G E uri =
     bind (make_session G E 1) (\<lambda>s0.
     let s = s0\<lparr>lock_txs := hm_insert 1 (make_dummy_bitcoin_tx E) (lock_txs s0)\<rparr> in
     if 1 \<in> confirmed_lock_txs s then ret False
     else
       bind (lift (unwrap (hm_get (lock_txs s) 1))) (\<lambda>lock_tx_hex.
       bind (check_bitcoin_confirmed_with_url (mocked E True) lock_tx_hex uri) (\<lambda>_.
       let s' = s\<lparr>confirmed_lock_txs := insert 1 (confirmed_lock_txs s)\<rparr> in
       ret (1 \<in> confirmed_lock_txs s'))))"

definition check_lock_tx_confirmed_does_not_insert_when_unconfirmed :: "env \<Rightarrow> string \<Rightarrow> bool act" where
  "check_lock_tx_confirmed_does_not_insert_when_unconfirmed E uri =
     bind (check_bitcoin_confirmed_with_url (mocked E False) (make_dummy_bitcoin_tx E) uri) (\<lambda>result. ret (\<not> result))"

text \<open>They rely on the crates reading back what they write, and on the accessors of JSON.\<close>

theorem chain_monitor_tests_pass:
  assumes tx: "\<And>tx. btc_deserialize_hex (btc E) (btc_serialize_hex (btc E) tx) = Some tx"
    and acc: "\<And>k v. j_index (json E) (JObject [(k, v)]) k = v" "\<And>b. as_bool (json E) (JBool b) = Some b"
  shows "passes (bitcoin_confirmed_returns_true_when_api_says_confirmed E uri) t"
    "passes (bitcoin_confirmed_returns_false_when_api_says_unconfirmed E uri) t"
    "passes (bitcoin_confirmed_returns_false_on_network_error E) t"
    "make_session G E 1 t = (Inr s, t1) \<Longrightarrow> passes (check_lock_tx_confirmed_inserts_participant_when_confirmed G E uri) t"
    "passes (check_lock_tx_confirmed_does_not_insert_when_unconfirmed E uri) t"
proof -
  have asked: "\<exists>t'. check_bitcoin_confirmed_with_url (mocked E b) (make_dummy_bitcoin_tx E) uri u = (Inr b, t')" for b u
    using acc by (simp add: check_bitcoin_confirmed_with_url_def mocked_def make_dummy_bitcoin_tx_def bitcoin_txid_def tx
        http_get_def http_send_def json_of_def bind_def lift_def ret_def unwrap_def unwrap_or_def Let_def)
  have failed: "\<exists>t'. check_bitcoin_confirmed_with_url (E\<lparr>net_answer := \<lambda>t rq. None\<rparr>) (make_dummy_bitcoin_tx E) url u =
      (Inr False, t')" for url u
    by (simp add: check_bitcoin_confirmed_with_url_def make_dummy_bitcoin_tx_def bitcoin_txid_def tx
        http_get_def http_send_def json_of_def bind_def lift_def ret_def unwrap_def Let_def)
  show "passes (bitcoin_confirmed_returns_true_when_api_says_confirmed E uri) t"
    "passes (bitcoin_confirmed_returns_false_when_api_says_unconfirmed E uri) t"
    "passes (check_lock_tx_confirmed_does_not_insert_when_unconfirmed E uri) t"
    using asked [of True t] asked [of False t]
    by (auto simp: bitcoin_confirmed_returns_true_when_api_says_confirmed_def passes_bind
        bitcoin_confirmed_returns_false_when_api_says_unconfirmed_def
        check_lock_tx_confirmed_does_not_insert_when_unconfirmed_def passes_def ret_def bind_def)
  show "passes (bitcoin_confirmed_returns_false_on_network_error E) t"
    using failed [of "''http://127.0.0.1:1''" t]
    by (auto simp: bitcoin_confirmed_returns_false_on_network_error_def passes_bind passes_def ret_def bind_def)
  show "passes (check_lock_tx_confirmed_inserts_participant_when_confirmed G E uri) t"
    if s: "make_session G E 1 t = (Inr s, t1)"
  proof -
    have "confirmed_lock_txs s = {}"
      using s unfolding make_session_def bind_Inr by (auto dest!: session_new_fields(3) simp: session_literal_def)
    then show ?thesis
      using asked [of True t1] s
      by (auto simp: check_lock_tx_confirmed_inserts_participant_when_confirmed_def passes_bind lift_def unwrap_def
          passes_def ret_def bind_def Let_def)
  qed
qed

end
