(* ===== verification/Tx_Tests.thy ===== *)
theory Tx_Tests
  imports Unit_Tests
begin

text \<open>
  The unit tests of \<open>lock_funds.rs\<close> and \<open>refund.rs\<close>: sessions of two and of three participants on Bitcoin, whose
  lock and refund transactions are built and read back. The model passes them wherever the crates read back the
  transactions they write.
\<close>

section \<open>\<open>lock_funds.rs\<close>\<close>

definition lock_participant ::
  "u8 \<Rightarrow> bool \<Rightarrow> string \<Rightarrow> u8 \<Rightarrow> blockchain \<Rightarrow> string \<Rightarrow> u32 \<Rightarrow> u64 \<Rightarrow> participant" where
  "lock_participant i me pk target chain txid vout amount =
     \<lparr>p_id = i, blockchain = chain, tcp_address = ''127.0.0.1:91'' @ two_digits i, target_participant = target,
      amount_locking = amount, amount_claiming = amount, is_me = me, secp256k1_public_key = pk,
      p_wallet_public_key = [], funding_utxo_txid = txid, funding_utxo_vout = vout\<rparr>"

definition make_signet_config :: daemon_config where
  "make_signet_config =
     \<lparr>cfg_tcp_address = ''127.0.0.1:9000'', bitcoin_network = BtcTestnet4, cardano_network = CarPreprod,
      blockfrost_api_key = [], validate_utxos = False\<rparr>"

text \<open>What the three tests begin with: the keys, two participants that lock these amounts, and the locks.\<close>

definition lock_participants :: "env \<Rightarrow> swap_keys list \<Rightarrow> u64 \<Rightarrow> u64 \<Rightarrow> participants" where
  "lock_participants E keys amount1 amount2 =
     bt_insert 2 (lock_participant 2 False (pk_to_string (musig E) (public_key (keys ! 1))) 1 Bitcoin sample_txid 0 amount2)
       (bt_insert 1 (lock_participant 1 True (pk_to_string (musig E) (public_key (keys ! 0))) 2 Bitcoin sample_txid 0 amount1) [])"

definition with_lock_txs :: "key_gen \<Rightarrow> env \<Rightarrow> u64 \<Rightarrow> u64 \<Rightarrow> session act" where
  "with_lock_txs G E amount1 amount2 =
     bind (make_keys G E 2) (\<lambda>keys.
     bind (session_new E 1 (lock_participants E keys amount1 amount2) 0 0 5000 2000000) (\<lambda>s.
     lift (build_lock_txs E s make_signet_config)))"

definition lock_tx_of :: "env \<Rightarrow> session \<Rightarrow> participant_id \<Rightarrow> btc_tx act" where
  "lock_tx_of E s i =
     bind (lift (unwrap (hm_get (lock_txs s) i))) (\<lambda>h. lift (unwrap (btc_deserialize_hex (btc E) h)))"

definition build_lock_txs_creates_entries_for_all_participants :: "key_gen \<Rightarrow> env \<Rightarrow> bool act" where
  "build_lock_txs_creates_entries_for_all_participants G E =
     bind (with_lock_txs G E 10000 10000) (\<lambda>s.
     ret (length (lock_txs s) = 2 \<and>
          list_all (\<lambda>i. case hm_get (lock_txs s) i of None \<Rightarrow> False | Some h \<Rightarrow> h \<noteq> []) [1, 2]))"

text \<open>Whether a script pays to a taproot key is a function of the crate.\<close>

definition build_lock_txs_bitcoin_output_goes_to_aggregate_address :: "(bytes \<Rightarrow> bool) \<Rightarrow> key_gen \<Rightarrow> env \<Rightarrow> bool act" where
  "build_lock_txs_bitcoin_output_goes_to_aggregate_address is_p2tr G E =
     bind (with_lock_txs G E 10000 10000) (\<lambda>s.
     bind (lock_tx_of E s 1) (\<lambda>lock_tx.
     if length (tx_output lock_tx) \<noteq> 1 then ret False
     else
       bind (lift (index_list (tx_output lock_tx) 0)) (\<lambda>out.
       ret (out_value out = 10000 \<and> is_p2tr (script_pubkey out)))))"

definition build_lock_txs_amount_matches_participant :: "key_gen \<Rightarrow> env \<Rightarrow> bool act" where
  "build_lock_txs_amount_matches_participant G E =
     bind (with_lock_txs G E 50000 75000) (\<lambda>s.
     bind (lock_tx_of E s 1) (\<lambda>tx1. bind (lock_tx_of E s 2) (\<lambda>tx2.
     bind (lift (index_list (tx_output tx1) 0)) (\<lambda>out1. bind (lift (index_list (tx_output tx2) 0)) (\<lambda>out2.
     ret (out_value out1 = 50000 \<and> out_value out2 = 75000))))))"

text \<open>The locks that such a session holds.\<close>

lemma with_lock_txs_built:
  assumes "with_lock_txs G E amount1 amount2 t = (Inr s, t1)"
  shows "\<exists>f xonly. lock_txs s = hm_insert 2 (btc_serialize_hex (btc E) (btc_build_lock_tx E f amount2 (p2tr_script (btc E) xonly NetTestnet)))
    (hm_insert 1 (btc_serialize_hex (btc E) (btc_build_lock_tx E f amount1 (p2tr_script (btc E) xonly NetTestnet))) [])"
proof -
  obtain keys t0 s0 u where "session_new E 1 (lock_participants E keys amount1 amount2) 0 0 5000 2000000 t0 = (Inr s0, u)"
    and b: "build_lock_txs E s0 make_signet_config = Inr s"
    using assms unfolding with_lock_txs_def bind_Inr lift_def by blast
  then have ps: "participants s0 = lock_participants E keys amount1 amount2" and "lock_txs s0 = []"
    by (auto dest!: session_new_fields(3) simp: session_literal_def)
  then show ?thesis
    using b by (auto simp: build_lock_txs_def res_bind_Inr ps lock_participants_def lock_participant_def
        lock_tx_hex_for_def aggregate_address_def make_signet_config_def) blast
qed

theorem lock_funds_tests_pass:
  assumes tx: "\<And>tx. btc_deserialize_hex (btc E) (btc_serialize_hex (btc E) tx) = Some tx"
      "\<And>tx. btc_serialize_hex (btc E) tx \<noteq> []"
    and p2tr: "\<And>key net. is_p2tr (p2tr_script (btc E) key net)"
    and built: "with_lock_txs G E 10000 10000 t = (Inr s, t1)" "with_lock_txs G E 50000 75000 t = (Inr s', t1')"
  shows "passes (build_lock_txs_creates_entries_for_all_participants G E) t"
    "passes (build_lock_txs_bitcoin_output_goes_to_aggregate_address is_p2tr G E) t"
    "passes (build_lock_txs_amount_matches_participant G E) t"
proof -
  note simps = passes_bind built lock_tx_of_def bind_def lift_def ret_def unwrap_def tx btc_build_lock_tx_def index_list_def
  obtain f xonly where s: "lock_txs s = hm_insert 2 (btc_serialize_hex (btc E) (btc_build_lock_tx E f 10000 (p2tr_script (btc E) xonly NetTestnet)))
    (hm_insert 1 (btc_serialize_hex (btc E) (btc_build_lock_tx E f 10000 (p2tr_script (btc E) xonly NetTestnet))) [])"
    using with_lock_txs_built [OF built(1)] by blast
  then have "length (lock_txs s) = 2" by (simp add: hm_insert_def)
  then show "passes (build_lock_txs_creates_entries_for_all_participants G E) t"
    by (simp add: build_lock_txs_creates_entries_for_all_participants_def passes_bind built s tx)
  show "passes (build_lock_txs_bitcoin_output_goes_to_aggregate_address is_p2tr G E) t"
    by (simp add: build_lock_txs_bitcoin_output_goes_to_aggregate_address_def passes_def s p2tr simps)
  obtain f xonly where "lock_txs s' = hm_insert 2 (btc_serialize_hex (btc E) (btc_build_lock_tx E f 75000 (p2tr_script (btc E) xonly NetTestnet)))
    (hm_insert 1 (btc_serialize_hex (btc E) (btc_build_lock_tx E f 50000 (p2tr_script (btc E) xonly NetTestnet))) [])"
    using with_lock_txs_built [OF built(2)] by blast
  then show "passes (build_lock_txs_amount_matches_participant G E) t"
    by (simp add: build_lock_txs_amount_matches_participant_def passes_def simps)
qed

section \<open>\<open>refund.rs\<close>\<close>

definition refund_participant :: "u8 \<Rightarrow> bool \<Rightarrow> string \<Rightarrow> u8 \<Rightarrow> participant" where
  "refund_participant i me pk target =
     \<lparr>p_id = i, blockchain = Bitcoin, tcp_address = ''127.0.0.1:91'' @ two_digits i, target_participant = target,
      amount_locking = 100000, amount_claiming = 100000, is_me = me, secp256k1_public_key = pk,
      p_wallet_public_key = [], funding_utxo_txid = sample_txid, funding_utxo_vout = 0\<rparr>"

definition make_dummy_lock_tx :: "env \<Rightarrow> hex_string" where
  "make_dummy_lock_tx E = btc_serialize_hex (btc E) (dummy_tx 100000)"

definition refund_session :: "env \<Rightarrow> swap_keys list \<Rightarrow> session act" where
  "refund_session E keys =
     (let pk = (\<lambda>n. pk_to_string (musig E) (public_key (keys ! n))) in
      bind (session_new E 1
          (bt_insert 3 (refund_participant 3 False (pk 2) 1)
            (bt_insert 2 (refund_participant 2 False (pk 1) 3)
              (bt_insert 1 (refund_participant 1 True (pk 0) 2) []))) 100 0 5000 2000000) (\<lambda>s.
      let s1 = s\<lparr>leader := Some 1\<rparr> in
      ret (fold (\<lambda>i s. s\<lparr>lock_txs := hm_insert i (make_dummy_lock_tx E) (lock_txs s)\<rparr>) [1, 2, 3] s1)))"

text \<open>What the first four tests begin with.\<close>

definition refund_signing_begun :: "key_gen \<Rightarrow> env \<Rightarrow> session act" where
  "refund_signing_begun G E =
     bind (make_keys G E 3) (\<lambda>keys. bind (refund_session E keys) (\<lambda>s. begin_refund_signing E s (keys ! 0)))"

definition begin_refund_signing_creates_unsigned_txs_for_all_participants :: "key_gen \<Rightarrow> env \<Rightarrow> bool act" where
  "begin_refund_signing_creates_unsigned_txs_for_all_participants G E =
     bind (refund_signing_begun G E) (\<lambda>s.
     ret (list_all (\<lambda>i. hm_contains (unsigned_txs s) (Refund i)) [1, 2, 3]))"

definition begin_refund_signing_creates_musig_sessions_in_round_one :: "key_gen \<Rightarrow> env \<Rightarrow> bool act" where
  "begin_refund_signing_creates_musig_sessions_in_round_one G E =
     bind (refund_signing_begun G E) (\<lambda>s.
     ret (list_all (\<lambda>i. case hm_get (musig_sessions s) (Refund i) of
         Some (RoundOne _ _ _ _ _) \<Rightarrow> True | _ \<Rightarrow> False) [1, 2, 3]))"

definition begin_refund_signing_unsigned_txs_are_nonempty :: "key_gen \<Rightarrow> env \<Rightarrow> bool act" where
  "begin_refund_signing_unsigned_txs_are_nonempty G E =
     bind (refund_signing_begun G E) (\<lambda>s.
     ret (list_all (\<lambda>i. case hm_get (unsigned_txs s) (Refund i) of None \<Rightarrow> False | Some h \<Rightarrow> h \<noteq> []) [1, 2, 3]))"

text \<open>\<open>LockTime::Blocks\<close> is a lock time below the threshold of the timestamps.\<close>

definition begin_refund_signing_uses_staggered_locktimes :: "key_gen \<Rightarrow> env \<Rightarrow> bool act" where
  "begin_refund_signing_uses_staggered_locktimes G E =
     bind (refund_signing_begun G E) (\<lambda>s.
     bind (io_fold (\<lambda>locktimes i.
         bind (lift (unwrap (hm_get (unsigned_txs s) (Refund i)))) (\<lambda>tx_hex.
         bind (lift (unwrap (btc_deserialize_hex (btc E) tx_hex))) (\<lambda>tx.
         ret (if lock_time tx < 500000000 then locktimes @ [lock_time tx] else locktimes)))) [] [1, 2, 3])
       (\<lambda>locktimes. ret (length locktimes = 3 \<and> distinct locktimes)))"

text \<open>\<open>catch_unwind\<close>: the test is whether the call panics.\<close>

definition panics :: "'a act \<Rightarrow> bool act" where
  "panics m t = (case m t of (r, t') \<Rightarrow> (Inr (case r of Inl _ \<Rightarrow> True | Inr _ \<Rightarrow> False), t'))"

definition begin_refund_signing_requires_leader_for_locktime :: "key_gen \<Rightarrow> env \<Rightarrow> bool act" where
  "begin_refund_signing_requires_leader_for_locktime G E =
     bind (make_keys G E 3) (\<lambda>keys. bind (refund_session E keys) (\<lambda>s.
     panics (begin_refund_signing E (s\<lparr>leader := None\<rparr>) (keys ! 0))))"

text \<open>What opening a round does to the session, and one turn of the loop, when they return.\<close>

lemma open_signing_round_result:
  assumes "open_signing_round E keys me pks idx role tweak h m s t = (Inr s', t')"
  shows "\<exists>sn n pool. s' = s\<lparr>unsigned_txs := hm_insert role h (unsigned_txs s),
      schnorr_nonces := hm_insert2 me role (nonce_to_string (musig E) n) (schnorr_nonces s),
      musig_sessions := hm_insert role (RoundOne pks idx m tweak sn) (musig_sessions s), connection_pool := pool\<rparr>"
proof -
  obtain s0 t0 v where "announce E s0 me v t0 = (Inr s', t')"
    and s0: "\<exists>sn n. s0 = s\<lparr>unsigned_txs := hm_insert role h (unsigned_txs s),
      schnorr_nonces := hm_insert2 me role (nonce_to_string (musig E) n) (schnorr_nonces s),
      musig_sessions := hm_insert role (RoundOne pks idx m tweak sn) (musig_sessions s)\<rparr>"
    using assms unfolding open_signing_round_def bind_Inr Let_def by blast
  then obtain pool where "s' = s0\<lparr>connection_pool := pool\<rparr>"
    using announce_returns [of E s0 me v t0] by auto
  then show ?thesis using s0 by auto
qed

lemma refund_step_result:
  assumes "refund_step E keys me pks idx s k t = (Inr s', t')"
  shows "\<exists>p h m tweak sn nonces pool. bt_get (participants s) k = Some p \<and> refund_unsigned E s k p = Inr (h, m) \<and>
    s' = s\<lparr>unsigned_txs := hm_insert (Refund k) h (unsigned_txs s), schnorr_nonces := nonces,
      musig_sessions := hm_insert (Refund k) (RoundOne pks idx m tweak sn) (musig_sessions s), connection_pool := pool\<rparr>"
proof -
  obtain p h m where p: "bt_get (participants s) k = Some p" "refund_unsigned E s k p = Inr (h, m)"
    and opened: "open_signing_round E keys me pks idx (Refund k) (blockchain p = Bitcoin) h m s t = (Inr s', t')"
    using assms by (auto simp: refund_step_def bind_Inr lift_def index_map_def split: option.splits)
  then show ?thesis using open_signing_round_result [OF opened] by blast
qed

text \<open>The lock time of an unsigned refund is the refund locktime of its participant.\<close>

lemma refund_unsigned_btc_result:
  assumes "refund_unsigned_btc E s k p = Inr (h, m)" and "\<And>w. lock_time_from_height (btc E) w = Some w \<or> lock_time_from_height (btc E) w = None"
  shows "\<exists>tx. h = btc_serialize_hex (btc E) tx \<and> refund_locktime_btc (overflow_checks E) s k = Inr (lock_time tx)"
proof -
  obtain lt unsigned_tx q where lt: "refund_locktime_btc (overflow_checks E) s k = Inr lt"
    and u: "btc_build_refund_tx E q p lt (bitcoin_fee s) = Inr unsigned_tx" and h: "h = btc_serialize_hex (btc E) unsigned_tx"
    using assms(1) unfolding refund_unsigned_btc_def res_bind_Inr Let_def by blast
  have "lock_time unsigned_tx = lt"
    using u assms(2) [of lt] by (auto simp: btc_build_refund_tx_def res_bind_Inr)
  then show ?thesis using lt h by blast
qed

lemma refund_session_fields:
  assumes "refund_session E keys t = (Inr s, t1)"
  shows "\<exists>p1 p2 p3. participants s = [(1, p1), (2, p2), (3, p3)] \<and> target_participant p1 = 2 \<and> target_participant p2 = 3 \<and>
      target_participant p3 = 1 \<and> blockchain p1 = Bitcoin \<and> blockchain p2 = Bitcoin \<and> blockchain p3 = Bitcoin"
    "leader s = Some 1" "start_block s = 100" "refund_window_secs s = 604800"
  using assms unfolding refund_session_def Let_def bind_Inr
  by (auto dest!: session_new_fields(3) simp: ret_def session_literal_def refund_participant_def)

text \<open>The three locktimes are one, two and three windows of 1008 blocks after the start.\<close>

lemma refund_session_locktimes:
  assumes "participants s = [(1, p1), (2, p2), (3, p3)]" "target_participant p1 = 2" "target_participant p2 = 3"
    "target_participant p3 = 1" "leader s = Some 1" "start_block s = 100" "refund_window_secs s = 604800"
  shows "refund_locktime_btc ov s 2 = Inr 1108" "refund_locktime_btc ov s 3 = Inr 2116" "refund_locktime_btc ov s 1 = Inr 3124"
proof -
  have "distance_loop (participants s) 2 1 0 = Inr 1" "distance_loop (participants s) 3 1 0 = Inr 2"
    "distance_loop (participants s) 1 1 0 = Inr 3"
    using assms by (simp_all add: distance_loop.simps target_of_def bt_get_def index_map_def)
  then show "refund_locktime_btc ov s 2 = Inr 1108" "refund_locktime_btc ov s 3 = Inr 2116" "refund_locktime_btc ov s 1 = Inr 3124"
    using assms by (simp_all add: refund_locktime_btc_def distance_from_leader_def add_chk_def mul_chk_def expect_def)
qed

lemma refund_signing_begun_result:
  assumes begun: "refund_signing_begun G E t = (Inr s', t')"
    and height: "\<And>w. lock_time_from_height (btc E) w = Some w \<or> lock_time_from_height (btc E) w = None"
  shows "\<exists>tx1 tx2 tx3. unsigned_txs s' = hm_insert (Refund 3) (btc_serialize_hex (btc E) tx3)
      (hm_insert (Refund 2) (btc_serialize_hex (btc E) tx2) (hm_insert (Refund 1) (btc_serialize_hex (btc E) tx1) [])) \<and>
      lock_time tx1 = 3124 \<and> lock_time tx2 = 1108 \<and> lock_time tx3 = 2116"
    "list_all (\<lambda>i. case hm_get (musig_sessions s') (Refund i) of Some (RoundOne _ _ _ _ _) \<Rightarrow> True | _ \<Rightarrow> False) [1, 2, 3]"
proof -
  obtain keys t0 s t1 where s: "refund_session E keys t0 = (Inr s, t1)"
    and run: "begin_refund_signing E s (keys ! 0) t1 = (Inr s', t')"
    using begun unfolding refund_signing_begun_def bind_Inr by blast
  obtain p1 p2 p3 where ps: "participants s = [(1, p1), (2, p2), (3, p3)]" "target_participant p1 = 2"
      "target_participant p2 = 3" "target_participant p3 = 1"
    and btc: "blockchain p1 = Bitcoin" "blockchain p2 = Bitcoin" "blockchain p3 = Bitcoin"
    using refund_session_fields(1) [OF s] by blast
  have "unsigned_txs s = []"
    using s unfolding refund_session_def Let_def bind_Inr
    by (auto dest!: session_new_fields(3) simp: ret_def session_literal_def)
  note locktimes = refund_session_locktimes [OF ps refund_session_fields(2-4) [OF s]]
  obtain me pks idx u s1 u1 s2 u2 where steps: "refund_step E (keys ! 0) me pks idx s 1 u = (Inr s1, u1)"
    "refund_step E (keys ! 0) me pks idx s1 2 u1 = (Inr s2, u2)"
    "refund_step E (keys ! 0) me pks idx s2 3 u2 = (Inr s', t')"
    using run by (auto simp: begin_refund_signing_def Let_def bind_Inr lift_def ret_def ps(1) bt_keys_def)
  have built: "\<exists>tx. h = btc_serialize_hex (btc E) tx \<and> refund_locktime_btc (overflow_checks E) r k = Inr (lock_time tx)"
    if "refund_unsigned E r k p = Inr (h, m)" "blockchain p = Bitcoin" for r k p h m
    using refund_unsigned_btc_result [OF _ height] that by (simp add: refund_unsigned_def)
  have same: "refund_locktime_btc ov r k = refund_locktime_btc ov s k"
    if "participants r = participants s" "leader r = leader s" "start_block r = start_block s"
      "refund_window_secs r = refund_window_secs s" for ov r k
    using that by (simp add: refund_locktime_btc_def)
  obtain h1 m1 tw1 sn1 where 1: "refund_unsigned E s 1 p1 = Inr (h1, m1)"
    "unsigned_txs s1 = hm_insert (Refund 1) h1 (unsigned_txs s)"
    "musig_sessions s1 = hm_insert (Refund 1) (RoundOne pks idx m1 tw1 sn1) (musig_sessions s)"
    "participants s1 = participants s" "leader s1 = leader s" "start_block s1 = start_block s"
    "refund_window_secs s1 = refund_window_secs s"
    using refund_step_result [OF steps(1)] by (auto simp: ps(1) bt_get_def)
  obtain h2 m2 tw2 sn2 where 2: "refund_unsigned E s1 2 p2 = Inr (h2, m2)"
    "unsigned_txs s2 = hm_insert (Refund 2) h2 (unsigned_txs s1)"
    "musig_sessions s2 = hm_insert (Refund 2) (RoundOne pks idx m2 tw2 sn2) (musig_sessions s1)"
    "participants s2 = participants s" "leader s2 = leader s" "start_block s2 = start_block s"
    "refund_window_secs s2 = refund_window_secs s"
    using refund_step_result [OF steps(2)] 1(4-) by (auto simp: ps(1) bt_get_def)
  obtain h3 m3 tw3 sn3 where 3: "refund_unsigned E s2 3 p3 = Inr (h3, m3)"
    "unsigned_txs s' = hm_insert (Refund 3) h3 (unsigned_txs s2)"
    "musig_sessions s' = hm_insert (Refund 3) (RoundOne pks idx m3 tw3 sn3) (musig_sessions s2)"
    using refund_step_result [OF steps(3)] 2(4-) by (auto simp: ps(1) bt_get_def)
  show "list_all (\<lambda>i. case hm_get (musig_sessions s') (Refund i) of Some (RoundOne _ _ _ _ _) \<Rightarrow> True | _ \<Rightarrow> False) [1, 2, 3]"
    by (simp add: 1(3) 2(3) 3(3))
  obtain tx1 where tx1: "h1 = btc_serialize_hex (btc E) tx1" "lock_time tx1 = 3124"
    using built [OF 1(1) btc(1)] locktimes by auto
  obtain tx2 where tx2: "h2 = btc_serialize_hex (btc E) tx2" "lock_time tx2 = 1108"
    using built [OF 2(1) btc(2)] same [OF 1(4-7)] locktimes by auto
  obtain tx3 where tx3: "h3 = btc_serialize_hex (btc E) tx3" "lock_time tx3 = 2116"
    using built [OF 3(1) btc(3)] same [OF 2(4-7)] locktimes by auto
  show "\<exists>tx1 tx2 tx3. unsigned_txs s' = hm_insert (Refund 3) (btc_serialize_hex (btc E) tx3)
      (hm_insert (Refund 2) (btc_serialize_hex (btc E) tx2) (hm_insert (Refund 1) (btc_serialize_hex (btc E) tx1) [])) \<and>
      lock_time tx1 = 3124 \<and> lock_time tx2 = 1108 \<and> lock_time tx3 = 2116"
    using 1(2) 2(2) 3(2) \<open>unsigned_txs s = []\<close> tx1 tx2 tx3 by auto
qed

theorem refund_tests_pass:
  assumes tx: "\<And>tx. btc_deserialize_hex (btc E) (btc_serialize_hex (btc E) tx) = Some tx"
      "\<And>tx. btc_serialize_hex (btc E) tx \<noteq> []"
    and height: "\<And>w. lock_time_from_height (btc E) w = Some w \<or> lock_time_from_height (btc E) w = None"
    and begun: "refund_signing_begun G E t = (Inr s, t1)"
  shows "passes (begin_refund_signing_creates_unsigned_txs_for_all_participants G E) t"
    "passes (begin_refund_signing_creates_musig_sessions_in_round_one G E) t"
    "passes (begin_refund_signing_unsigned_txs_are_nonempty G E) t"
    "passes (begin_refund_signing_uses_staggered_locktimes G E) t"
proof -
  obtain tx1 tx2 tx3 where un: "unsigned_txs s = hm_insert (Refund 3) (btc_serialize_hex (btc E) tx3)
      (hm_insert (Refund 2) (btc_serialize_hex (btc E) tx2) (hm_insert (Refund 1) (btc_serialize_hex (btc E) tx1) []))"
    "lock_time tx1 = 3124" "lock_time tx2 = 1108" "lock_time tx3 = 2116"
    using refund_signing_begun_result(1) [OF begun height] by blast
  show "passes (begin_refund_signing_creates_unsigned_txs_for_all_participants G E) t"
    by (simp add: begin_refund_signing_creates_unsigned_txs_for_all_participants_def passes_bind begun un)
  show "passes (begin_refund_signing_creates_musig_sessions_in_round_one G E) t"
    unfolding begin_refund_signing_creates_musig_sessions_in_round_one_def
    using refund_signing_begun_result(2) [OF begun height] by (simp only: passes_bind begun prod.case sum.case passes_ret)
  show "passes (begin_refund_signing_unsigned_txs_are_nonempty G E) t"
    by (simp add: begin_refund_signing_unsigned_txs_are_nonempty_def passes_bind begun un tx)
  show "passes (begin_refund_signing_uses_staggered_locktimes G E) t"
    by (simp add: begin_refund_signing_uses_staggered_locktimes_def passes_def bind_def begun un tx lift_def ret_def unwrap_def)
qed

text \<open>Without a leader the call panics in every environment.\<close>

theorem refund_leader_test_passes:
  assumes keys: "make_keys G E 3 t = (Inr keys, t0)" and s: "refund_session E keys t0 = (Inr s, t1)"
  shows "passes (begin_refund_signing_requires_leader_for_locktime G E) t"
proof -
  obtain p1 p2 p3 where ps: "participants s = [(1, p1), (2, p2), (3, p3)]" "blockchain p1 = Bitcoin"
    using refund_session_fields(1) [OF s] by blast
  have "begin_refund_signing E (s\<lparr>leader := None\<rparr>) (keys ! 0) t1 \<noteq> (Inr s', t')" for s' t'
  proof
    assume "begin_refund_signing E (s\<lparr>leader := None\<rparr>) (keys ! 0) t1 = (Inr s', t')"
    then obtain me pks idx u s1 u1 where "refund_step E (keys ! 0) me pks idx (s\<lparr>leader := None\<rparr>) 1 u = (Inr s1, u1)"
      by (auto simp: begin_refund_signing_def Let_def bind_Inr lift_def ps(1) bt_keys_def)
    then obtain r where "refund_unsigned E (s\<lparr>leader := None\<rparr>) 1 p1 = Inr r"
      using refund_step_result by (fastforce simp: ps(1) bt_get_def)
    then show False
      by (cases r) (auto simp: refund_unsigned_def ps(2) refund_unsigned_btc_def refund_locktime_btc_def expect_def res_bind_Inr)
  qed
  then have "\<exists>p u. begin_refund_signing E (s\<lparr>leader := None\<rparr>) (keys ! 0) t1 = (Inl p, u)"
    by (metis old.sum.exhaust surj_pair)
  then show ?thesis
    by (auto simp: begin_refund_signing_requires_leader_for_locktime_def passes_bind keys s passes_def panics_def bind_def)
qed

end
