(* ===== verification/Spend_Tests.thy ===== *)
theory Spend_Tests
  imports Tx_Tests
begin

text \<open>
  The unit tests of \<open>spend.rs\<close>: three daemons open the signing of the spends, exchange nonces and partial
  signatures by hand, and the first aggregates and adapts. The tests of one daemon pass wherever the crates read
  back what they write; the runs of three daemons are evaluated in the concrete environment.
\<close>

section \<open>The sessions\<close>

definition test_config :: "string option \<Rightarrow> daemon_config" where
  "test_config api_key_var = config_testnet api_key_var ''127.0.0.1:0''"

definition spend_participant :: "u8 \<Rightarrow> bool \<Rightarrow> string \<Rightarrow> u8 \<Rightarrow> participant" where
  "spend_participant i me pk target =
     \<lparr>p_id = i, blockchain = Bitcoin, tcp_address = ''127.0.0.1:91'' @ two_digits i, target_participant = target,
      amount_locking = 1000000, amount_claiming = 1000000, is_me = me, secp256k1_public_key = pk,
      p_wallet_public_key = [], funding_utxo_txid = sample_txid, funding_utxo_vout = 0\<rparr>"

definition spend_ring :: "env \<Rightarrow> swap_keys list \<Rightarrow> nat \<Rightarrow> participants" where
  "spend_ring E keys me =
     (let pk = (\<lambda>n. pk_to_string (musig E) (public_key (keys ! n))) in
      bt_insert 3 (spend_participant 3 (me = 2) (pk 2) 1)
        (bt_insert 2 (spend_participant 2 (me = 1) (pk 1) 3)
          (bt_insert 1 (spend_participant 1 (me = 0) (pk 0) 2) [])))"

definition add_lock_txs :: "env \<Rightarrow> participant_id list \<Rightarrow> session \<Rightarrow> session" where
  "add_lock_txs E ids s = fold (\<lambda>i s. s\<lparr>lock_txs := hm_insert i (make_dummy_lock_tx E) (lock_txs s)\<rparr>) ids s"

definition make_session_with_lock_txs :: "env \<Rightarrow> swap_keys list \<Rightarrow> session act" where
  "make_session_with_lock_txs E keys =
     bind (session_new E 1 (spend_ring E keys 0) 0 0 5000 2000000) (\<lambda>s.
     ret (add_lock_txs E (bt_keys (participants s)) s))"

text \<open>\<open>Scalar::one()\<close> is a constant of the crate. Everyone's adaptor point is its point, and one's own secret is it.\<close>

definition make_session_with_lock_txs_for :: "env \<Rightarrow> scalar \<Rightarrow> swap_keys list \<Rightarrow> nat \<Rightarrow> session act" where
  "make_session_with_lock_txs_for E one keys me =
     bind (session_new E 1 (spend_ring E keys me) 0 0 5000 2000000) (\<lambda>s.
     bind (io_fold (\<lambda>s i.
         bind (lift (unwrap (base_point_mul (musig E) (Some one)))) (\<lambda>pnt.
         bind (lift (index_map (bt_get (participants s) i))) (\<lambda>p.
         let s1 = s\<lparr>adaptor_points := hm_insert i (point_to_string (musig E) pnt) (adaptor_points s)\<rparr> in
         ret (if is_me p
              then s1\<lparr>adaptor_secrets := hm_insert i (hex_encode E (scalar_serialize (musig E) one)) (adaptor_secrets s1)\<rparr>
              else s1))))
       (s\<lparr>leader := Some 1\<rparr>) [1, 2, 3]) (\<lambda>s1.
     ret (add_lock_txs E [1, 2, 3] s1)))"

definition get_our_nonce :: "session \<Rightarrow> tx_role \<Rightarrow> string res" where
  "get_our_nonce s role =
     res_bind (get_my_id (participants s)) (\<lambda>my_id.
     expect ''expected nonce'' (Option.bind (hm_get (schnorr_nonces s) my_id) (\<lambda>m. hm_get m role)))"

definition get_our_partial_sig :: "session \<Rightarrow> tx_role \<Rightarrow> string res" where
  "get_our_partial_sig s role =
     res_bind (get_my_id (participants s)) (\<lambda>my_id.
     expect ''expected partial sig'' (Option.bind (hm_get (partial_sigs s) my_id) (\<lambda>m. hm_get m role)))"

section \<open>One daemon\<close>

definition spend_signing_begun :: "key_gen \<Rightarrow> env \<Rightarrow> session act" where
  "spend_signing_begun G E =
     bind (make_keys G E 3) (\<lambda>keys.
     bind (make_session_with_lock_txs E keys) (\<lambda>s. begin_spend_signing E s (keys ! 0)))"

definition begin_spend_signing_creates_unsigned_txs_for_all_participants :: "key_gen \<Rightarrow> env \<Rightarrow> bool act" where
  "begin_spend_signing_creates_unsigned_txs_for_all_participants G E =
     bind (spend_signing_begun G E) (\<lambda>s. ret (list_all (\<lambda>i. hm_contains (unsigned_txs s) (Spend i)) [1, 2, 3]))"

definition begin_spend_signing_creates_musig_sessions_for_all_participants :: "key_gen \<Rightarrow> env \<Rightarrow> bool act" where
  "begin_spend_signing_creates_musig_sessions_for_all_participants G E =
     bind (spend_signing_begun G E) (\<lambda>s.
     ret (list_all (\<lambda>i. case hm_get (musig_sessions s) (Spend i) of
         Some (RoundOne _ _ _ _ _) \<Rightarrow> True | _ \<Rightarrow> False) [1, 2, 3]))"

definition begin_spend_signing_stores_our_nonce_in_schnorr_nonces :: "key_gen \<Rightarrow> env \<Rightarrow> bool act" where
  "begin_spend_signing_stores_our_nonce_in_schnorr_nonces G E =
     bind (spend_signing_begun G E) (\<lambda>s.
     ret (list_all (\<lambda>i. case Option.bind (hm_get (schnorr_nonces s) 1) (\<lambda>m. hm_get m (Spend i)) of
         None \<Rightarrow> False | Some n \<Rightarrow> n \<noteq> []) [1, 2, 3]))"

definition begin_spend_signing_uses_target_blockchain :: "key_gen \<Rightarrow> env \<Rightarrow> bool act" where
  "begin_spend_signing_uses_target_blockchain G E =
     bind (spend_signing_begun G E) (\<lambda>s.
     ret (list_all (\<lambda>i. case hm_get (unsigned_txs s) (Spend i) of
         None \<Rightarrow> False | Some h \<Rightarrow> h \<noteq> [] \<and> length h > 10) [1, 2, 3]))"

section \<open>Three daemons\<close>

definition spend_roles :: "tx_role list" where
  "spend_roles = [Spend 1, Spend 2, Spend 3]"

definition with_nonce :: "participant_id \<Rightarrow> tx_role \<Rightarrow> string \<Rightarrow> session \<Rightarrow> session" where
  "with_nonce i role n s = s\<lparr>schnorr_nonces := hm_insert2 i role n (schnorr_nonces s)\<rparr>"

definition with_partial_sig :: "participant_id \<Rightarrow> tx_role \<Rightarrow> string \<Rightarrow> session \<Rightarrow> session" where
  "with_partial_sig i role sig s = s\<lparr>partial_sigs := hm_insert2 i role sig (partial_sigs s)\<rparr>"

definition begin_spend_signing_transitions_to_round_two_with_adaptor :: "key_gen \<Rightarrow> env \<Rightarrow> scalar \<Rightarrow> bool act" where
  "begin_spend_signing_transitions_to_round_two_with_adaptor G E one =
     bind (make_keys G E 3) (\<lambda>keys.
     bind (make_session_with_lock_txs_for E one keys 0) (\<lambda>a0.
     bind (make_session_with_lock_txs_for E one keys 1) (\<lambda>a1.
     bind (make_session_with_lock_txs_for E one keys 2) (\<lambda>a2.
     bind (begin_spend_signing E a0 (keys ! 0)) (\<lambda>s0.
     bind (begin_spend_signing E a1 (keys ! 1)) (\<lambda>s1.
     bind (begin_spend_signing E a2 (keys ! 2)) (\<lambda>s2.
     bind (io_fold (\<lambda>s0 role.
         bind (lift (get_our_nonce s1 role)) (\<lambda>nonce_1. bind (lift (get_our_nonce s2 role)) (\<lambda>nonce_2.
         transition_to_round_two E (with_nonce 3 role nonce_2 (with_nonce 2 role nonce_1 s0)) (keys ! 0) role)))
       s0 spend_roles) (\<lambda>s.
     ret (list_all (\<lambda>i. case hm_get (musig_sessions s) (Spend i) of
         Some (RoundTwo _ _ _ _) \<Rightarrow> True | _ \<Rightarrow> False) [1, 2, 3])))))))))"

text \<open>What the last two tests share: three sessions with the same adaptor points, the signing of the spends begun
  in each, the nonces of each role exchanged and the second round entered by all.\<close>

definition share_adaptor_points :: "string \<Rightarrow> string \<Rightarrow> string \<Rightarrow> session \<Rightarrow> session" where
  "share_adaptor_points p0 p1 p2 s =
     s\<lparr>adaptor_points := hm_insert 3 p2 (hm_insert 2 p1 (hm_insert 1 p0 (adaptor_points s)))\<rparr>"

definition exchange_nonces :: "env \<Rightarrow> swap_keys list \<Rightarrow> session \<times> session \<times> session \<Rightarrow> tx_role \<Rightarrow> (session \<times> session \<times> session) act" where
  "exchange_nonces E keys ss role =
     (case ss of (s0, s1, s2) \<Rightarrow>
        bind (lift (get_our_nonce s0 role)) (\<lambda>nonce_0.
        bind (lift (get_our_nonce s1 role)) (\<lambda>nonce_1.
        bind (lift (get_our_nonce s2 role)) (\<lambda>nonce_2.
        bind (transition_to_round_two E (with_nonce 3 role nonce_2 (with_nonce 2 role nonce_1 s0)) (keys ! 0) role) (\<lambda>s0'.
        bind (transition_to_round_two E (with_nonce 3 role nonce_2 (with_nonce 1 role nonce_0 s1)) (keys ! 1) role) (\<lambda>s1'.
        bind (transition_to_round_two E (with_nonce 2 role nonce_1 (with_nonce 1 role nonce_0 s2)) (keys ! 2) role) (\<lambda>s2'.
        ret (s0', s1', s2'))))))))"

definition second_round_entered :: "env \<Rightarrow> scalar \<Rightarrow> swap_keys list \<Rightarrow> (session \<times> session \<times> session) act" where
  "second_round_entered E one keys =
     bind (make_session_with_lock_txs E keys) (\<lambda>a0.
     bind (make_session_with_lock_txs_for E one keys 1) (\<lambda>a1.
     bind (make_session_with_lock_txs_for E one keys 2) (\<lambda>a2.
     bind (lift (unwrap (hm_get (adaptor_points a0) 1))) (\<lambda>point_0.
     bind (lift (unwrap (hm_get (adaptor_points a1) 2))) (\<lambda>point_1.
     bind (lift (unwrap (hm_get (adaptor_points a2) 3))) (\<lambda>point_2.
     let share = share_adaptor_points point_0 point_1 point_2 in
     bind (begin_spend_signing E (share a0) (keys ! 0)) (\<lambda>s0.
     bind (begin_spend_signing E (share a1) (keys ! 1)) (\<lambda>s1.
     bind (begin_spend_signing E (share a2) (keys ! 2)) (\<lambda>s2.
     io_fold (exchange_nonces E keys) (s0, s1, s2) spend_roles)))))))))"

definition spend_txs_produce_adaptor_sigs_not_regular_sigs :: "key_gen \<Rightarrow> env \<Rightarrow> scalar \<Rightarrow> string option \<Rightarrow> bool act" where
  "spend_txs_produce_adaptor_sigs_not_regular_sigs G E one api_key_var =
     bind (make_keys G E 3) (\<lambda>keys.
     bind (second_round_entered E one keys) (\<lambda>(s0, s1, s2).
     bind (io_fold (\<lambda>s0 role.
         bind (lift (get_our_partial_sig s1 role)) (\<lambda>sig_1. bind (lift (get_our_partial_sig s2 role)) (\<lambda>sig_2.
         finalize_role E (with_partial_sig 3 role sig_2 (with_partial_sig 2 role sig_1 s0)) (keys ! 0) role
           (test_config api_key_var))))
       s0 spend_roles) (\<lambda>s.
     ret (list_all (\<lambda>i. hm_contains (adaptor_sigs s) (Spend i)) [1, 2, 3] \<and>
          list_all (\<lambda>i. \<not> hm_contains (signed_txs s) (Spend i)) [1, 2, 3]))))"

definition spend_txs_can_be_adapted_with_secret :: "key_gen \<Rightarrow> env \<Rightarrow> scalar \<Rightarrow> string option \<Rightarrow> bool act" where
  "spend_txs_can_be_adapted_with_secret G E one api_key_var =
     bind (make_keys G E 3) (\<lambda>keys.
     bind (second_round_entered E one keys) (\<lambda>(s0, s1, s2).
     bind (io_fold (\<lambda>s0 role.
         bind (lift (get_our_partial_sig s0 role)) (\<lambda>sig_0. bind (lift (get_our_partial_sig s1 role)) (\<lambda>sig_1.
         bind (lift (get_our_partial_sig s2 role)) (\<lambda>sig_2.
         finalize_role E
           (with_partial_sig 3 role sig_2 (with_partial_sig 2 role sig_1 (with_partial_sig 1 role sig_0 s0)))
           (keys ! 0) role (test_config api_key_var)))))
       s0 spend_roles) (\<lambda>s.
     bind (io_fold (\<lambda>s role.
         if hm_contains (adaptor_sigs s) role then adapt_role E s role (test_config api_key_var) else ret s)
       s spend_roles) (\<lambda>s'.
     ret (list_all (\<lambda>i. hm_contains (signed_txs s') (Spend i)) [1, 2, 3])))))"

section \<open>They pass\<close>

text \<open>One turn of the loop over the participants, when everyone locks on Bitcoin.\<close>

lemma spend_step_result:
  assumes "spend_step E keys me pks idx s k t = (Inr s', t')" and "\<forall>j p. bt_get (participants s) j = Some p \<longrightarrow> blockchain p = Bitcoin"
  shows "\<exists>tx m tweak sn n pool. s' = s\<lparr>unsigned_txs := hm_insert (Spend k) (btc_serialize_hex (btc E) tx) (unsigned_txs s),
      schnorr_nonces := hm_insert2 me (Spend k) (nonce_to_string (musig E) n) (schnorr_nonces s),
      musig_sessions := hm_insert (Spend k) (RoundOne pks idx m tweak sn) (musig_sessions s), connection_pool := pool\<rparr>"
proof -
  obtain p h m where u: "spend_unsigned_btc E s (target_participant p) p = Inr (h, m)"
    and opened: "open_signing_round E keys me pks idx (Spend k) True h m s t = (Inr s', t')"
    using assms by (auto simp: spend_step_def Let_def bind_Inr lift_def index_map_def split: option.splits)
  from u have "\<exists>tx. h = btc_serialize_hex (btc E) tx"
    unfolding spend_unsigned_btc_def res_bind_Inr Let_def by blast
  then show ?thesis using open_signing_round_result [OF opened] by blast
qed

lemma spend_session_fields:
  assumes "make_session_with_lock_txs E keys t = (Inr s, t1)"
  shows "bt_keys (participants s) = [1, 2, 3]" "get_my_id (participants s) = Inr 1"
    "\<forall>j p. bt_get (participants s) j = Some p \<longrightarrow> blockchain p = Bitcoin"
proof -
  have "participants (add_lock_txs E ids s0) = participants s0" for ids s0
    by (induction ids arbitrary: s0) (simp_all add: add_lock_txs_def)
  then have "participants s = spend_ring E keys 0"
    using assms unfolding make_session_with_lock_txs_def bind_Inr
    by (auto dest!: session_new_fields(3) simp: ret_def session_literal_def)
  then show "bt_keys (participants s) = [1, 2, 3]" "get_my_id (participants s) = Inr 1"
    "\<forall>j p. bt_get (participants s) j = Some p \<longrightarrow> blockchain p = Bitcoin"
    by (auto simp: spend_ring_def spend_participant_def bt_keys_def get_my_id_def expect_def bt_get_def Let_def
        split: if_splits)
qed

lemma spend_signing_begun_result:
  assumes begun: "spend_signing_begun G E t = (Inr s', t')" and i: "i \<in> {1, 2, 3}"
  shows "\<exists>tx. hm_get (unsigned_txs s') (Spend i) = Some (btc_serialize_hex (btc E) tx)" (is ?unsigned)
    and "\<exists>pks idx m tweak sn. hm_get (musig_sessions s') (Spend i) = Some (RoundOne pks idx m tweak sn)" (is ?round)
    and "\<exists>n. Option.bind (hm_get (schnorr_nonces s') 1) (\<lambda>m. hm_get m (Spend i)) = Some (nonce_to_string (musig E) n)" (is ?nonce)
proof -
  obtain keys t0 s t1 where s: "make_session_with_lock_txs E keys t0 = (Inr s, t1)"
    and run: "begin_spend_signing E s (keys ! 0) t1 = (Inr s', t')"
    using begun unfolding spend_signing_begun_def bind_Inr by blast
  note fields = spend_session_fields [OF s]
  obtain pks idx u s1 u1 s2 u2 where steps: "spend_step E (keys ! 0) 1 pks idx s 1 u = (Inr s1, u1)"
    "spend_step E (keys ! 0) 1 pks idx s1 2 u1 = (Inr s2, u2)"
    "spend_step E (keys ! 0) 1 pks idx s2 3 u2 = (Inr s', t')"
    using run by (auto simp: begin_spend_signing_def Let_def bind_Inr lift_def ret_def fields)
  note one = spend_step_result [OF steps(1) fields(3)]
  have p1: "\<forall>j p. bt_get (participants s1) j = Some p \<longrightarrow> blockchain p = Bitcoin" using one fields(3) by auto
  note two = spend_step_result [OF steps(2) p1]
  have p2: "\<forall>j p. bt_get (participants s2) j = Some p \<longrightarrow> blockchain p = Bitcoin" using two p1 by auto
  note three = spend_step_result [OF steps(3) p2]
  show ?unsigned ?round ?nonce
    using one two three i by (auto simp: hm_insert2_def split: option.splits)
qed

theorem spend_tests_pass:
  assumes tx: "\<And>tx. length (btc_serialize_hex (btc E) tx) > 10" and nonce: "\<And>n. nonce_to_string (musig E) n \<noteq> []"
    and begun: "spend_signing_begun G E t = (Inr s, t1)"
  shows "passes (begin_spend_signing_creates_unsigned_txs_for_all_participants G E) t"
    "passes (begin_spend_signing_creates_musig_sessions_for_all_participants G E) t"
    "passes (begin_spend_signing_stores_our_nonce_in_schnorr_nonces G E) t"
    "passes (begin_spend_signing_uses_target_blockchain G E) t"
proof -
  note results = spend_signing_begun_result [OF begun]
  have each: "list_all P [1, 2, 3 :: u8] \<longleftrightarrow> (\<forall>i \<in> {1, 2, 3}. P i)" for P by (auto simp: list_all_iff)
  have nonempty: "btc_serialize_hex (btc E) tx \<noteq> []" for tx using assms(1) [of tx] by auto
  have 1: "hm_contains (unsigned_txs s) (Spend i)"
    "case hm_get (unsigned_txs s) (Spend i) of None \<Rightarrow> False | Some h \<Rightarrow> h \<noteq> [] \<and> length h > 10"
    "case hm_get (musig_sessions s) (Spend i) of Some (RoundOne _ _ _ _ _) \<Rightarrow> True | _ \<Rightarrow> False"
    "case Option.bind (hm_get (schnorr_nonces s) 1) (\<lambda>m. hm_get m (Spend i)) of None \<Rightarrow> False | Some n \<Rightarrow> n \<noteq> []"
    if "i \<in> {1, 2, 3}" for i
    using results [OF that] tx nonempty nonce by (auto simp: hm_contains_def)
  show "passes (begin_spend_signing_creates_unsigned_txs_for_all_participants G E) t"
    "passes (begin_spend_signing_creates_musig_sessions_for_all_participants G E) t"
    "passes (begin_spend_signing_stores_our_nonce_in_schnorr_nonces G E) t"
    "passes (begin_spend_signing_uses_target_blockchain G E) t"
    unfolding begin_spend_signing_creates_unsigned_txs_for_all_participants_def
      begin_spend_signing_creates_musig_sessions_for_all_participants_def
      begin_spend_signing_stores_our_nonce_in_schnorr_nonces_def begin_spend_signing_uses_target_blockchain_def each
    using 1 by (simp_all only: passes_bind begun prod.case sum.case passes_ret) blast+
qed

text \<open>The three daemons run in the concrete environment, with keys that are the first byte of their seed.\<close>

definition sample_key_gen :: key_gen where
  "sample_key_gen = \<lparr>sec_of = (\<lambda>bs. Some (SecKey (take 1 bs))), pub_of = (\<lambda>sk. case sk of SecKey bs \<Rightarrow> PubKey bs),
     verifying_of = (\<lambda>bs. bs)\<rparr>"

lemma passes_evaluated: "fst (m t) = Inr True \<Longrightarrow> passes m t"
  by (cases "m t") (simp add: passes_def)

theorem round_two_test_passes:
  "passes (begin_spend_signing_transitions_to_round_two_with_adaptor sample_key_gen (sample_env offline) (Scalar 1)) []"
  by (rule passes_evaluated) code_simp

theorem adaptor_sigs_test_passes:
  "passes (spend_txs_produce_adaptor_sigs_not_regular_sigs sample_key_gen (sample_env offline) (Scalar 1) None) []"
  by (rule passes_evaluated) code_simp

theorem adapted_test_passes:
  "passes (spend_txs_can_be_adapted_with_secret sample_key_gen (sample_env offline) (Scalar 1) None) []"
  by (rule passes_evaluated) code_simp

end
