(* ===== verification/Ledger_Tests.thy ===== *)
theory Ledger_Tests
  imports Tx_Tests
begin

text \<open>
  The unit tests of \<open>bitcoin_utils.rs\<close>, \<open>cardano_utils.rs\<close> and \<open>secret.rs\<close> that need neither a network nor the
  concrete curve: the transactions the builders make, the witnesses the signers add and the signatures that are
  read from a confirmed spend. The crates read back what they write, and their builders keep what they are given.
\<close>

section \<open>\<open>bitcoin_utils.rs\<close>\<close>

text \<open>The tests use a network the program never does; the script of an address does not depend on it.\<close>

definition bitcoin_lock_tx_output_matches_aggregate_address :: "btc_net \<Rightarrow> string option \<Rightarrow> key_gen \<Rightarrow> env \<Rightarrow> bool act" where
  "bitcoin_lock_tx_output_matches_aggregate_address signet api_key_var G E =
     bind (make_participants G E) (\<lambda>ps.
     bind (lift (bitcoin_pubkeys E ps)) (\<lambda>all_pubkeys.
     bind (lift (aggregate_address E all_pubkeys signet)) (\<lambda>aggregate_script.
     bind (session_new E 1 ps 0 0 5000 2000000) (\<lambda>s0.
     bind (lift (build_lock_txs E s0 (config_testnet api_key_var ''127.0.0.1:9000''))) (\<lambda>s.
     bind (lock_tx_of E s 1) (\<lambda>lock_tx.
     bind (lift (index_list (tx_output lock_tx) 0)) (\<lambda>out.
     ret (script_pubkey out = aggregate_script))))))))"

text \<open>The aggregate script of fresh participants, the funding output and the lock that the next tests build.\<close>

definition signet_lock :: "btc_net \<Rightarrow> key_gen \<Rightarrow> env \<Rightarrow> (out_point \<times> bytes \<times> btc_tx) act" where
  "signet_lock signet G E =
     bind (make_participants G E) (\<lambda>ps.
     bind (lift (bitcoin_pubkeys E ps)) (\<lambda>all_pubkeys.
     bind (lift (aggregate_address E all_pubkeys signet)) (\<lambda>aggregate_script.
     bind (lift (unwrap (txid_from_str (btc E) sample_txid))) (\<lambda>txid.
     let funding_utxo = \<lparr>op_txid = txid, op_vout = 0\<rparr> in
     ret (funding_utxo, aggregate_script, btc_build_lock_tx E funding_utxo 100000 aggregate_script)))))"

definition compute_sighash_matches_manual_calculation :: "btc_net \<Rightarrow> key_gen \<Rightarrow> env \<Rightarrow> bool act" where
  "compute_sighash_matches_manual_calculation signet G E =
     bind (signet_lock signet G E) (\<lambda>(_, _, lock_tx).
     bind (lift (index_list (tx_output lock_tx) 0)) (\<lambda>lock_tx_output.
     bind (make_participant G E 1 True) (\<lambda>p.
     bind (lift (btc_build_spend_tx E \<lparr>op_txid = compute_txid (btc E) lock_tx, op_vout = 0\<rparr> p 10)) (\<lambda>spend_tx.
     bind (lift (compute_sighash E spend_tx lock_tx_output)) (\<lambda>our_sighash.
     bind (lift (unwrap (taproot_sighash (btc E) spend_tx 0 [lock_tx_output]))) (\<lambda>expected_sighash.
     ret (our_sighash = expected_sighash)))))))"

definition bitcoin_lock_tx_has_correct_structure :: "btc_net \<Rightarrow> key_gen \<Rightarrow> env \<Rightarrow> bool act" where
  "bitcoin_lock_tx_has_correct_structure signet G E =
     bind (signet_lock signet G E) (\<lambda>(funding_utxo, aggregate_script, lock_tx).
     if length (tx_output lock_tx) \<noteq> 1 then ret False
     else
       bind (lift (index_list (tx_output lock_tx) 0)) (\<lambda>out.
       bind (lift (index_list (tx_input lock_tx) 0)) (\<lambda>inp.
       ret (out_value out = 100000 \<and> script_pubkey out = aggregate_script \<and> previous_output inp = funding_utxo))))"

section \<open>\<open>cardano_utils.rs\<close>\<close>

text \<open>The lock of 5 ADA to the aggregate key of two fresh participants.\<close>

definition cardano_test_lock :: "key_gen \<Rightarrow> env \<Rightarrow> (pubkey \<times> car_tx) act" where
  "cardano_test_lock G E =
     bind (make_participants G E) (\<lambda>ps.
     bind (lift (aggregate_pubkey E ps)) (\<lambda>agg.
     bind (lift (build_lock_tx E sample_txid 0 5000000 agg 200000 CARDANO_MAINNET 1000)) (\<lambda>lock_tx.
     ret (agg, lock_tx))))"

text \<open>The hexadecimal text of a transaction id is a function of the crate.\<close>

definition cardano_lock_tx_has_correct_structure :: "(bytes \<Rightarrow> string) \<Rightarrow> key_gen \<Rightarrow> env \<Rightarrow> bool act" where
  "cardano_lock_tx_has_correct_structure hash_to_hex G E =
     bind (cardano_test_lock G E) (\<lambda>(agg, lock_tx).
     let body = ct_body lock_tx in
     ret (case (cb_inputs body, cb_outputs body) of
         ([(txid, index)], [out]) \<Rightarrow>
           hash_to_hex txid = sample_txid \<and> index = 0 \<and> co_value out = 4800000 \<and>
           co_address out = script_address E CARDANO_MAINNET \<and>
           (case co_datum out of
              Some (PConstr _ [PBytes pubkey_bytes, PInt slot]) \<Rightarrow>
                length pubkey_bytes = 32 \<and> pubkey_bytes = drop 1 (pk_serialize (musig E) agg) \<and> slot = ''1000''
            | _ \<Rightarrow> False) \<and>
           cb_fee body = 200000 \<and> cw_vkeys (ct_witness lock_tx) = None
       | _ \<Rightarrow> False))"

definition cardano_lock_tx_cbor_roundtrips :: "key_gen \<Rightarrow> env \<Rightarrow> bool act" where
  "cardano_lock_tx_cbor_roundtrips G E =
     bind (cardano_test_lock G E) (\<lambda>(agg, lock_tx).
     let tx_hex = encode_car_tx E lock_tx;
         txid = res_bind (unwrap (hex_decode E tx_hex)) (\<lambda>b.
           res_bind (unwrap (fixed_tx_hash (csl E) b)) (\<lambda>h. Inr (hex_encode E h))) in
     bind (lift txid) (\<lambda>txid1. bind (lift txid) (\<lambda>txid2.
     ret (txid1 = txid2 \<and> length txid1 = 64))))"

text \<open>What the three tests of the signer share: fresh keys, the lock, and the lock signed and read back.\<close>

definition cardano_signed_lock :: "key_gen \<Rightarrow> env \<Rightarrow> (swap_keys \<times> hex_string \<times> car_tx) act" where
  "cardano_signed_lock G E =
     bind (make_swap_keys G E) (\<lambda>keys.
     bind (cardano_test_lock G E) (\<lambda>(agg, lock_tx).
     let unsigned_tx_hex = encode_car_tx E lock_tx in
     bind (lift (sign_cardano_lock_tx E unsigned_tx_hex keys)) (\<lambda>signed_tx_hex.
     bind (lift (decode_car_tx E signed_tx_hex)) (\<lambda>signed_tx.
     ret (keys, unsigned_tx_hex, signed_tx)))))"

definition sign_cardano_lock_tx_adds_vkey_witness :: "key_gen \<Rightarrow> env \<Rightarrow> bool act" where
  "sign_cardano_lock_tx_adds_vkey_witness G E =
     bind (cardano_signed_lock G E) (\<lambda>(keys, _, signed_tx).
     ret (case cw_vkeys (ct_witness signed_tx) of
         Some [(witness_pubkey, _)] \<Rightarrow> witness_pubkey = wallet_public_key keys | _ \<Rightarrow> False))"

text \<open>Verifying an Ed25519 signature is a function of the crate.\<close>

definition sign_cardano_lock_tx_signature_verifies :: "(bytes \<Rightarrow> bytes \<Rightarrow> bytes \<Rightarrow> bool) \<Rightarrow> key_gen \<Rightarrow> env \<Rightarrow> bool act" where
  "sign_cardano_lock_tx_signature_verifies verify G E =
     bind (cardano_signed_lock G E) (\<lambda>(keys, _, signed_tx).
     let tx_hash = blake2b256 E (body_to_bytes (csl E) (ct_body signed_tx)) in
     bind (lift (unwrap (cw_vkeys (ct_witness signed_tx)))) (\<lambda>vkeys.
     bind (lift (index_list vkeys 0)) (\<lambda>(_, sig_bytes).
     ret (verify (wallet_public_key keys) tx_hash sig_bytes))))"

definition sign_cardano_lock_tx_preserves_tx_body :: "key_gen \<Rightarrow> env \<Rightarrow> bool act" where
  "sign_cardano_lock_tx_preserves_tx_body G E =
     bind (cardano_signed_lock G E) (\<lambda>(_, unsigned_tx_hex, signed_tx).
     bind (lift (decode_car_tx E unsigned_tx_hex)) (\<lambda>unsigned_tx.
     ret (body_to_bytes (csl E) (ct_body signed_tx) = body_to_bytes (csl E) (ct_body unsigned_tx))))"

definition make_cardano_participant :: "u8 \<Rightarrow> bytes \<Rightarrow> participant" where
  "make_cardano_participant i key =
     \<lparr>p_id = i, blockchain = Cardano, tcp_address = ''127.0.0.1:91'' @ two_digits i, target_participant = i mod 2 + 1,
      amount_locking = 5000000, amount_claiming = 5000000, is_me = False, secp256k1_public_key = [],
      p_wallet_public_key = key, funding_utxo_txid = sample_txid, funding_utxo_vout = 0\<rparr>"

text \<open>The unsigned refund of the last two tests, with the keys and the cost models they use.\<close>

definition cardano_test_refund :: "key_gen \<Rightarrow> env \<Rightarrow> (swap_keys \<times> hex_string \<times> costmdls) act" where
  "cardano_test_refund G E =
     bind (make_swap_keys G E) (\<lambda>keys.
     let p = make_cardano_participant 2 (wallet_public_key keys) in
     bind (lift (unwrap (tx_hash_from_hex (csl E) sample_txid))) (\<lambda>lock_txhash.
     bind (lift (build_refund_tx E p lock_txhash 1000 200000 None)) (\<lambda>refund_tx.
     bind (lift (plutus_v3_cost_model_hardcoded (overflow_checks E))) (\<lambda>cost_models.
     ret (keys, encode_car_tx E refund_tx, cost_models)))))"

text \<open>The first two bytes of the data of the first redeemer; its encoding is a function of the crate.\<close>

definition redeemer_tag :: "(plutus_data \<Rightarrow> bytes) \<Rightarrow> car_tx \<Rightarrow> (u8 \<times> u8) res" where
  "redeemer_tag data_to_bytes tx =
     res_bind (unwrap (cw_redeemers (ct_witness tx))) (\<lambda>redeemers.
     res_bind (index_list redeemers 0) (\<lambda>rd.
     let cbor = data_to_bytes (rd_data rd) in
     res_bind (index_list cbor 0) (\<lambda>b0. res_bind (index_list cbor 1) (\<lambda>b1. Inr (b0, b1)))))"

definition dummy_sig :: bytes where
  "dummy_sig = replicate 64 0"

definition attach_final_sig_with_units_redeemer_constr_index :: "(plutus_data \<Rightarrow> bytes) \<Rightarrow> key_gen \<Rightarrow> env \<Rightarrow> bool act" where
  "attach_final_sig_with_units_redeemer_constr_index data_to_bytes G E =
     bind (cardano_test_refund G E) (\<lambda>(keys, unsigned_tx_hex, cost_models).
     io_fold (\<lambda>ok (is_refund, expected_second).
         bind (lift (attach_final_sig_with_units E unsigned_tx_hex dummy_sig MEM_UNITS_CEILING CPU_UNITS_CEILING 200000
             cost_models is_refund)) (\<lambda>signed_hex.
         bind (lift (decode_car_tx E signed_hex)) (\<lambda>tx.
         bind (lift (redeemer_tag data_to_bytes tx)) (\<lambda>(b0, b1).
         ret (ok \<and> b0 = 0xD8 \<and> b1 = expected_second)))))
       True [(False, 0x79), (True, 0x7A)])"

definition add_collateral_witness_preserves_refund_redeemer :: "(plutus_data \<Rightarrow> bytes) \<Rightarrow> key_gen \<Rightarrow> env \<Rightarrow> bool act" where
  "add_collateral_witness_preserves_refund_redeemer data_to_bytes G E =
     bind (cardano_test_refund G E) (\<lambda>(keys, unsigned_tx_hex, cost_models).
     bind (lift (attach_final_sig_with_units E unsigned_tx_hex dummy_sig MEM_UNITS_CEILING CPU_UNITS_CEILING 200000
         cost_models True)) (\<lambda>signed_hex.
     bind (lift (add_collateral_witness E signed_hex (wallet_secret_key keys) (wallet_public_key keys))) (\<lambda>after_collateral.
     bind (lift (decode_car_tx E after_collateral)) (\<lambda>tx.
     bind (lift (redeemer_tag data_to_bytes tx)) (\<lambda>(b0, b1).
     ret (b0 = 0xD8 \<and> b1 = 0x7A))))))"

section \<open>\<open>secret.rs\<close>\<close>

definition replying :: "env \<Rightarrow> http_response \<Rightarrow> env" where
  "replying E r = E\<lparr>net_answer := \<lambda>t rq. Some r\<rparr>"

definition fetch_valid_sig_bitcoin_extracts_witness :: "env \<Rightarrow> string \<Rightarrow> bool act" where
  "fetch_valid_sig_bitcoin_extracts_witness E uri =
     (let valid_sig_bytes = replicate 64 1; unsigned_tx_hex = btc_serialize_hex (btc E) (dummy_tx 90000) in
      bind (lift (unwrap (btc_deserialize_hex (btc E) unsigned_tx_hex))) (\<lambda>tx.
      bind (lift (set_witness0 tx [valid_sig_bytes])) (\<lambda>confirmed_tx.
      bind (fetch_valid_sig_bitcoin
          (replying E \<lparr>rs_success = True, rs_text = Some (btc_serialize_hex (btc E) confirmed_tx), rs_json = None\<rparr>)
          unsigned_tx_hex uri) (\<lambda>result.
      ret (result = Some valid_sig_bytes)))))"

definition redeemed_tx :: "bytes \<Rightarrow> car_tx" where
  "redeemed_tx sig =
     \<lparr>ct_body = new_tx_body [] [] 200000,
      ct_witness = no_witness\<lparr>cw_redeemers := Some [\<lparr>rd_data = PConstr 0 [PBytes sig], rd_mem = 1000000,
        rd_cpu = 500000000\<rparr>]\<rparr>\<rparr>"

definition fetch_valid_sig_cardano_blockfrost_extracts_redeemer_mocked :: "env \<Rightarrow> string \<Rightarrow> bool act" where
  "fetch_valid_sig_cardano_blockfrost_extracts_redeemer_mocked E uri =
     (let known_sig = replicate 64 42;
          body = JObject [(''cbor'', JString (encode_car_tx E (redeemed_tx known_sig)))] in
      bind (fetch_valid_sig_cardano_blockfrost (replying E \<lparr>rs_success = True, rs_text = None, rs_json = Some body\<rparr>)
          ''deadbeef'' uri []) (\<lambda>result.
      bind (lift (unwrap result)) (\<lambda>sig. ret (sig = known_sig \<and> length sig = 64))))"

section \<open>They pass\<close>

theorem bitcoin_structure_tests_pass:
  assumes tx: "\<And>tx. btc_deserialize_hex (btc E) (btc_serialize_hex (btc E) tx) = Some tx"
    and net: "\<And>k n. p2tr_script (btc E) k n = p2tr_script (btc E) k NetTestnet"
  shows "bitcoin_lock_tx_output_matches_aggregate_address signet var G E t = (Inr r, t') \<Longrightarrow> r"
    "compute_sighash_matches_manual_calculation signet G E t = (Inr r, t') \<Longrightarrow> r"
    "signet_lock signet G E t = (Inr x, t1) \<Longrightarrow> passes (bitcoin_lock_tx_has_correct_structure signet G E) t"
proof -
  show "compute_sighash_matches_manual_calculation signet G E t = (Inr r, t') \<Longrightarrow> r"
    unfolding compute_sighash_matches_manual_calculation_def bind_Inr
    by (auto simp: bind_Inr lift_def ret_def compute_sighash_def)
  show "passes (bitcoin_lock_tx_has_correct_structure signet G E) t" if l: "signet_lock signet G E t = (Inr x, t1)"
  proof -
    obtain f sc where "x = (f, sc, btc_build_lock_tx E f 100000 sc)"
      using l unfolding signet_lock_def bind_Inr Let_def ret_def by blast
    then show ?thesis
      using l by (simp add: bitcoin_lock_tx_has_correct_structure_def passes_def bind_def btc_build_lock_tx_def
          index_list_def lift_def ret_def)
  qed
  show r if run: "bitcoin_lock_tx_output_matches_aggregate_address signet var G E t = (Inr r, t')"
  proof -
    obtain ps u pks sc s0 u0 u1 s out h tx where ps: "make_participants G E t = (Inr ps, u)"
      and agg: "bitcoin_pubkeys E ps = Inr pks" "aggregate_address E pks signet = Inr sc"
      and s0: "session_new E 1 ps 0 0 5000 2000000 u0 = (Inr s0, u1)"
      and s: "build_lock_txs E s0 (config_testnet var ''127.0.0.1:9000'') = Inr s"
      and read: "hm_get (lock_txs s) 1 = Some h" "btc_deserialize_hex (btc E) h = Some tx" "index_list (tx_output tx) 0 = Inr out"
      and r: "r = (script_pubkey out = sc)"
      using run unfolding bitcoin_lock_tx_output_matches_aggregate_address_def
      by (auto simp: bind_Inr lift_def ret_def lock_tx_of_def)
    obtain p1 p2 where ps': "ps = [(1, p1), (2, p2)]" "blockchain p1 = Bitcoin"
      using ps unfolding make_participants_def make_participant_def bind_Inr by (auto simp: ret_def)
    have "participants s0 = ps" using s0 by (auto dest!: session_new_fields(3) simp: session_literal_def)
    moreover have "aggregate_address E pks NetTestnet = Inr sc"
      using agg(2) net [of _ signet] by (auto simp: aggregate_address_def res_bind_Inr)
    ultimately obtain f h2 where "lock_txs s = hm_insert 2 h2 (hm_insert 1 (btc_serialize_hex (btc E) (btc_build_lock_tx E f (amount_locking p1) sc)) (lock_txs s0))"
      using s by (auto simp: build_lock_txs_def res_bind_Inr config_testnet_def agg(1) [unfolded ps'(1)] ps' lock_tx_hex_for_def)
    then have "\<exists>f. h = btc_serialize_hex (btc E) (btc_build_lock_tx E f (amount_locking p1) sc)"
      using read(1) by auto
    then show r using r read(2,3) tx by (auto simp: btc_build_lock_tx_def index_list_def)
  qed
qed

text \<open>What the tests of the Cardano transactions rely on: encodings that read back, a builder that takes every output,
  and numbers, ids and keys that keep their text or bytes.\<close>

definition crates_keep :: "env \<Rightarrow> (bytes \<Rightarrow> string) \<Rightarrow> bool" where
  "crates_keep E hash_to_hex \<longleftrightarrow>
     (\<forall>b. hex_decode E (hex_encode E b) = Some b) \<and> (\<forall>tx. car_from_bytes (csl E) (car_to_bytes (csl E) tx) = Some tx) \<and>
     (\<forall>a d v. output_build (csl E) a d v = Some \<lparr>co_address = a, co_value = v, co_datum = d\<rparr>) \<and>
     (\<forall>s h. tx_hash_from_hex (csl E) s = Some h \<longrightarrow> hash_to_hex h = s) \<and> big_int_from_str (csl E) ''1000'' = Some ''1000'' \<and>
     (\<forall>pk. length (pk_serialize (musig E) pk) = 33)"

lemma crates_keep_read: "crates_keep E hx \<Longrightarrow> decode_car_tx E (encode_car_tx E tx) = Inr tx"
  by (simp add: crates_keep_def decode_car_tx_def encode_car_tx_def)

lemma cardano_test_lock_built:
  assumes "crates_keep E hx" and "cardano_test_lock G E t = (Inr (agg, tx), t1)"
  shows "\<exists>h. hx h = sample_txid \<and> tx = \<lparr>ct_body = new_tx_body [(h, 0)] [\<lparr>co_address = script_address E CARDANO_MAINNET,
      co_value = 4800000, co_datum = Some (PConstr 0 [PBytes (drop 1 (pk_serialize (musig E) agg)), PInt ''1000''])\<rparr>] 200000,
    ct_witness = no_witness\<rparr>"
proof -
  have "build_lock_tx E sample_txid 0 5000000 agg 200000 CARDANO_MAINNET 1000 = Inr tx"
    using assms(2) by (auto simp: cardano_test_lock_def bind_Inr lift_def ret_def)
  moreover have "show_nat (unat (1000 :: u64)) = ''1000''" by code_simp
  moreover have "sub_chk ov (5000000 :: u64) 200000 = Inr 4800000" for ov by (simp add: sub_chk_def)
  ultimately show ?thesis
    using assms(1) by (auto simp: build_lock_tx_def res_bind_Inr Let_def build_output_def crates_keep_def new_tx_body_def)
qed

theorem cardano_lock_tests_pass:
  assumes keep: "crates_keep E hx" and lock: "cardano_test_lock G E t = (Inr (agg, tx), t1)"
  shows "passes (cardano_lock_tx_has_correct_structure hx G E) t"
    "(\<And>b h. fixed_tx_hash (csl E) b = Some h \<Longrightarrow> length (hex_encode E h) = 64) \<Longrightarrow>
      fixed_tx_hash (csl E) (car_to_bytes (csl E) tx) \<noteq> None \<Longrightarrow> passes (cardano_lock_tx_cbor_roundtrips G E) t"
proof -
  have "length (pk_serialize (musig E) agg) = 33" using keep by (simp add: crates_keep_def)
  then show "passes (cardano_lock_tx_has_correct_structure hx G E) t"
    using cardano_test_lock_built [OF keep lock]
    by (auto simp: cardano_lock_tx_has_correct_structure_def passes_bind lock Let_def new_tx_body_def no_witness_def)
  show "passes (cardano_lock_tx_cbor_roundtrips G E) t"
    if "\<And>b h. fixed_tx_hash (csl E) b = Some h \<Longrightarrow> length (hex_encode E h) = 64"
      "fixed_tx_hash (csl E) (car_to_bytes (csl E) tx) \<noteq> None"
    using that keep by (auto simp: cardano_lock_tx_cbor_roundtrips_def passes_def bind_def lock lift_def ret_def Let_def
        encode_car_tx_def crates_keep_def)
qed

text \<open>The signed lock, when the keys are 32 bytes that the crate accepts.\<close>

lemma cardano_signed_lock_result:
  assumes keep: "crates_keep E hx" and keys: "make_swap_keys G E t = (Inr keys, t0)"
    and lock: "cardano_test_lock G E t0 = (Inr (agg, tx), t1)"
    and ok: "length (wallet_secret_key keys) = 32" "ed25519_pubkey (csl E) (wallet_public_key keys) = Some (wallet_public_key keys)"
  shows "cardano_signed_lock G E t = (Inr (keys, encode_car_tx E tx, \<lparr>ct_body = ct_body tx,
      ct_witness = no_witness\<lparr>cw_vkeys := Some [(wallet_public_key keys,
        ed25519_sign (csl E) (wallet_secret_key keys) (blake2b256 E (body_to_bytes (csl E) (ct_body tx))))]\<rparr>\<rparr>), t1)"
  using ok by (simp add: cardano_signed_lock_def bind_def keys lock lift_def ret_def Let_def sign_cardano_lock_tx_def
      crates_keep_read [OF keep] vkey_witness_def)

theorem cardano_signer_tests_pass:
  assumes keep: "crates_keep E hx" and keys: "make_swap_keys G E t = (Inr keys, t0)"
    and lock: "cardano_test_lock G E t0 = (Inr (agg, tx), t1)"
    and ok: "length (wallet_secret_key keys) = 32" "ed25519_pubkey (csl E) (wallet_public_key keys) = Some (wallet_public_key keys)"
    and verifies: "\<And>sk m. verify (verifying_of G sk) m (ed25519_sign (csl E) sk m)"
  shows "passes (sign_cardano_lock_tx_adds_vkey_witness G E) t"
    "passes (sign_cardano_lock_tx_signature_verifies verify G E) t"
    "passes (sign_cardano_lock_tx_preserves_tx_body G E) t"
proof -
  note signed = cardano_signed_lock_result [OF keep keys lock ok]
  have pub: "wallet_public_key keys = verifying_of G (wallet_secret_key keys)"
    using keys by (auto simp: make_swap_keys_def bind_Inr ret_def)
  show "passes (sign_cardano_lock_tx_adds_vkey_witness G E) t"
    by (simp add: sign_cardano_lock_tx_adds_vkey_witness_def passes_bind signed)
  show "passes (sign_cardano_lock_tx_signature_verifies verify G E) t"
    using verifies by (simp add: sign_cardano_lock_tx_signature_verifies_def passes_def bind_def signed lift_def ret_def Let_def
        index_list_def pub)
  show "passes (sign_cardano_lock_tx_preserves_tx_body G E) t"
    by (simp add: sign_cardano_lock_tx_preserves_tx_body_def passes_def bind_def signed lift_def ret_def
        crates_keep_read [OF keep])
qed

text \<open>CBOR tags the first seven constructors of Plutus data with 121 to 127, in two bytes.\<close>

definition tags_constructors :: "(plutus_data \<Rightarrow> bytes) \<Rightarrow> bool" where
  "tags_constructors data_to_bytes \<longleftrightarrow> (\<forall>fs. \<exists>rest. data_to_bytes (PConstr 0 fs) = 0xD8 # 0x79 # rest) \<and>
     (\<forall>fs. \<exists>rest. data_to_bytes (PConstr 1 fs) = 0xD8 # 0x7A # rest)"

lemma redeemer_tag_of:
  assumes "tags_constructors f" and "cw_redeemers (ct_witness tx) = Some [\<lparr>rd_data = redeemer_data sig is_refund, rd_mem = m, rd_cpu = c\<rparr>]"
  shows "redeemer_tag f tx = Inr (0xD8, if is_refund then 0x7A else 0x79)"
proof -
  obtain rest where "f (redeemer_data sig is_refund) = 0xD8 # (if is_refund then 0x7A else 0x79) # rest"
    using assms(1) unfolding tags_constructors_def redeemer_data_def by (cases is_refund) (metis (full_types))+
  then show ?thesis by (simp add: redeemer_tag_def assms(2) index_list_def)
qed

theorem cardano_redeemer_tests_pass:
  assumes keep: "crates_keep E hx" and tags: "tags_constructors f" and refund: "cardano_test_refund G E t = (Inr (keys, h, cm), t1)"
  shows "passes (attach_final_sig_with_units_redeemer_constr_index f G E) t"
    "length (wallet_secret_key keys) = 32 \<Longrightarrow> ed25519_pubkey (csl E) (wallet_public_key keys) \<noteq> None \<Longrightarrow>
      passes (add_collateral_witness_preserves_refund_redeemer f G E) t"
proof -
  have amounts: "mul_chk ov (2 :: u64) 200000 = Inr 400000" "sub_chk ov (5000000 :: u64) 400000 = Inr 4600000"
    "add_chk ov (4600000 :: u64) 200000 = Inr 4800000" "sub_chk ov (4800000 :: u64) 200000 = Inr 4600000" for ov
    by (simp_all add: mul_chk_def sub_chk_def add_chk_def)
  have built: "build_output E a d v = Inr \<lparr>co_address = a, co_value = v, co_datum = d\<rparr>" for a d v
    using keep by (simp add: build_output_def crates_keep_def)
  obtain p txh tx where r: "build_refund_tx E p txh 1000 200000 None = Inr tx" "amount_locking p = 5000000" "h = encode_car_tx E tx"
    using refund by (auto simp: cardano_test_refund_def bind_Inr lift_def ret_def Let_def make_cardano_participant_def)
  obtain addr where tx: "tx = \<lparr>ct_body = (new_tx_body [(txh, 0)] [\<lparr>co_address = addr, co_value = 4600000, co_datum = None\<rparr>] 200000)
        \<lparr>cb_validity_start := Some 1000\<rparr>, ct_witness = no_witness\<rparr>"
    using r(1) by (auto simp: build_refund_tx_def res_bind_Inr Let_def built set_collateral_opt_def r(2) amounts)
  note h = r(3)
  have "\<exists>tx'. attach_final_sig_with_units E h sig mem cpu 200000 cm is_refund = Inr (encode_car_tx E tx') \<and>
      cw_redeemers (ct_witness tx') = Some [\<lparr>rd_data = redeemer_data sig is_refund, rd_mem = mem, rd_cpu = cpu\<rparr>]" for sig mem cpu is_refund
    by (simp add: attach_final_sig_with_units_def h crates_keep_read [OF keep] tx new_tx_body_def index_list_def
        final_body_def built amounts Let_def) (rule exI, rule conjI [OF refl], simp)
  then obtain final where final: "\<And>is_refund. attach_final_sig_with_units E h dummy_sig MEM_UNITS_CEILING CPU_UNITS_CEILING 200000 cm is_refund =
      Inr (encode_car_tx E (final is_refund))"
    "\<And>is_refund. cw_redeemers (ct_witness (final is_refund)) =
      Some [\<lparr>rd_data = redeemer_data dummy_sig is_refund, rd_mem = MEM_UNITS_CEILING, rd_cpu = CPU_UNITS_CEILING\<rparr>]" by metis
  show "passes (attach_final_sig_with_units_redeemer_constr_index f G E) t"
    by (simp add: attach_final_sig_with_units_redeemer_constr_index_def passes_def bind_def refund lift_def ret_def final
        crates_keep_read [OF keep] redeemer_tag_of [OF tags final(2)])
  show "passes (add_collateral_witness_preserves_refund_redeemer f G E) t"
    if "length (wallet_secret_key keys) = 32" "ed25519_pubkey (csl E) (wallet_public_key keys) \<noteq> None"
  proof -
    from that obtain tx' where tx': "add_collateral_witness E (encode_car_tx E (final True)) (wallet_secret_key keys) (wallet_public_key keys) =
        Inr (encode_car_tx E tx')" "cw_redeemers (ct_witness tx') = cw_redeemers (ct_witness (final True))"
      by (auto simp: add_collateral_witness_def crates_keep_read [OF keep] vkey_witness_def Let_def)
    then show ?thesis
      using redeemer_tag_of [OF tags, of tx' dummy_sig True] final(2) [of True]
      by (simp add: add_collateral_witness_preserves_refund_redeemer_def passes_def bind_def refund lift_def ret_def final(1)
          crates_keep_read [OF keep])
  qed
qed

theorem secret_tests_pass:
  assumes tx: "\<And>tx. btc_deserialize_hex (btc E) (btc_serialize_hex (btc E) tx) = Some tx" and keep: "crates_keep E hx"
    and acc: "\<And>k v. j_index (json E) (JObject [(k, v)]) k = v" "\<And>s. as_str (json E) (JString s) = Some s"
  shows "passes (fetch_valid_sig_bitcoin_extracts_witness E uri) t"
    "passes (fetch_valid_sig_cardano_blockfrost_extracts_redeemer_mocked E uri) t"
proof -
  show "passes (fetch_valid_sig_bitcoin_extracts_witness E uri) t"
    by (simp add: fetch_valid_sig_bitcoin_extracts_witness_def fetch_valid_sig_bitcoin_def replying_def passes_def bind_def
        lift_def ret_def tx set_witness0_def dummy_tx_def http_get_def http_send_def index_list_def Let_def)
  have "car_from_bytes (csl E) (car_to_bytes (csl E) x) = Some x" "hex_decode E (hex_encode E b) = Some b" for x b
    using keep by (simp_all add: crates_keep_def)
  then show "passes (fetch_valid_sig_cardano_blockfrost_extracts_redeemer_mocked E uri) t"
    by (simp add: fetch_valid_sig_cardano_blockfrost_extracts_redeemer_mocked_def fetch_valid_sig_cardano_blockfrost_def
        replying_def passes_def bind_def lift_def ret_def http_get_key_def http_send_def signature_of_answer_def tx_of_cbor_def
        ok_json_def acc encode_car_tx_def redeemed_tx_def redeemer_signature_def index_list_def Let_def)
qed

end
