(* ===== verification/Spec2Isabelle.thy ===== *)
theory Spec2Isabelle
  imports Daemon_Props Protocol_Props Tx_Props System_Props Course_Props Nonce_Safety Claim_Props
    Network_Props Runtime_Props Trust_Props Quint_Props
    Spend_Tests Ledger_Tests
begin

text \<open>
  A verification development for the swap daemon of the cyclic atomic swap, the Rust crate under
  \<open>src/swap-daemon/src\<close>, and for the formal model of its protocol in Quint, \<open>src/formal-methods\<close>.

  \<^bold>\<open>The program.\<close> Participants in a ring each lock funds on Bitcoin or Cardano for the next one. Every
  participant runs a daemon. Its sessions exchange adaptor points, elect a leader by commitments and
  nonces, sign the refunds and the claims of all participants with MuSig2, claims under
  the sum of all adaptor points, and only then lock. When all locks are confirmed, everyone but the
  leader reveals its secret; the leader completes the aggregate secret and claims; the others
  extract that secret from the leader's claim on chain and claim with it. When the swap stalls, the locks
  are refunded after locktimes that are staggered along the ring.

  \<^bold>\<open>Theories of the model\<close>, with the files under \<open>src/swap-daemon/src\<close> they translate:

  \<^item> \<open>Prelude\<close>: words, panics as values (\<open>res\<close>), handlers as computations over a trace of effects
    (\<open>io\<close>, \<open>bind\<close>, \<open>wp\<close>), checked and wrapping arithmetic, and the two dictionaries of the standard
    library with the interface \<open>dict\<close> both satisfy.
  \<^item> \<open>Types\<close> (\<open>types.rs\<close>, \<open>config.rs\<close>): the records and enums, field by field.
  \<^item> \<open>Effects\<close>: the record \<open>env\<close> of everything outside the program (below) and the effects: HTTP
    requests with their answers, gRPC submissions, connections, writes, random bytes, pollers.
  \<^item> \<open>Networking\<close> (\<open>networking.rs\<close>), \<open>Cycle\<close> and \<open>Session_Utils\<close> (\<open>utils.rs\<close>), \<open>Leader_Election\<close>
    (\<open>protocol/leader_election.rs\<close>, \<open>protocol/adaptor_nonce.rs\<close>), \<open>Bitcoin_Utils\<close> and
    \<open>Cardano_Utils\<close> (\<open>blockchains\<close>), \<open>Multisig\<close> (\<open>cryptography/multisig.rs\<close>), \<open>Chain_Monitor\<close>,
    \<open>Lock_Funds\<close>, \<open>Refund_Txs\<close>, \<open>Spend_Txs\<close>, \<open>Secret\<close> and \<open>Swap_Session\<close> (\<open>chain_monitor.rs\<close>,
    \<open>lock_funds.rs\<close>, \<open>refund.rs\<close>, \<open>spend.rs\<close>, \<open>secret.rs\<close>, \<open>session.rs\<close> of \<open>protocol\<close>): one definition per
    function, and one per message for the arms of \<open>handle_session_message\<close>.
  \<^item> \<open>Swap_Daemon\<close> (\<open>daemon.rs\<close>): the map of sessions, the pollers, the handlers of messages and ticks,
    and the event loop; \<open>Runtime\<close> (\<open>run\<close> and \<open>run_shared\<close> of \<open>daemon.rs\<close>): the accept loop, the readers, the ticking
    tasks and the event loop as steps \<open>rt_step\<close> over a bounded channel, in any interleaving;
    \<open>Dashboard\<close> (\<open>dashboard.rs\<close>): what \<open>/api/state\<close> answers; \<open>Start_Up\<close> (\<open>test_utils.rs\<close>, \<open>main.rs\<close>, \<open>bin\<close>): the
    constructors of keys and participants, and the programs.

  A function that only computes is a HOL function into \<open>res\<close> when it can panic; one that awaits the
  network returns an \<open>act\<close>, which extends the trace also when it panics. \<open>&mut\<close> arguments are
  passed and returned. \<open>log\<close> lines are left out.

  \<^bold>\<open>Theories of the proofs.\<close>

  \<^item> The locale \<open>session_op\<close> (\<open>Session_Utils\<close>) is the contract of every operation on a session: what it
    keeps, and that it reveals no secret. Every operation of the protocol interprets it. Its extension
    \<open>steady_op\<close> (\<open>Session_States\<close>) adds that the state is kept; \<open>unsigning\<close> (\<open>Nonce_Safety\<close>) is the contract of
    operations that neither sign nor touch the signing rounds.
  \<^item> \<open>Daemon_Safety\<close> shows what one event may do; \<open>Daemon_Runs\<close> has the step relation \<open>daemon_step\<close> of a
    daemon (create, start, a message with any content, a tick of any poller ever spawned), its reachable
    configurations and their invariant.
  \<^item> \<open>Session_Views\<close>, \<open>Honest_Peers\<close> and \<open>Honest_Daemon\<close> follow what a daemon tells its peers about the election
    and its secret: the locale \<open>reserved\<close> is the contract of the operations that say nothing of it, \<open>word_kept\<close> the
    invariant that a participant stands by what it has said. \<open>Swap_Network\<close> puts the daemons of one swap on a network
    (\<open>net_step\<close>): a daemon starts a session, handles any message that some daemon of the swap has
    written, or ticks; messages may be lost, repeated, reordered and misdirected, but not forged, the services
    may answer anything, and a panic takes a daemon down. \<open>net_invariant\<close> is its invariant; \<open>Network_Props\<close> has what
    follows for the whole swap, and \<open>Net_Run\<close> a complete swap of two daemons.
  \<^item> \<open>Poller_Life\<close> has the locale \<open>kept_by_events\<close>, which carries a property of the daemon, and of the effects emitted while
    it holds, through every event; \<open>Runtime_Props\<close> the properties of the running daemon.
  \<^item> \<open>Session_States\<close> and \<open>Session_Course\<close> have the abstract machine \<open>swap_move\<close> of a session and the proof that the
    handlers and polls refine it.
  \<^item> \<open>Sample_Env\<close> and \<open>Sample_Run\<close> instantiate the parameters (a group of order seven for the curve, toy
    serializations) and run a whole swap of two; the witnesses are evaluated there.
  \<^item> The properties are in \<open>Cycle\<close> and the theories named \<open>_Props\<close>, and in \<open>Nonce_Safety\<close>: when a secret is revealed,
    a transaction submitted or a refund attempted; what the extraction finds; the order of locktimes; the
    values of the transactions; isolation of sessions; what closes a session; and, as theorems about
    the code as it is, what a peer or an indexer can provoke. A property stated for one daemon assumes nothing of the
    messages it receives; those of \<open>Network_Props\<close> assume that the envelopes are not forged, which the code itself
    does not check (\<open>forged_reveal_replaces_own_secret\<close>). Nor is a revealed secret compared with the adaptor
    point its sender announced: \<open>Trust_Props\<close> shows that the handler ignores the points altogether.

  \<^bold>\<open>The Quint model.\<close> \<open>Quint_Model\<close> translates \<open>types.qnt\<close>, \<open>parameters.qnt\<close> and \<open>protocolFlat.qnt\<close>: the state of all
  parties and deposits, a guard and an effect for each action (\<open>q_guard\<close>, \<open>q_effect\<close>), and the fair behaviours. The
  five kinds of message share one record \<open>inbox\<close>, and the parameters are the record \<open>qparams\<close>, so that the
  theorems hold for any number of parties; the locale \<open>protocol\<close> is the interface of the parameters,
  \<open>honest_protocol\<close> adds ordered windows and that all are honest, \<open>quiet\<close> a state in which only time can pass.
  \<open>Quint_Safety\<close> has the invariants that the repository gives to Apalache; \<open>Quint_Runs\<close> a measure that every action
  decreases, so that runs are finite and no fuel is needed, what the passing of time freezes, and the rest that fair
  behaviours come to; \<open>Quint_Honest\<close> the honest runs; \<open>Quint_Sample\<close> the three parties of the repository.
  \<open>Quint_Code\<close> is the link to the daemon: the parameters of a session, whose windows are the locktimes that
  \<open>refund_locktime_btc\<close> computes and meet what the model assumes of them. The sessions are not shown to
  refine the actions of the model, which merges and orders the signing rounds otherwise.

  \<^bold>\<open>The source's own tests.\<close> \<open>Unit_Tests\<close>, \<open>Tx_Tests\<close>, \<open>Spend_Tests\<close> and \<open>Ledger_Tests\<close> translate the unit tests
  that stand beside the functions and show that the model passes them (\<open>passes\<close>: no assertion fails and nothing panics).
  A test that calls the crates passes wherever these read back what they write, which the theorems say; the three
  daemons that sign and adapt the spends of \<open>spend.rs\<close> are evaluated in the concrete environment. Left out are the tests
  of \<open>multisig.rs\<close> and the extraction tests of \<open>secret.rs\<close>, which run the two-round interface of \<open>musig2\<close> that the program never
  calls, those that compare a hash with a known value, the signature check of \<open>bitcoin_utils.rs\<close>, and the ignored ones that ask a
  live network.

  \<^bold>\<open>Bounds and loops.\<close> \<open>cycle_loop\<close> and \<open>distance_loop\<close> end because the code gives up once its counter
  passes the number of participants (at most 256, the ids being bytes); \<open>distance_from_leader_ends\<close> shows
  that this bound is never too small. No other loop is unbounded apart from the event loop, a fold over the
  events received, so no fuel is used; \<open>Runtime\<close> has that loop and its tasks as a step relation. Integers have their width; \<open>overflow_checks\<close> chooses between the panic of
  a debug build and the wrap-around of a release build, and theorems that need one of them say so.

  \<^bold>\<open>Parameters.\<close> The crates \<open>musig2\<close>, \<open>secp256k1\<close>, \<open>bitcoin\<close>, \<open>cardano-serialization-lib\<close>,
  \<open>serde\<close>, \<open>hex\<close>, the hashes and the floating-point fee are fields of \<open>env\<close>, as are the answers of
  servers and peers, which may depend on all that happened before. What a theorem relies on of them is
  a hypothesis: the group laws (\<open>cyclic_group\<close>, \<open>adapts_to\<close>), that the output builder keeps what it is
  given (\<open>builder_keeps\<close>), the length of a hash. The iteration order of a \<open>HashMap\<close> is the parameter
  \<open>hash_order\<close>.

  \<^bold>\<open>Not modelled.\<close> The concurrency of the tasks within one broadcast (they run in the order of the
  addresses; each keeps its own connection) and the timing of the pollers (a tick may come at any time); the
  error of a closed channel, which cannot occur because its receiver lives as long as the daemon; the routing of
  \<open>axum\<close> beyond the one path served; log output; the lists of modules; the tests that need a live node, a concrete hash or the curve; the on-chain validator, whose compiled bytes are a
  constant of \<open>Cardano_Utils\<close>; the scripts and the library of spells beside the Quint model; and the client and the documents
  outside the crate.
\<close>

end
